(* ===== verification/Go_Prelude.thy ===== *)
theory Go_Prelude
  imports Main "HOL-Library.Char_ord" "HOL-Library.List_Lexorder" "HOL-Library.Multiset"
    "HOL-Library.Word"
begin

text \<open>
  Prelude of the development: the part of the Go language and of its standard
  library that the driver uses, as executable HOL functions, with the generic
  lemmas the component theories share.

  Strings are byte strings (\<^typ>\<open>string\<close>); the order on them is the
  bytewise lexicographic order Go's \<open><\<close> and \<open>sort.Strings\<close> use.  The white
  space and case functions treat ASCII, the only alphabet of the identifiers the
  driver handles.  Instants are integers counting nanoseconds since Go's zero
  \<open>time.Time\<close>, so that the value 0 is exactly the instant for which \<open>IsZero\<close>
  answers true; durations are integers of the same unit.
\<close>

section \<open>Fact collections\<close>

named_theorems go_string_simps \<open>evaluation rules of the string functions\<close>
named_theorems go_arith_simps \<open>evaluation rules of fixed-width arithmetic\<close>
named_theorems go_map_simps \<open>rules on finite maps and listings\<close>

section \<open>Types shared by the components\<close>

type_synonym go_time = int
type_synonym duration = int
type_synonym str_map = "string \<Rightarrow> string option"

text \<open>The gRPC status codes the driver answers with.\<close>

datatype grpc_code =
    InvalidArgument | NotFoundCode | AlreadyExists | FailedPrecondition | Aborted
  | OutOfRange | Unimplemented | InternalCode | Unavailable | ResourceExhausted
  | DeadlineExceeded | CanceledCode

datatype status_error = StatusError (code_of: grpc_code) (message_of: string)

definition is_zero :: "go_time \<Rightarrow> bool" where
  "is_zero t \<longleftrightarrow> t = 0"

abbreviation second :: duration where "second \<equiv> 1000000000"
abbreviation minute :: duration where "minute \<equiv> 60 * 1000000000"

section \<open>Integers\<close>

text \<open>Go's integer division and remainder truncate toward zero.\<close>

definition go_div :: "int \<Rightarrow> int \<Rightarrow> int" where
  "go_div a b = (if (a < 0) = (b < 0) then \<bar>a\<bar> div \<bar>b\<bar> else - (\<bar>a\<bar> div \<bar>b\<bar>))"

definition go_mod :: "int \<Rightarrow> int \<Rightarrow> int" where
  "go_mod a b = a - b * go_div a b"

text \<open>The value of an expression of type \<open>int64\<close> after wrap-around.\<close>

definition int64 :: "int \<Rightarrow> int" where
  "int64 x = (x + 2 ^ 63) mod 2 ^ 64 - 2 ^ 63"

definition in_int64 :: "int \<Rightarrow> bool" where
  "in_int64 x \<longleftrightarrow> - (2 ^ 63) \<le> x \<and> x < 2 ^ 63"

lemma go_div_nonneg: "0 \<le> a \<Longrightarrow> 0 < b \<Longrightarrow> go_div a b = a div b"
  by (simp add: go_div_def)

lemma go_mod_nonneg: "0 \<le> a \<Longrightarrow> 0 < b \<Longrightarrow> go_mod a b = a mod b"
  by (simp add: go_mod_def go_div_nonneg minus_mult_div_eq_mod)

lemma int64_id [simp]: "in_int64 x \<Longrightarrow> int64 x = x"
  by (simp add: int64_def in_int64_def)

lemma int64_range: "in_int64 (int64 x)"
proof -
  have "0 \<le> (x + 2 ^ 63) mod 2 ^ 64" "(x + 2 ^ 63) mod 2 ^ 64 < 2 ^ 64"
    by simp_all
  then show ?thesis
    by (simp add: int64_def in_int64_def)
qed

lemma int64_sint: "int64 x = sint (word_of_int x :: 64 word)"
proof -
  have "sint (word_of_int x :: 64 word) = signed_take_bit 63 x"
    by (simp add: sint_sbintrunc')
  then show ?thesis
    by (simp add: int64_def signed_take_bit_eq_take_bit_shift take_bit_eq_mod)
qed

section \<open>Strings\<close>

definition is_space :: "char \<Rightarrow> bool" where
  "is_space c \<longleftrightarrow> of_char c \<in> {9, 10, 11, 12, 13, 32 :: nat}"

text \<open>\<open>strings.TrimSpace\<close>.\<close>

definition trim_space :: "string \<Rightarrow> string" where
  "trim_space s = rev (dropWhile is_space (rev (dropWhile is_space s)))"

definition lower_char :: "char \<Rightarrow> char" where
  "lower_char c = (if 65 \<le> (of_char c :: nat) \<and> (of_char c :: nat) \<le> 90
                   then char_of (of_char c + 32 :: nat) else c)"

definition upper_char :: "char \<Rightarrow> char" where
  "upper_char c = (if 97 \<le> (of_char c :: nat) \<and> (of_char c :: nat) \<le> 122
                   then char_of (of_char c - 32 :: nat) else c)"

text \<open>\<open>strings.ToLower\<close>, \<open>strings.ToUpper\<close> and \<open>strings.EqualFold\<close>.\<close>

definition to_lower :: "string \<Rightarrow> string" where
  "to_lower = map lower_char"

definition to_upper :: "string \<Rightarrow> string" where
  "to_upper = map upper_char"

definition equal_fold :: "string \<Rightarrow> string \<Rightarrow> bool" where
  "equal_fold a b \<longleftrightarrow> to_lower a = to_lower b"

text \<open>\<open>strings.HasPrefix\<close>, \<open>strings.HasSuffix\<close>, \<open>strings.TrimPrefix\<close>,
  \<open>strings.TrimSuffix\<close> and \<open>strings.Contains\<close>.\<close>

fun has_prefix :: "string \<Rightarrow> string \<Rightarrow> bool" where
  "has_prefix s [] = True"
| "has_prefix [] (p # ps) = False"
| "has_prefix (c # s) (p # ps) = (c = p \<and> has_prefix s ps)"

definition has_suffix :: "string \<Rightarrow> string \<Rightarrow> bool" where
  "has_suffix s p = has_prefix (rev s) (rev p)"

definition trim_prefix :: "string \<Rightarrow> string \<Rightarrow> string" where
  "trim_prefix s p = (if has_prefix s p then drop (length p) s else s)"

definition trim_suffix :: "string \<Rightarrow> string \<Rightarrow> string" where
  "trim_suffix s p = (if has_suffix s p then take (length s - length p) s else s)"

fun contains_sub :: "string \<Rightarrow> string \<Rightarrow> bool" where
  "contains_sub [] p = (p = [])"
| "contains_sub (c # s) p = (has_prefix (c # s) p \<or> contains_sub s p)"

text \<open>\<open>strings.Split\<close> with a separator of one byte, and \<open>strings.Join\<close>.\<close>

fun split_on :: "char \<Rightarrow> string \<Rightarrow> string list" where
  "split_on c [] = [[]]"
| "split_on c (x # xs) =
     (if x = c then [] # split_on c xs
      else (case split_on c xs of [] \<Rightarrow> [[x]] | y # ys \<Rightarrow> (x # y) # ys))"

fun join_with :: "string \<Rightarrow> string list \<Rightarrow> string" where
  "join_with sep [] = []"
| "join_with sep [x] = x"
| "join_with sep (x # y # zs) = x @ sep @ join_with sep (y # zs)"

text \<open>\<open>strings.Fields\<close>: the maximal runs of non-space bytes.\<close>

definition fields :: "string \<Rightarrow> string list" where
  "fields s = filter (\<lambda>w. w \<noteq> []) (split_on (CHR '' '')
     (map (\<lambda>c. if is_space c then CHR '' '' else c) s))"

text \<open>\<open>strings.Cut\<close> with a separator of one byte.\<close>

definition cut_on :: "char \<Rightarrow> string \<Rightarrow> string \<times> string \<times> bool" where
  "cut_on c s = (takeWhile (\<lambda>x. x \<noteq> c) s, drop 1 (dropWhile (\<lambda>x. x \<noteq> c) s), c \<in> set s)"

section \<open>Decimal numbers\<close>

definition digit_char :: "nat \<Rightarrow> char" where
  "digit_char d = char_of (48 + d)"

fun nat_decimal :: "nat \<Rightarrow> string" where
  "nat_decimal n = (if n < 10 then [digit_char n]
                    else nat_decimal (n div 10) @ [digit_char (n mod 10)])"

declare nat_decimal.simps [simp del]

text \<open>\<open>strconv.Itoa\<close>, and \<open>%d\<close> of \<open>fmt\<close>.\<close>

definition itoa :: "int \<Rightarrow> string" where
  "itoa i = (if i < 0 then CHR ''-'' # nat_decimal (nat (- i)) else nat_decimal (nat i))"

text \<open>\<open>Format(time.RFC3339)\<close> of a time in UTC.  Times count nanoseconds from Go's zero time, the
  first of January of the year 1; a calendar of 400 years has 146097 days.\<close>

definition year_and_day :: "int \<Rightarrow> int \<times> int" where
  "year_and_day days =
     (let c = days div 146097; d = days mod 146097; n100 = min 3 (d div 36524); d = d - n100 * 36524;
          n4 = d div 1461; d = d mod 1461; n1 = min 3 (d div 365)
      in (1 + 400 * c + 100 * n100 + 4 * n4 + n1, d - n1 * 365))"

definition leap_year :: "int \<Rightarrow> bool" where
  "leap_year y \<longleftrightarrow> y mod 4 = 0 \<and> (y mod 100 \<noteq> 0 \<or> y mod 400 = 0)"

fun month_and_day :: "int \<Rightarrow> int list \<Rightarrow> int \<Rightarrow> int \<times> int" where
  "month_and_day m [] d = (m, d + 1)"
| "month_and_day m (n # ns) d = (if d < n then (m, d + 1) else month_and_day (m + 1) ns (d - n))"

definition zero_pad :: "nat \<Rightarrow> int \<Rightarrow> string" where
  "zero_pad n i = (let s = itoa i in replicate (n - length s) (CHR ''0'') @ s)"

definition rfc3339 :: "go_time \<Rightarrow> string" where
  "rfc3339 t =
     (let secs = t div second; (y, d) = year_and_day (secs div 86400); s = secs mod 86400;
          (m, d) = month_and_day 1 [31, if leap_year y then 29 else 28, 31, 30, 31, 30, 31, 31, 30, 31, 30, 31] d
      in zero_pad 4 y @ ''-'' @ zero_pad 2 m @ ''-'' @ zero_pad 2 d @ ''T'' @
         zero_pad 2 (s div 3600) @ '':'' @ zero_pad 2 (s div 60 mod 60) @ '':'' @ zero_pad 2 (s mod 60) @ ''Z'')"

definition is_digit :: "char \<Rightarrow> bool" where
  "is_digit c \<longleftrightarrow> 48 \<le> (of_char c :: nat) \<and> (of_char c :: nat) \<le> 57"

definition digits_value :: "string \<Rightarrow> int" where
  "digits_value = foldl (\<lambda>v c. 10 * v + (int (of_char c) - 48)) 0"

text \<open>\<open>strconv.Atoi\<close> and \<open>strconv.ParseInt(s, 10, 64)\<close>: an optional sign, at
  least one digit, and a value in the range of \<open>int64\<close>.\<close>

definition atoi :: "string \<Rightarrow> int option" where
  "atoi s =
     (let (neg, ds) = (case s of [] \<Rightarrow> (False, [])
                       | c # cs \<Rightarrow> if c = CHR ''-'' then (True, cs)
                                   else if c = CHR ''+'' then (False, cs) else (False, s))
      in if ds = [] \<or> \<not> list_all is_digit ds then None
         else (let v = (if neg then - digits_value ds else digits_value ds)
               in if in_int64 v then Some v else None))"

section \<open>Lemmas on strings\<close>

lemma has_prefix_append [simp]: "has_prefix (p @ s) p"
  by (induction p) auto

lemma has_prefix_iff: "has_prefix s p \<longleftrightarrow> (\<exists>t. s = p @ t)"
  by (induction s p rule: has_prefix.induct) auto

lemma trim_prefix_append [simp]: "trim_prefix (p @ s) p = s"
  by (simp add: trim_prefix_def)

lemma split_on_nonempty [simp]: "split_on c s \<noteq> []"
  by (cases s) (auto split: list.split)

lemma split_on_no_sep: "c \<notin> set s \<Longrightarrow> split_on c s = [s]"
  by (induction s) auto

lemma split_on_append_sep: "c \<notin> set s \<Longrightarrow> split_on c (s @ c # t) = s # split_on c t"
  by (induction s) auto

lemma split_on_join:
  "xs \<noteq> [] \<Longrightarrow> \<forall>x \<in> set xs. c \<notin> set x \<Longrightarrow> split_on c (join_with [c] xs) = xs"
  by (induction "[c]" xs rule: join_with.induct) (auto simp: split_on_no_sep split_on_append_sep)

lemma join_with_cons_head: "join_with sep ((x # a) # l) = x # join_with sep (a # l)"
  by (cases l) auto

lemma join_with_empty_head: "l \<noteq> [] \<Longrightarrow> join_with sep ([] # l) = sep @ join_with sep l"
  by (cases l) auto

lemma join_split_on: "join_with [c] (split_on c s) = s"
proof (induction s)
  case (Cons x xs)
  then show ?case
    by (cases "split_on c xs") (auto simp: join_with_cons_head join_with_empty_head)
qed simp

lemma split_on_sep_free: "w \<in> set (split_on c s) \<Longrightarrow> c \<notin> set w"
  by (induction s arbitrary: w) (auto split: if_splits list.splits)

lemma trim_space_set: "set (trim_space s) \<subseteq> set s"
  unfolding trim_space_def by (metis set_dropWhileD set_rev subsetI)

lemma dropWhile_hd: "dropWhile P s = c # t \<Longrightarrow> \<not> P c"
  by (induction s) (auto split: if_splits)

lemma dropWhile_idem' [simp]: "dropWhile P (dropWhile P s) = dropWhile P s"
  by (induction s) auto

lemma dropWhile_rev_keep:
  assumes "dropWhile P s = s"
  shows "dropWhile P (rev (dropWhile P (rev s))) = rev (dropWhile P (rev s))"
proof (cases s rule: rev_cases)
  case (snoc u x)
  then show ?thesis
  proof (cases s)
    case (Cons y t)
    then have "\<not> P y" using assms dropWhile_hd by metis
    moreover have "rev s = rev t @ [y]" using Cons by simp
    ultimately have "dropWhile P (rev s) = dropWhile P (rev t) @ [y]"
      by (simp add: dropWhile_append3)
    then show ?thesis using \<open>\<not> P y\<close> by simp
  qed simp
qed simp

lemma trim_space_idem [simp]: "trim_space (trim_space s) = trim_space s"
  unfolding trim_space_def by (simp add: dropWhile_rev_keep)

lemma trim_space_Nil [simp]: "trim_space [] = []"
  by (simp add: trim_space_def)

lemma lower_char_idem [simp]: "lower_char (lower_char c) = lower_char c"
  by (auto simp: lower_char_def)

lemma to_lower_idem [simp]: "to_lower (to_lower s) = to_lower s"
  by (simp add: to_lower_def)

lemma equal_fold_refl [simp]: "equal_fold s s"
  by (simp add: equal_fold_def)

section \<open>Lemmas on decimal numbers\<close>

lemma digit_char_value [simp]: "d < 10 \<Longrightarrow> (of_char (digit_char d) :: nat) = 48 + d"
  by (simp add: digit_char_def)

lemma digit_char_is_digit [simp]: "d < 10 \<Longrightarrow> is_digit (digit_char d)"
  by (simp add: digit_char_def is_digit_def)

lemma nat_decimal_digits: "list_all is_digit (nat_decimal n)"
  by (induction n rule: nat_decimal.induct) (subst nat_decimal.simps, simp)

lemma nat_decimal_nonempty [simp]: "nat_decimal n \<noteq> []"
  by (subst nat_decimal.simps) simp

lemma digits_value_snoc: "digits_value (s @ [c]) = 10 * digits_value s + (int (of_char c) - 48)"
  by (simp add: digits_value_def)

lemma digits_value_decimal [simp]: "digits_value (nat_decimal n) = int n"
proof (induction n rule: nat_decimal.induct)
  case (1 n)
  show ?case
  proof (cases "n < 10")
    case True
    then show ?thesis
      by (simp add: nat_decimal.simps [of n] digits_value_def)
  next
    case False
    then have "digits_value (nat_decimal n) = 10 * int (n div 10) + int (n mod 10)"
      using 1 by (simp add: nat_decimal.simps [of n] digits_value_snoc)
    then show ?thesis by presburger
  qed
qed

lemma digit_not_sign: "is_digit c \<Longrightarrow> c \<noteq> CHR ''-'' \<and> c \<noteq> CHR ''+''"
  by (auto simp: is_digit_def)

lemma atoi_nat_decimal: "in_int64 (int n) \<Longrightarrow> atoi (nat_decimal n) = Some (int n)"
  using nat_decimal_digits [of n] digit_not_sign [of "hd (nat_decimal n)"]
    digits_value_decimal [of n]
  by (cases "nat_decimal n") (simp_all add: atoi_def Let_def del: digits_value_decimal)

lemma atoi_itoa: "in_int64 i \<Longrightarrow> atoi (itoa i) = Some i"
proof (cases "i < 0")
  case True
  assume "in_int64 i"
  then show ?thesis
    using True nat_decimal_digits [of "nat (- i)"] by (simp add: itoa_def atoi_def Let_def)
next
  case False
  assume "in_int64 i"
  then show ?thesis
    using False atoi_nat_decimal [of "nat i"] by (simp add: itoa_def)
qed

lemma itoa_set: "c \<in> set (itoa i) \<Longrightarrow> is_digit c \<or> c = CHR ''-''"
  using nat_decimal_digits [of "nat i"] nat_decimal_digits [of "nat (- i)"]
  by (auto simp: itoa_def list_all_iff split: if_splits)

lemma itoa_no_sep:
  "\<not> is_digit c \<Longrightarrow> c \<noteq> CHR ''-'' \<Longrightarrow> c \<notin> set (itoa i)"
  using itoa_set by blast

lemma itoa_nonempty [simp]: "itoa i \<noteq> []"
  by (simp add: itoa_def)

lemma atoi_range: "atoi s = Some v \<Longrightarrow> in_int64 v"
  by (auto simp: atoi_def Let_def split: if_splits prod.splits list.splits)

text \<open>The answer of a read from the Kubernetes API: the object, not found, or an error.\<close>

datatype 'a kube_reply = KubeOk 'a | KubeNotFound | KubeError

text \<open>Collecting entries key by key keeps the keys distinct.\<close>

lemma keys_concat_subset:
  assumes "\<And>e x. x \<in> set (f e) \<Longrightarrow> fst x = fst e"
  shows "fst ` set (concat (map f xs)) \<subseteq> fst ` set xs"
proof
  fix k assume "k \<in> fst ` set (concat (map f xs))"
  then obtain x e where "k = fst x" "e \<in> set xs" "x \<in> set (f e)" by auto
  then show "k \<in> fst ` set xs" using assms [of x e] by (metis image_eqI)
qed

lemma distinct_keys_concat:
  assumes keys: "\<And>e x. x \<in> set (f e) \<Longrightarrow> fst x = fst e" and "\<And>e. distinct (map fst (f e))"
    and "distinct (map fst xs)"
  shows "distinct (map fst (concat (map f xs)))"
  using assms(3)
proof (induction xs)
  case (Cons e xs)
  have sub: "fst ` set (concat (map f xs)) \<subseteq> fst ` set xs" by (rule keys_concat_subset) (rule keys)
  have fresh: "fst e \<notin> fst ` set xs" using Cons.prems by simp
  have "fst ` set (f e) \<inter> fst ` set (concat (map f xs)) = {}"
  proof (rule equals0I, elim IntE)
    fix k assume k: "k \<in> fst ` set (f e)" "k \<in> fst ` set (concat (map f xs))"
    from k(1) obtain x where x: "x \<in> set (f e)" "k = fst x" by (rule imageE)
    show False using keys [OF x(1)] x(2) subsetD [OF sub k(2)] fresh by simp
  qed
  moreover have "distinct (map fst (concat (map f xs)))" using Cons.IH Cons.prems by simp
  ultimately show ?case
    using assms(2) [of e] unfolding list.map concat.simps map_append distinct_append set_map by (intro conjI)
qed simp

end
