(* ===== verification/Operation_Locks.thy ===== *)
theory Operation_Locks
  imports Go_Prelude
begin

text \<open>
  The keyed operation locks of the controller (\<open>driver/operation_locks.go\<close>).

  A lock record (\<open>operationLockRef\<close>) is a heap object: \<open>o.locks\<close> maps a key
  to its address, and a caller keeps the addresses it registered.  Every part
  the code runs under \<open>o.mu\<close>, and every single \<open>Lock\<close>, \<open>TryLock\<close> and
  \<open>Unlock\<close> of a record's mutex, is one atomic step; threads interleave at the
  granularity of these steps.  A thread is the list of lock operations it still
  performs and the stack of the acquisitions it has begun and not yet returned
  from (the deferred releases run in reverse order).  Unlocking a free mutex,
  and using a record that is not on the heap, are panics.
\<close>

section \<open>The lock table\<close>

record lock_ref =
  locked :: bool
  refs :: int

record op_locks =
  locks :: "string \<Rightarrow> nat option"
  heap :: "nat \<Rightarrow> lock_ref option"
  fresh :: nat

definition new_operation_locks :: op_locks where
  "new_operation_locks = \<lparr>locks = Map.empty, heap = Map.empty, fresh = 0\<rparr>"

text \<open>\<open>normalizeLockKeys\<close>: the non-empty keys, once each, in sorted order.\<close>

definition normalize_lock_keys :: "string list \<Rightarrow> string list" where
  "normalize_lock_keys keys = sort (remdups (filter (\<lambda>k. k \<noteq> []) keys))"

text \<open>The loop of \<open>Acquire\<close> under \<open>o.mu\<close>: find or create the record of each
  key and count one more user.\<close>

definition register_key :: "string \<Rightarrow> op_locks \<Rightarrow> nat \<times> op_locks" where
  "register_key k L =
     (let (a, L1) = (case locks L k of
           Some a \<Rightarrow> (a, L)
         | None \<Rightarrow> (fresh L, L\<lparr>locks := (locks L)(k \<mapsto> fresh L),
                             heap := (heap L)(fresh L \<mapsto> \<lparr>locked = False, refs = 0\<rparr>),
                             fresh := Suc (fresh L)\<rparr>))
      in (a, L1\<lparr>heap := (heap L1)(a := map_option (\<lambda>r. r\<lparr>refs := refs r + 1\<rparr>) (heap L1 a))\<rparr>))"

fun register_keys :: "string list \<Rightarrow> op_locks \<Rightarrow> nat list \<times> op_locks" where
  "register_keys [] L = ([], L)"
| "register_keys (k # ks) L =
     (let (a, L1) = register_key k L; (as, L2) = register_keys ks L1 in (a # as, L2))"

text \<open>The tail of a release under \<open>o.mu\<close>: one user less of each record, and the
  record leaves the table with its last user.\<close>

definition unregister_key :: "string \<Rightarrow> nat \<Rightarrow> op_locks \<Rightarrow> op_locks" where
  "unregister_key k a L =
     (case heap L a of
        None \<Rightarrow> L
      | Some r \<Rightarrow>
          let r' = r\<lparr>refs := refs r - 1\<rparr>; L1 = L\<lparr>heap := (heap L)(a \<mapsto> r')\<rparr>
          in if refs r' = 0 then L1\<lparr>locks := (locks L1)(k := None)\<rparr> else L1)"

fun unregister_keys :: "string list \<Rightarrow> nat list \<Rightarrow> op_locks \<Rightarrow> op_locks" where
  "unregister_keys (k # ks) (a # as) L = unregister_keys ks as (unregister_key k a L)"
| "unregister_keys [] as L = L"
| "unregister_keys (k # ks) [] L = L"

definition set_locked :: "nat \<Rightarrow> bool \<Rightarrow> op_locks \<Rightarrow> op_locks" where
  "set_locked a b L = L\<lparr>heap := (heap L)(a := map_option (\<lambda>r. r\<lparr>locked := b\<rparr>) (heap L a))\<rparr>"

section \<open>Threads\<close>

datatype lock_action =
    Acquire "string list"
  | TryAcquire string "lock_action list"
  | Release

datatype frame_mode = Acquiring | Trying "lock_action list" | Releasing

text \<open>An acquisition in progress: the normalized keys, their records, and how
  many of the records (a prefix, since they are locked in order and unlocked in
  reverse order) the thread has locked.\<close>

record frame =
  fr_mode :: frame_mode
  fr_keys :: "string list"
  fr_refs :: "nat list"
  fr_count :: nat

record lock_thread =
  th_prog :: "lock_action list"
  th_stack :: "frame list"

datatype step_result = Finished | is_Blocked: Blocked | Panic | Next op_locks lock_thread

text \<open>The next instruction of the program, when no acquisition is under way.  A
  release with nothing acquired has no closure to call and ends the thread.\<close>

fun prog_step :: "op_locks \<Rightarrow> lock_action list \<Rightarrow> frame list \<Rightarrow> step_result" where
  "prog_step L [] st = Finished"
| "prog_step L (Acquire ks # p) st =
     (let keys = normalize_lock_keys ks; (as, L') = register_keys keys L
      in Next L' \<lparr>th_prog = p,
                  th_stack = \<lparr>fr_mode = Acquiring, fr_keys = keys, fr_refs = as, fr_count = 0\<rparr> # st\<rparr>)"
| "prog_step L (TryAcquire k body # p) st =
     (let keys = normalize_lock_keys [k]; (as, L') = register_keys keys L
      in Next L' \<lparr>th_prog = p,
                  th_stack = \<lparr>fr_mode = Trying body, fr_keys = keys, fr_refs = as, fr_count = 0\<rparr> # st\<rparr>)"
| "prog_step L (Release # p) [] = Finished"
| "prog_step L (Release # p) (f # st) =
     Next L \<lparr>th_prog = p, th_stack = f\<lparr>fr_mode := Releasing\<rparr> # st\<rparr>"

text \<open>\<open>ref.mu.Lock()\<close> of the next record: blocks while it is locked.\<close>

definition lock_step :: "op_locks \<Rightarrow> lock_action list \<Rightarrow> frame \<Rightarrow> frame list \<Rightarrow> step_result" where
  "lock_step L p f st =
     (let a = fr_refs f ! fr_count f
      in case heap L a of
           None \<Rightarrow> Panic
         | Some r \<Rightarrow> if locked r then Blocked
                     else Next (set_locked a True L)
                            \<lparr>th_prog = p, th_stack = f\<lparr>fr_count := Suc (fr_count f)\<rparr> # st\<rparr>)"

text \<open>\<open>ref.mu.TryLock()\<close>: on failure the user count is given back and the
  guarded body is skipped; on success the body runs and then releases.\<close>

definition try_step ::
  "op_locks \<Rightarrow> lock_action list \<Rightarrow> lock_action list \<Rightarrow> frame \<Rightarrow> frame list \<Rightarrow> step_result" where
  "try_step L p body f st =
     (if fr_count f = length (fr_refs f)
      then Next L \<lparr>th_prog = body @ Release # p, th_stack = f\<lparr>fr_mode := Acquiring\<rparr> # st\<rparr>
      else (let a = fr_refs f ! fr_count f
            in case heap L a of
                 None \<Rightarrow> Panic
               | Some r \<Rightarrow> if locked r
                           then Next L \<lparr>th_prog = p, th_stack = f\<lparr>fr_mode := Releasing\<rparr> # st\<rparr>
                           else Next (set_locked a True L)
                                  \<lparr>th_prog = p, th_stack = f\<lparr>fr_count := Suc (fr_count f)\<rparr> # st\<rparr>))"

text \<open>The closure \<open>Acquire\<close> returns: unlock in reverse order, then unregister.\<close>

definition release_step :: "op_locks \<Rightarrow> lock_action list \<Rightarrow> frame \<Rightarrow> frame list \<Rightarrow> step_result" where
  "release_step L p f st =
     (case fr_count f of
        0 \<Rightarrow> Next (unregister_keys (fr_keys f) (fr_refs f) L) \<lparr>th_prog = p, th_stack = st\<rparr>
      | Suc n \<Rightarrow>
          let a = fr_refs f ! n
          in case heap L a of
               None \<Rightarrow> Panic
             | Some r \<Rightarrow> if locked r
                         then Next (set_locked a False L)
                                \<lparr>th_prog = p, th_stack = f\<lparr>fr_count := n\<rparr> # st\<rparr>
                         else Panic)"

definition thread_step :: "op_locks \<Rightarrow> lock_thread \<Rightarrow> step_result" where
  "thread_step L t =
     (case th_stack t of
        [] \<Rightarrow> prog_step L (th_prog t) []
      | f # st \<Rightarrow>
          (case fr_mode f of
             Acquiring \<Rightarrow> if fr_count f < length (fr_refs f) then lock_step L (th_prog t) f st
                          else prog_step L (th_prog t) (f # st)
           | Trying body \<Rightarrow> try_step L (th_prog t) body f st
           | Releasing \<Rightarrow> release_step L (th_prog t) f st))"

section \<open>The interleaved system\<close>

type_synonym lock_system = "op_locks \<times> lock_thread list"

definition initial_system :: "lock_action list list \<Rightarrow> lock_system" where
  "initial_system progs = (new_operation_locks, map (\<lambda>p. \<lparr>th_prog = p, th_stack = []\<rparr>) progs)"

inductive sys_step :: "lock_system \<Rightarrow> lock_system \<Rightarrow> bool" where
  step: "i < length ts \<Longrightarrow> thread_step L (ts ! i) = Next L' t' \<Longrightarrow> sys_step (L, ts) (L', ts[i := t'])"

inductive reachable :: "lock_action list list \<Rightarrow> lock_system \<Rightarrow> bool" for progs where
  init: "reachable progs (initial_system progs)"
| more: "reachable progs s \<Longrightarrow> sys_step s s' \<Longrightarrow> reachable progs s'"

inductive_cases sys_stepE: "sys_step s s'"
inductive_simps sys_step_iff: "sys_step (L, ts) s'"

definition finished :: "lock_thread \<Rightarrow> bool" where
  "finished t \<longleftrightarrow> th_prog t = [] \<and> th_stack t = []"

definition deadlocked :: "lock_system \<Rightarrow> bool" where
  "deadlocked s \<longleftrightarrow> \<not> list_all finished (snd s) \<and>
     list_all (\<lambda>t. finished t \<or> is_Blocked (thread_step (fst s) t)) (snd s)"

text \<open>The keys whose mutex a thread has locked, and the critical sections it is in.\<close>

definition frame_held :: "frame \<Rightarrow> string list" where
  "frame_held f = take (fr_count f) (fr_keys f)"

definition held_keys :: "lock_thread \<Rightarrow> string list" where
  "held_keys t = concat (map frame_held (th_stack t))"

text \<open>A program respects the lock order when each blocking acquisition asks
  only for keys above the ones it holds, and every acquisition is released.\<close>

fun ordered_prog :: "string list list \<Rightarrow> lock_action list \<Rightarrow> bool" where
  "ordered_prog H [] = (H = [])"
| "ordered_prog H (Acquire ks # p) =
     ((\<forall>k \<in> set (normalize_lock_keys ks). \<forall>h \<in> set (concat H). h < k) \<and>
      ordered_prog (normalize_lock_keys ks # H) p)"
| "ordered_prog H (TryAcquire k body # p) =
     (ordered_prog H p \<and> ordered_prog (normalize_lock_keys [k] # H) (body @ Release # p))"
| "ordered_prog [] (Release # p) = False"
| "ordered_prog (h # H) (Release # p) = ordered_prog H p"

section \<open>The lock sequences of the controller\<close>

definition controller_node_lock_key :: "string \<Rightarrow> string" where
  "controller_node_lock_key node_id = ''node:'' @ node_id"

definition controller_volume_lock_key :: "string \<Rightarrow> string" where
  "controller_volume_lock_key volume_id = ''volume:'' @ volume_id"

text \<open>\<open>ControllerPublishVolume\<close> with no sticky attachment on another node,
  \<open>ControllerUnpublishVolume\<close>, the expiry of a delayed detach and the detach of
  the attachment reconciler: the node's lock, then the volume's lock.\<close>

definition hotplug_lock_prog :: "string \<Rightarrow> string \<Rightarrow> lock_action list" where
  "hotplug_lock_prog node_id volume_id =
     [Acquire [controller_node_lock_key node_id], Acquire [controller_volume_lock_key volume_id],
      Release, Release]"

definition expand_lock_prog :: "string \<Rightarrow> lock_action list" where
  "expand_lock_prog volume_id = [Acquire [controller_volume_lock_key volume_id], Release]"

datatype controller_op =
    PublishOp string string | UnpublishOp string string | ExpandOp string
  | ExpireOp string string | ReconcileOp string string

fun controller_lock_prog :: "controller_op \<Rightarrow> lock_action list" where
  "controller_lock_prog (PublishOp node_id volume_id) = hotplug_lock_prog node_id volume_id"
| "controller_lock_prog (UnpublishOp node_id volume_id) = hotplug_lock_prog node_id volume_id"
| "controller_lock_prog (ExpandOp volume_id) = expand_lock_prog volume_id"
| "controller_lock_prog (ExpireOp node_id volume_id) = hotplug_lock_prog node_id volume_id"
| "controller_lock_prog (ReconcileOp node_id volume_id) = hotplug_lock_prog node_id volume_id"

text \<open>\<open>ControllerPublishVolume\<close> on the branch of \<open>reuseStickyAttachment\<close> that
  moves the volume: the old node's lock is taken while both locks are held.\<close>

definition move_lock_prog :: "string \<Rightarrow> string \<Rightarrow> string \<Rightarrow> lock_action list" where
  "move_lock_prog node_id volume_id old_node =
     [Acquire [controller_node_lock_key node_id], Acquire [controller_volume_lock_key volume_id],
      Acquire [controller_node_lock_key old_node], Release, Release, Release]"

section \<open>The table invariant\<close>

definition users :: "nat \<Rightarrow> frame multiset \<Rightarrow> nat" where
  "users a M = (\<Sum>f\<in>#M. count_list (fr_refs f) a)"

definition holders :: "nat \<Rightarrow> frame multiset \<Rightarrow> nat" where
  "holders a M = (\<Sum>f\<in>#M. count_list (take (fr_count f) (fr_refs f)) a)"

definition frame_ok :: "op_locks \<Rightarrow> frame \<Rightarrow> bool" where
  "frame_ok L f \<longleftrightarrow> distinct (fr_keys f) \<and> fr_count f \<le> length (fr_refs f) \<and>
     list_all2 (\<lambda>k a. locks L k = Some a) (fr_keys f) (fr_refs f)"

definition record_ok :: "op_locks \<Rightarrow> frame multiset \<Rightarrow> nat \<Rightarrow> bool" where
  "record_ok L M a \<longleftrightarrow> (\<exists>r. heap L a = Some r \<and> refs r = int (users a M) \<and> 0 < users a M \<and>
     holders a M = (if locked r then 1 else 0))"

definition table_inv :: "op_locks \<Rightarrow> frame multiset \<Rightarrow> bool" where
  "table_inv L M \<longleftrightarrow>
     (\<forall>f \<in># M. frame_ok L f) \<and>
     (\<forall>k k' a. locks L k = Some a \<longrightarrow> locks L k' = Some a \<longrightarrow> k = k') \<and>
     (\<forall>k a. locks L k = Some a \<longrightarrow> record_ok L M a) \<and>
     (\<forall>a. fresh L \<le> a \<longrightarrow> heap L a = None)"

definition frames_of :: "lock_thread list \<Rightarrow> frame multiset" where
  "frames_of ts = (\<Sum>t\<leftarrow>ts. mset (th_stack t))"

lemma users_simps [simp]:
  "users a {#} = 0" "users a (add_mset f M) = count_list (fr_refs f) a + users a M"
  by (simp_all add: users_def)

lemma holders_simps [simp]:
  "holders a {#} = 0"
  "holders a (add_mset f M) = count_list (take (fr_count f) (fr_refs f)) a + holders a M"
  by (simp_all add: holders_def)

lemma holders_le_users: "holders a M \<le> users a M"
proof (induction M)
  case (add f M)
  have "count_list (take n xs) a \<le> count_list xs a" for n and xs :: "nat list"
    by (metis append_take_drop_id count_list_append le_add1)
  with add show ?case by (simp add: add_mono)
qed simp

lemma table_invD:
  assumes "table_inv L M"
  shows "f \<in># M \<Longrightarrow> frame_ok L f"
    and "locks L k = Some a \<Longrightarrow> locks L k' = Some a \<Longrightarrow> k = k'"
    and "locks L k = Some a \<Longrightarrow> record_ok L M a"
    and "fresh L \<le> a \<Longrightarrow> heap L a = None"
  using assms unfolding table_inv_def
  by (iprover elim: conjE bspec allE impE)+

lemma frame_ok_key:
  "frame_ok L f \<Longrightarrow> a \<in> set (fr_refs f) \<Longrightarrow> \<exists>k \<in> set (fr_keys f). locks L k = Some a"
  by (clarsimp simp: frame_ok_def list_all2_conv_all_nth in_set_conv_nth) (metis nth_mem)

lemma users_absent:
  assumes "table_inv L M" "heap L a = None"
  shows "users a M = 0"
proof -
  have "a \<notin> set (fr_refs f)" if f: "f \<in># M" for f
  proof
    assume "a \<in> set (fr_refs f)"
    then obtain k where "locks L k = Some a"
      using frame_ok_key table_invD(1) [OF assms(1) f] by blast
    then have "record_ok L M a" by (rule table_invD(3) [OF assms(1)])
    with assms(2) show False by (simp add: record_ok_def)
  qed
  then show ?thesis by (simp add: users_def count_notin)
qed

lemma frame_ok_refs_inj:
  assumes "table_inv L M" "frame_ok L f" "k \<notin> set (fr_keys f)" "locks L k = Some a"
  shows "a \<notin> set (fr_refs f)"
  using frame_ok_key [OF assms(2), of a] table_invD(2) [OF assms(1) assms(4)] assms(3) by blast

lemma normalize_lock_keys_distinct: "distinct (normalize_lock_keys ks)"
  by (simp add: normalize_lock_keys_def)

lemma normalize_lock_keys_sorted: "sorted (normalize_lock_keys ks)"
  by (simp add: normalize_lock_keys_def)

lemma normalize_lock_keys_set: "set (normalize_lock_keys ks) = set ks - {[]}"
  by (auto simp: normalize_lock_keys_def)

section \<open>Registering and unregistering keep the invariant\<close>

lemma register_key_inv:
  assumes inv: "table_inv L (add_mset f M)" and new: "k \<notin> set (fr_keys f)"
    and reg: "register_key k L = (a, L')" and cnt: "fr_count f = 0"
  shows "table_inv L' (add_mset (f\<lparr>fr_keys := fr_keys f @ [k], fr_refs := fr_refs f @ [a]\<rparr>) M)"
proof (cases "locks L k")
  case None
  let ?a = "fresh L"
  have absent: "heap L ?a = None" by (rule table_invD(4) [OF inv]) simp
  have zero: "users ?a (add_mset f M) = 0" by (rule users_absent [OF inv absent])
  then have zero': "holders ?a (add_mset f M) = 0"
    using holders_le_users [of ?a "add_mset f M"] by simp
  have old: "a' \<noteq> ?a" if "locks L k' = Some a'" for k' a'
    using table_invD(3) [OF inv that] absent by (auto simp: record_ok_def)
  have L': "a = ?a" "locks L' = (locks L)(k \<mapsto> ?a)" "fresh L' = Suc ?a"
    "heap L' = (heap L)(?a \<mapsto> \<lparr>locked = False, refs = 1\<rparr>)"
    using reg None by (auto simp: register_key_def Let_def)
  have ok: "frame_ok L' g" if "frame_ok L g" for g
    using that None unfolding frame_ok_def L' by (auto elim!: list_all2_mono)
  show ?thesis
    unfolding table_inv_def
  proof (intro conjI allI ballI impI)
    fix g assume "g \<in># add_mset (f\<lparr>fr_keys := fr_keys f @ [k], fr_refs := fr_refs f @ [a]\<rparr>) M"
    then show "frame_ok L' g"
      using ok table_invD(1) [OF inv] new cnt L'
      by (auto simp: frame_ok_def list_all2_appendI)
  next
    fix k1 k2 a' assume "locks L' k1 = Some a'" "locks L' k2 = Some a'"
    then show "k1 = k2"
      using old table_invD(2) [OF inv] by (auto simp: L' split: if_splits)
  next
    fix k' a' assume "locks L' k' = Some a'"
    then show "record_ok L' (add_mset (f\<lparr>fr_keys := fr_keys f @ [k], fr_refs := fr_refs f @ [a]\<rparr>) M) a'"
      using zero zero' old table_invD(3) [OF inv, of k' a'] cnt
      by (auto simp: L' record_ok_def split: if_splits)
  next
    fix a' assume "fresh L' \<le> a'"
    then show "heap L' a' = None" using table_invD(4) [OF inv, of a'] by (simp add: L')
  qed
next
  case (Some a0)
  have a: "a = a0" "locks L' = locks L" "fresh L' = fresh L"
    "heap L' = (heap L)(a0 := map_option (\<lambda>r. r\<lparr>refs := refs r + 1\<rparr>) (heap L a0))"
    using reg Some by (auto simp: register_key_def Let_def)
  have ok: "frame_ok L' g \<longleftrightarrow> frame_ok L g" for g by (simp add: frame_ok_def a)
  show ?thesis
    unfolding table_inv_def
  proof (intro conjI allI ballI impI)
    fix g assume "g \<in># add_mset (f\<lparr>fr_keys := fr_keys f @ [k], fr_refs := fr_refs f @ [a]\<rparr>) M"
    then show "frame_ok L' g"
      using table_invD(1) [OF inv] new cnt a Some
      by (auto simp: frame_ok_def list_all2_appendI)
  next
    fix k1 k2 a' assume "locks L' k1 = Some a'" "locks L' k2 = Some a'"
    then show "k1 = k2" using table_invD(2) [OF inv] by (simp add: a)
  next
    fix k' a' assume "locks L' k' = Some a'"
    then show "record_ok L' (add_mset (f\<lparr>fr_keys := fr_keys f @ [k], fr_refs := fr_refs f @ [a]\<rparr>) M) a'"
      using table_invD(3) [OF inv, of k' a'] cnt by (auto simp: a record_ok_def)
  next
    fix a' assume "fresh L' \<le> a'"
    then show "heap L' a' = None" using table_invD(4) [OF inv, of a'] by (auto simp: a)
  qed
qed

lemma register_keys_inv:
  assumes "table_inv L (add_mset f M)" "set ks \<inter> set (fr_keys f) = {}" "distinct ks"
    and "register_keys ks L = (as, L')" "fr_count f = 0"
  shows "table_inv L' (add_mset (f\<lparr>fr_keys := fr_keys f @ ks, fr_refs := fr_refs f @ as\<rparr>) M)"
  using assms
proof (induction ks arbitrary: L f as)
  case (Cons k ks)
  obtain a L1 where reg: "register_key k L = (a, L1)" by fastforce
  obtain as' where regs: "register_keys ks L1 = (as', L')" and as: "as = a # as'"
    using Cons.prems(4) reg by (auto split: prod.splits)
  let ?f = "f\<lparr>fr_keys := fr_keys f @ [k], fr_refs := fr_refs f @ [a]\<rparr>"
  have "table_inv L1 (add_mset ?f M)"
    by (rule register_key_inv) (use Cons.prems reg in auto)
  from Cons.IH [OF this _ _ regs] show ?case
    using Cons.prems as by auto
qed simp

lemma frame_ok_ref:
  "frame_ok L f \<Longrightarrow> k \<in> set (fr_keys f) \<Longrightarrow> locks L k = Some a \<Longrightarrow> a \<in> set (fr_refs f)"
  by (clarsimp simp: frame_ok_def list_all2_conv_all_nth in_set_conv_nth) auto

lemma users_zero: "users a M = 0 \<Longrightarrow> g \<in># M \<Longrightarrow> a \<notin> set (fr_refs g)"
  by (auto simp: users_def count_list_0_iff)

lemma unregister_key_inv:
  assumes inv: "table_inv L (add_mset f M)" and f: "fr_keys f = k # ks" "fr_refs f = a # as"
    and cnt: "fr_count f = 0"
  shows "table_inv (unregister_key k a L) (add_mset (f\<lparr>fr_keys := ks, fr_refs := as\<rparr>) M)"
proof -
  let ?f = "f\<lparr>fr_keys := ks, fr_refs := as\<rparr>" and ?L = "unregister_key k a L"
  have okf: "frame_ok L f" by (rule table_invD(1) [OF inv]) simp
  then have ka: "locks L k = Some a" and okf': "frame_ok L ?f" and kks: "k \<notin> set ks"
    using f cnt by (auto simp: frame_ok_def)
  obtain r where r: "heap L a = Some r" "refs r = int (users a (add_mset f M))"
      "holders a (add_mset f M) = (if locked r then 1 else 0)"
    using table_invD(3) [OF inv ka] by (auto simp: record_ok_def)
  have users: "users a (add_mset f M) = Suc (users a (add_mset ?f M))"
    "a' \<noteq> a \<Longrightarrow> users a' (add_mset f M) = users a' (add_mset ?f M)"
    "holders b (add_mset f M) = holders b (add_mset ?f M)" for a' b
    using f cnt by simp_all
  define gone where "gone \<longleftrightarrow> users a (add_mset ?f M) = 0"
  have L: "locks ?L = (if gone then (locks L)(k := None) else locks L)" "fresh ?L = fresh L"
    "heap ?L = (heap L)(a \<mapsto> r\<lparr>refs := int (users a (add_mset ?f M))\<rparr>)"
    using r users by (auto simp: unregister_key_def Let_def gone_def)
  show ?thesis
    unfolding table_inv_def
  proof (intro conjI allI ballI impI)
    fix g assume g: "g \<in># add_mset ?f M"
    then have ok: "frame_ok L g" using okf' table_invD(1) [OF inv] by auto
    have "k \<notin> set (fr_keys g)" if gone
      using that users_zero [of a "add_mset ?f M" g] frame_ok_ref [OF ok _ ka] g
      unfolding gone_def by blast
    then show "frame_ok ?L g"
      using ok by (auto simp: frame_ok_def L list_all2_conv_all_nth)
  next
    fix k1 k2 a' assume "locks ?L k1 = Some a'" "locks ?L k2 = Some a'"
    then show "k1 = k2" using table_invD(2) [OF inv] by (auto simp: L split: if_splits)
  next
    fix k' a' assume k': "locks ?L k' = Some a'"
    then have look: "locks L k' = Some a'" by (auto simp: L split: if_splits)
    show "record_ok ?L (add_mset ?f M) a'"
    proof (cases "a' = a")
      case True
      then have "k' = k" using table_invD(2) [OF inv look] ka by blast
      then have "\<not> gone" using k' by (auto simp: L)
      then show ?thesis using True r users unfolding record_ok_def gone_def by (simp add: L)
    next
      case False
      then show ?thesis
        using table_invD(3) [OF inv look] users(2) [OF False] users(3) [of a']
        unfolding record_ok_def by (simp add: L)
    qed
  next
    fix a' assume "fresh ?L \<le> a'"
    then show "heap ?L a' = None" using table_invD(4) [OF inv, of a'] r by (auto simp: L)
  qed
qed

lemma unregister_keys_inv:
  assumes "table_inv L (add_mset f M)" "fr_keys f = ks" "fr_refs f = as" "fr_count f = 0"
  shows "table_inv (unregister_keys ks as L) M"
  using assms
proof (induction ks as L arbitrary: f rule: unregister_keys.induct)
  case (1 k ks a as L)
  show ?case
    using 1(1) [OF unregister_key_inv [OF 1(2,3,4,5)]] 1(5) by simp
next
  case (2 as L)
  have "frame_ok L f" by (rule table_invD(1) [OF 2(1)]) simp
  then have "as = []" using 2 by (auto simp: frame_ok_def)
  then show ?case using 2 by (simp add: table_inv_def record_ok_def)
next
  case (3 k ks L)
  have "frame_ok L f" by (rule table_invD(1) [OF 3(1)]) simp
  then show ?case using 3 by (auto simp: frame_ok_def)
qed

lemma set_locked_inv:
  assumes inv: "table_inv L (add_mset f M)" and cnt: "n < length (fr_refs f)" "fr_refs f ! n = a"
    and n: "fr_count f = (if b then n else Suc n)" and r: "heap L a = Some r" "locked r = (\<not> b)"
  shows "table_inv (set_locked a b L) (add_mset (f\<lparr>fr_count := (if b then Suc n else n)\<rparr>) M)"
proof -
  let ?f = "f\<lparr>fr_count := (if b then Suc n else n)\<rparr>" and ?L = "set_locked a b L"
  have L: "locks ?L = locks L" "fresh ?L = fresh L" "heap ?L = (heap L)(a \<mapsto> r\<lparr>locked := b\<rparr>)"
    using r by (auto simp: set_locked_def)
  have ok: "frame_ok L f" by (rule table_invD(1) [OF inv]) simp
  have prefix: "count_list (take (Suc n) (fr_refs f)) a' =
      count_list (take n (fr_refs f)) a' + (if a' = a then 1 else 0)" for a'
    using cnt by (auto simp: take_Suc_conv_app_nth)
  show ?thesis
    unfolding table_inv_def
  proof (intro conjI allI ballI impI)
    fix g assume "g \<in># add_mset ?f M"
    then show "frame_ok ?L g"
      using ok table_invD(1) [OF inv] cnt n by (auto simp: frame_ok_def L)
  next
    fix k1 k2 a' assume "locks ?L k1 = Some a'" "locks ?L k2 = Some a'"
    then show "k1 = k2" using table_invD(2) [OF inv] by (simp add: L)
  next
    fix k' a' assume "locks ?L k' = Some a'"
    then show "record_ok ?L (add_mset ?f M) a'"
      using table_invD(3) [OF inv, of k' a'] prefix [of a'] n r
      by (auto simp: record_ok_def L split: if_splits)
  next
    fix a' assume "fresh ?L \<le> a'"
    then show "heap ?L a' = None" using table_invD(4) [OF inv, of a'] r by (auto simp: L)
  qed
qed

section \<open>Every step keeps the invariant\<close>

lemma table_inv_mode [simp]:
  "table_inv L (add_mset (f\<lparr>fr_mode := m\<rparr>) M) = table_inv L (add_mset f M)"
  by (simp add: table_inv_def record_ok_def frame_ok_def)

lemma table_inv_empty_frame:
  "table_inv L M \<Longrightarrow> fr_keys f = [] \<Longrightarrow> fr_refs f = [] \<Longrightarrow> fr_count f = 0 \<Longrightarrow>
   table_inv L (add_mset f M)"
  by (simp add: table_inv_def record_ok_def frame_ok_def)

lemma push_frame_inv:
  assumes "table_inv L M" "register_keys (normalize_lock_keys ks) L = (as, L')"
  shows "table_inv L' (add_mset \<lparr>fr_mode = m, fr_keys = normalize_lock_keys ks, fr_refs = as, fr_count = 0\<rparr> M)"
  using register_keys_inv
    [OF table_inv_empty_frame [OF assms(1), of "\<lparr>fr_mode = m, fr_keys = [], fr_refs = [], fr_count = 0\<rparr>"]
      _ normalize_lock_keys_distinct assms(2)]
  by simp

lemma prog_step_inv:
  assumes "table_inv L (mset st + R)" "prog_step L p st = Next L' t'"
  shows "table_inv L' (mset (th_stack t') + R)"
  using assms
  by (induction L p st rule: prog_step.induct)
    (auto simp: Let_def push_frame_inv split: prod.splits)

lemma lock_step_inv:
  assumes "table_inv L (add_mset f M)" "fr_count f < length (fr_refs f)"
    and "lock_step L p f st = Next L' t'"
  shows "\<exists>f'. th_stack t' = f' # st \<and> table_inv L' (add_mset f' M)"
  using assms set_locked_inv [OF assms(1,2) refl, of True]
  by (auto simp: lock_step_def Let_def split: option.splits if_splits)

lemma try_step_inv:
  assumes "table_inv L (add_mset f M)" "try_step L p body f st = Next L' t'"
  shows "\<exists>f'. th_stack t' = f' # st \<and> table_inv L' (add_mset f' M)"
proof -
  have "frame_ok L f" by (rule table_invD(1) [OF assms(1)]) simp
  then have "fr_count f \<noteq> length (fr_refs f) \<Longrightarrow> fr_count f < length (fr_refs f)"
    by (simp add: frame_ok_def)
  then show ?thesis
    using assms set_locked_inv [OF assms(1) _ refl, of "fr_count f" True]
    by (auto simp: try_step_def Let_def split: option.splits if_splits)
qed

lemma release_step_inv:
  assumes "table_inv L (add_mset f (mset st + R))" "release_step L p f st = Next L' t'"
  shows "table_inv L' (mset (th_stack t') + R)"
proof -
  have "frame_ok L f" by (rule table_invD(1) [OF assms(1)]) simp
  then have "fr_count f \<le> length (fr_refs f)" by (simp add: frame_ok_def)
  then show ?thesis
    using assms set_locked_inv [OF assms(1) _ refl, of "fr_count f - 1" False]
      unregister_keys_inv [OF assms(1) refl refl]
    by (auto simp: release_step_def Let_def split: option.splits if_splits nat.splits)
qed

lemma thread_step_inv:
  assumes "table_inv L (mset (th_stack t) + R)" "thread_step L t = Next L' t'"
  shows "table_inv L' (mset (th_stack t') + R)"
proof (cases "th_stack t")
  case Nil
  then show ?thesis
    using assms prog_step_inv [of L "[]" R] by (simp add: thread_step_def)
next
  case (Cons f st)
  then have inv: "table_inv L (add_mset f (mset st + R))" using assms(1) by simp
  then show ?thesis
    using assms(2) Cons prog_step_inv [of L "f # st" R] lock_step_inv [OF inv] try_step_inv [OF inv]
      release_step_inv [OF inv]
    by (fastforce simp: thread_step_def split: frame_mode.splits if_splits)
qed

lemma frames_of_split:
  assumes "i < length ts"
  shows "frames_of ts = mset (th_stack (ts ! i)) + frames_of (take i ts @ drop (Suc i) ts)"
    and "frames_of (ts[i := t']) = mset (th_stack t') + frames_of (take i ts @ drop (Suc i) ts)"
  using assms
  by (simp_all add: frames_of_def upd_conv_take_nth_drop id_take_nth_drop [OF assms, symmetric]
      del: append_take_drop_id)
    (metis (no_types, lifting) add.left_commute id_take_nth_drop list.simps(9) map_append
      sum_list.Cons sum_list_append)

lemma sys_step_inv:
  "sys_step s s' \<Longrightarrow> table_inv (fst s) (frames_of (snd s)) \<Longrightarrow> table_inv (fst s') (frames_of (snd s'))"
  by (erule sys_stepE) (auto simp: frames_of_split intro: thread_step_inv)

lemma reachable_inv: "reachable progs s \<Longrightarrow> table_inv (fst s) (frames_of (snd s))"
proof (induction rule: reachable.induct)
  case init
  have "frames_of (map (\<lambda>p. \<lparr>th_prog = p, th_stack = []\<rparr>) progs) = {#}"
    by (induction progs) (auto simp: frames_of_def)
  then show ?case
    by (simp add: initial_system_def new_operation_locks_def table_inv_def)
qed (rule sys_step_inv)

section \<open>Consequences of the invariant\<close>

lemma frame_member:
  assumes "i < length ts" "f \<in> set (th_stack (ts ! i))"
  shows "f \<in># frames_of ts"
  using assms by (simp add: frames_of_split(1) [OF assms(1)])

lemma ref_in_heap:
  assumes inv: "table_inv L M" and f: "f \<in># M" and n: "n < length (fr_refs f)"
  shows "\<exists>r. heap L (fr_refs f ! n) = Some r \<and>
             locked r = (holders (fr_refs f ! n) M \<noteq> 0)"
proof -
  have "locks L (fr_keys f ! n) = Some (fr_refs f ! n)"
    using table_invD(1) [OF inv f] n by (auto simp: frame_ok_def list_all2_conv_all_nth)
  from table_invD(3) [OF inv this] show ?thesis by (auto simp: record_ok_def)
qed

lemma prog_step_no_panic: "prog_step L p st \<noteq> Panic"
  by (induction L p st rule: prog_step.induct) (auto simp: Let_def split: prod.splits)

lemma release_step_no_panic:
  assumes inv: "table_inv L M" and f: "f \<in># M"
  shows "release_step L p f st \<noteq> Panic"
proof (cases "fr_count f")
  case 0
  then show ?thesis by (simp add: release_step_def)
next
  case (Suc n)
  then have n: "n < length (fr_refs f)"
    using table_invD(1) [OF inv f] by (simp add: frame_ok_def)
  then have "fr_refs f ! n \<in> set (take (fr_count f) (fr_refs f))"
    using Suc by (simp add: take_Suc_conv_app_nth)
  then have "holders (fr_refs f ! n) M \<noteq> 0"
    using f by (auto simp: holders_def count_list_0_iff)
  with ref_in_heap [OF inv f n] Suc show ?thesis
    by (auto simp: release_step_def Let_def)
qed

lemma thread_step_no_panic:
  assumes inv: "table_inv L (mset (th_stack t) + R)"
  shows "thread_step L t \<noteq> Panic"
proof (cases "th_stack t")
  case Nil
  then show ?thesis using prog_step_no_panic by (simp add: thread_step_def)
next
  case (Cons f st)
  then have f: "f \<in># mset (th_stack t) + R" by simp
  have cnt: "fr_count f < length (fr_refs f) \<or> fr_count f = length (fr_refs f)"
    using table_invD(1) [OF inv f] by (auto simp: frame_ok_def)
  show ?thesis
    using Cons cnt prog_step_no_panic ref_in_heap [OF inv f, of "fr_count f"]
      release_step_no_panic [OF inv f]
    by (cases "fr_mode f")
      (auto simp: thread_step_def lock_step_def try_step_def Let_def split: option.splits)
qed

lemma frame_held_count:
  assumes "frame_ok L f" "locks L k = Some a"
  shows "count_list (frame_held f) k \<le> count_list (take (fr_count f) (fr_refs f)) a"
proof -
  have "list_all2 (\<lambda>k a. locks L k = Some a) (frame_held f) (take (fr_count f) (fr_refs f))"
    using assms(1) by (simp add: frame_ok_def frame_held_def list_all2_takeI)
  then show ?thesis
    using assms(2) by (induction rule: list_all2_induct) auto
qed

lemma held_count:
  assumes "\<forall>f \<in># M. frame_ok L f" "locks L k = Some a"
  shows "(\<Sum>f\<in>#M. count_list (frame_held f) k) \<le> holders a M"
  using assms by (induction M) (auto simp: add_mono frame_held_count)

lemma count_list_concat: "count_list (concat xss) x = (\<Sum>xs\<leftarrow>xss. count_list xs x)"
  by (induction xss) simp_all

lemma held_keys_count:
  "count_list (concat (map held_keys ts)) k = (\<Sum>f\<in>#frames_of ts. count_list (frame_held f) k)"
proof (induction ts)
  case (Cons t ts)
  have "count_list (concat (map frame_held st)) k = (\<Sum>f\<in>#mset st. count_list (frame_held f) k)" for st
    by (induction st) simp_all
  with Cons show ?case by (simp add: frames_of_def held_keys_def)
qed (simp add: frames_of_def)

lemma distinct_by_count: "(\<And>x. count_list xs x \<le> 1) \<Longrightarrow> distinct xs"
proof (induction xs)
  case (Cons y ys)
  have "count_list ys y = 0" using Cons.prems [of y] by simp
  moreover have "count_list ys x \<le> 1" for x using Cons.prems [of x] by (simp split: if_splits)
  ultimately show ?case using Cons.IH by (simp add: count_list_0_iff)
qed simp

lemma held_keys_distinct:
  assumes inv: "table_inv L (frames_of ts)"
  shows "distinct (concat (map held_keys ts))"
proof (rule distinct_by_count)
  fix k
  have ok: "\<forall>f \<in># frames_of ts. frame_ok L f" using table_invD(1) [OF inv] by blast
  show "count_list (concat (map held_keys ts)) k \<le> 1"
  proof (cases "locks L k")
    case None
    have "k \<notin> set (frame_held f)" if "f \<in># frames_of ts" for f
    proof
      assume "k \<in> set (frame_held f)"
      then have "k \<in> set (fr_keys f)" unfolding frame_held_def by (rule in_set_takeD)
      then show False
        using ok that None
        by (fastforce simp: frame_ok_def list_all2_conv_all_nth in_set_conv_nth)
    qed
    then have "(\<Sum>f\<in>#frames_of ts. count_list (frame_held f) k) = 0"
      by (simp add: count_list_0_iff)
    then have "count_list (concat (map held_keys ts)) k = 0" unfolding held_keys_count .
    then show ?thesis by simp
  next
    case (Some a)
    have "holders a (frames_of ts) \<le> 1"
      using table_invD(3) [OF inv Some] by (auto simp: record_ok_def)
    with held_count [OF ok Some] show ?thesis by (simp add: held_keys_count)
  qed
qed

lemma no_frames_empty_table:
  assumes "table_inv L (frames_of ts)" "\<forall>t \<in> set ts. th_stack t = []"
  shows "locks L = Map.empty"
proof -
  have "frames_of ts = {#}" using assms(2) by (induction ts) (auto simp: frames_of_def)
  then have "locks L k = None" for k
    using table_invD(3) [OF assms(1)] by (cases "locks L k") (auto simp: record_ok_def)
  then show ?thesis by blast
qed

section \<open>Lock ordering\<close>

definition below_all :: "string list list \<Rightarrow> string list \<Rightarrow> bool" where
  "below_all H ks \<longleftrightarrow> (\<forall>k \<in> set ks. \<forall>h \<in> set (concat H). h < k)"

definition frame_complete :: "frame \<Rightarrow> bool" where
  "frame_complete f \<longleftrightarrow> fr_mode f = Acquiring \<and> fr_count f = length (fr_refs f)"

definition frame_shape :: "frame \<Rightarrow> bool" where
  "frame_shape f \<longleftrightarrow> length (fr_keys f) = length (fr_refs f) \<and> sorted (fr_keys f) \<and>
     distinct (fr_keys f) \<and> fr_count f \<le> length (fr_refs f)"

fun stack_ordered :: "lock_action list \<Rightarrow> frame list \<Rightarrow> bool" where
  "stack_ordered p [] = ordered_prog [] p"
| "stack_ordered p (f # st) =
     (list_all frame_complete st \<and>
      (case fr_mode f of
         Acquiring \<Rightarrow> ordered_prog (fr_keys f # map fr_keys st) p \<and>
                      (fr_count f < length (fr_refs f) \<longrightarrow> below_all (map fr_keys st) (fr_keys f))
       | Trying body \<Rightarrow> ordered_prog (map fr_keys st) p \<and>
                        ordered_prog (fr_keys f # map fr_keys st) (body @ Release # p)
       | Releasing \<Rightarrow> ordered_prog (map fr_keys st) p))"

definition thread_ordered :: "lock_thread \<Rightarrow> bool" where
  "thread_ordered t \<longleftrightarrow> stack_ordered (th_prog t) (th_stack t) \<and> list_all frame_shape (th_stack t)"

lemma register_keys_length: "length (fst (register_keys ks L)) = length ks"
  by (induction ks L rule: register_keys.induct) (auto split: prod.splits)

lemma pushed_shape:
  "register_keys (normalize_lock_keys ks) L = (as, L') \<Longrightarrow>
   frame_shape \<lparr>fr_mode = m, fr_keys = normalize_lock_keys ks, fr_refs = as, fr_count = 0\<rparr>"
  using register_keys_length [of "normalize_lock_keys ks" L]
  by (simp add: frame_shape_def normalize_lock_keys_sorted normalize_lock_keys_distinct)

lemma frame_shape_mode [simp]: "frame_shape (f\<lparr>fr_mode := m\<rparr>) = frame_shape f"
  by (simp add: frame_shape_def)

lemma prog_step_ordered:
  assumes "prog_step L p st = Next L' t'" "ordered_prog (map fr_keys st) p"
    and "list_all frame_complete st" "list_all frame_shape st"
  shows "thread_ordered t'"
  using assms
proof (induction L p st rule: prog_step.induct)
  case (2 L ks p st)
  then show ?case
    by (auto simp: Let_def thread_ordered_def below_all_def pushed_shape split: prod.splits)
next
  case (3 L k body p st)
  then show ?case
    by (auto simp: Let_def thread_ordered_def pushed_shape split: prod.splits)
next
  case (5 L p f st)
  then show ?case by (auto simp: thread_ordered_def)
qed simp_all

lemma release_step_ordered:
  assumes "release_step L p f st = Next L' t'" "fr_mode f = Releasing"
    and "thread_ordered \<lparr>th_prog = p, th_stack = f # st\<rparr>"
  shows "thread_ordered t'"
proof (cases "fr_count f")
  case 0
  then have t': "t' = \<lparr>th_prog = p, th_stack = st\<rparr>" using assms(1) by (simp add: release_step_def)
  show ?thesis
    using assms(2,3) unfolding t'
    by (cases st) (auto simp: thread_ordered_def frame_complete_def)
next
  case (Suc n)
  then have "t' = \<lparr>th_prog = p, th_stack = f\<lparr>fr_count := n\<rparr> # st\<rparr>"
    using assms(1) by (auto simp: release_step_def Let_def split: option.splits if_splits)
  then show ?thesis
    using assms(2,3) Suc by (auto simp: thread_ordered_def frame_shape_def)
qed

lemma thread_step_ordered:
  assumes step: "thread_step L t = Next L' t'" and ord: "thread_ordered t"
  shows "thread_ordered t'"
proof (cases "th_stack t")
  case Nil
  then show ?thesis
    using step ord prog_step_ordered [of L "th_prog t" "[]"] by (simp add: thread_step_def thread_ordered_def)
next
  case (Cons f st)
  have t: "\<lparr>th_prog = th_prog t, th_stack = f # st\<rparr> = t" using Cons by simp
  have ord': "list_all frame_complete st" "frame_shape f" "list_all frame_shape st"
    using ord Cons by (simp_all add: thread_ordered_def)
  show ?thesis
  proof (cases "fr_mode f")
    case Acquiring
    show ?thesis
    proof (cases "fr_count f < length (fr_refs f)")
      case True
      then have "t' = \<lparr>th_prog = th_prog t, th_stack = f\<lparr>fr_count := Suc (fr_count f)\<rparr> # st\<rparr>"
        using step Cons Acquiring
        by (auto simp: thread_step_def lock_step_def Let_def split: option.splits if_splits)
      then show ?thesis
        using ord Cons Acquiring True by (auto simp: thread_ordered_def frame_shape_def)
    next
      case False
      then have "prog_step L (th_prog t) (f # st) = Next L' t'" "frame_complete f"
        using step Cons Acquiring ord' by (auto simp: thread_step_def frame_complete_def frame_shape_def)
      from prog_step_ordered [OF this(1)] this(2) show ?thesis
        using ord ord' Cons Acquiring by (simp add: thread_ordered_def)
    qed
  next
    case (Trying body)
    then have "try_step L (th_prog t) body f st = Next L' t'"
      using step Cons by (simp add: thread_step_def)
    then show ?thesis
      using ord Cons Trying
      by (auto simp: try_step_def thread_ordered_def frame_shape_def Let_def
          split: option.splits if_splits)
  next
    case Releasing
    then show ?thesis
      using step Cons release_step_ordered [of L "th_prog t" f st L' t'] ord t
      by (simp add: thread_step_def)
  qed
qed

lemma reachable_ordered:
  assumes "reachable progs s" "\<forall>p \<in> set progs. ordered_prog [] p"
  shows "\<forall>t \<in> set (snd s). thread_ordered t"
  using assms
proof (induction rule: reachable.induct)
  case init
  then show ?case by (auto simp: initial_system_def thread_ordered_def)
next
  case (more s s')
  from more.hyps(2) more.IH [OF more.prems] show ?case
    by (cases rule: sys_step.cases)
      (auto dest!: set_update_subset_insert [THEN subsetD] intro: thread_step_ordered nth_mem)
qed

text \<open>The key a blocked thread waits for lies above every key it has locked.\<close>

lemma prog_step_not_blocked: "prog_step L p st \<noteq> Blocked"
  by (cases "(L, p, st)" rule: prog_step.cases) (auto simp: Let_def split: prod.splits)

lemma blocked_key:
  assumes blocked: "thread_step L t = Blocked" and ord: "thread_ordered t"
    and inv: "table_inv L (mset (th_stack t) + R)"
  shows "\<exists>k a. locks L k = Some a \<and> holders a (mset (th_stack t) + R) \<noteq> 0 \<and>
           (\<forall>h \<in> set (held_keys t). h < k)"
proof (cases "th_stack t")
  case Nil
  then show ?thesis using blocked prog_step_not_blocked by (simp add: thread_step_def)
next
  case (Cons f st)
  have mode: "fr_mode f = Acquiring" and n: "fr_count f < length (fr_refs f)"
    using blocked Cons prog_step_not_blocked
    by (auto simp: thread_step_def try_step_def release_step_def Let_def
        split: frame_mode.splits option.splits if_splits nat.splits)
  have f: "f \<in># mset (th_stack t) + R" using Cons by simp
  have shape: "frame_shape f" and below: "below_all (map fr_keys st) (fr_keys f)"
    using ord Cons mode n by (auto simp: thread_ordered_def)
  let ?k = "fr_keys f ! fr_count f" and ?a = "fr_refs f ! fr_count f"
  have k: "?k \<in> set (fr_keys f)" using shape n by (simp add: frame_shape_def)
  have "locks L ?k = Some ?a"
    using table_invD(1) [OF inv f] n by (auto simp: frame_ok_def list_all2_conv_all_nth)
  moreover have "holders ?a (mset (th_stack t) + R) \<noteq> 0"
    using ref_in_heap [OF inv f n] blocked Cons mode n
    by (auto simp: thread_step_def lock_step_def Let_def split: if_splits)
  moreover have "h < ?k" if "h \<in> set (held_keys t)" for h
  proof -
    have "sorted_wrt (<) (fr_keys f)"
      using shape by (simp add: frame_shape_def strict_sorted_iff)
    then have top: "h < ?k" if "h \<in> set (frame_held f)"
      using that n shape
      by (auto simp: frame_held_def frame_shape_def in_set_conv_nth sorted_wrt_iff_nth_less)
    have rest: "h < ?k" if "g \<in> set st" "h \<in> set (frame_held g)" for g
      using that below k in_set_takeD unfolding below_all_def frame_held_def by fastforce
    show ?thesis
      using that top rest Cons by (auto simp: held_keys_def)
  qed
  ultimately show ?thesis by blast
qed

lemma holder_thread:
  assumes inv: "table_inv L (frames_of ts)" and k: "locks L k = Some a"
    and held: "holders a (frames_of ts) \<noteq> 0"
  shows "\<exists>t \<in> set ts. k \<in> set (held_keys t)"
proof -
  obtain f where f: "f \<in># frames_of ts" "a \<in> set (take (fr_count f) (fr_refs f))"
    using held by (auto simp: holders_def count_list_0_iff)
  then obtain n where n: "n < fr_count f" "n < length (fr_refs f)" "fr_refs f ! n = a"
    by (auto simp: in_set_conv_nth)
  have ok: "frame_ok L f" by (rule table_invD(1) [OF inv f(1)])
  then have "locks L (fr_keys f ! n) = Some a" "n < length (fr_keys f)"
    using n by (auto simp: frame_ok_def list_all2_conv_all_nth)
  then have "fr_keys f ! n = k" "n < length (fr_keys f)" using table_invD(2) [OF inv _ k] by auto
  then have "k \<in> set (frame_held f)"
    using n(1) by (auto simp: frame_held_def in_set_conv_nth)
  moreover have "\<exists>t \<in> set ts. f \<in> set (th_stack t)"
    using f(1) by (induction ts) (auto simp: frames_of_def)
  ultimately show ?thesis by (auto simp: held_keys_def)
qed

section \<open>Progress\<close>

lemma no_deadlock:
  assumes inv: "table_inv L (frames_of ts)" and ord: "\<forall>t \<in> set ts. thread_ordered t"
  shows "\<not> deadlocked (L, ts)"
proof
  assume dead: "deadlocked (L, ts)"
  define W where "W = {k. \<exists>t \<in> set ts. \<exists>a. locks L k = Some a \<and>
    holders a (frames_of ts) \<noteq> 0 \<and> (\<forall>h \<in> set (held_keys t). h < k)}"
  have "W \<subseteq> set (concat (map held_keys ts))"
    using holder_thread [OF inv] by (fastforce simp: W_def)
  then have "finite W" by (rule finite_subset) simp
  have waits: "\<exists>k \<in> W. \<forall>h \<in> set (held_keys t). h < k" if "t \<in> set ts" "\<not> finished t" for t
  proof -
    obtain i where i: "i < length ts" "ts ! i = t" using \<open>t \<in> set ts\<close> by (metis in_set_conv_nth)
    have "thread_step L t = Blocked"
      using dead that by (auto simp: deadlocked_def list_all_iff is_Blocked_def)
    from blocked_key [OF this] ord that inv frames_of_split(1) [OF i(1)] i(2) show ?thesis
      by (fastforce simp: W_def)
  qed
  obtain t0 where "t0 \<in> set ts" "\<not> finished t0"
    using dead by (auto simp: deadlocked_def list_all_iff)
  then have "W \<noteq> {}" using waits by blast
  with \<open>finite W\<close> have "Max W \<in> W" by (rule Max_in)
  moreover have "\<exists>t \<in> set ts. k \<in> set (held_keys t)" if "k \<in> W" for k
    using that holder_thread [OF inv] by (auto simp: W_def)
  ultimately obtain t where t: "t \<in> set ts" "Max W \<in> set (held_keys t)" by blast
  then have "\<not> finished t" by (auto simp: finished_def held_keys_def)
  then obtain k where "k \<in> W" "Max W < k" using waits [OF t(1)] t(2) by blast
  then show False using Max_ge [OF \<open>finite W\<close>] by fastforce
qed

lemma stack_ordered_finished:
  assumes "thread_ordered t" "thread_step L t = Finished"
  shows "finished t"
proof -
  have np: "prog_step L p st = Finished \<Longrightarrow> ordered_prog (map fr_keys st) p \<Longrightarrow> p = [] \<and> st = []" for p st
    by (cases "(L, p, st)" rule: prog_step.cases) (auto simp: Let_def split: prod.splits)
  show ?thesis
  proof (cases "th_stack t")
    case Nil
    then show ?thesis
      using assms np [of "th_prog t" "[]"] by (simp add: thread_step_def thread_ordered_def finished_def)
  next
    case (Cons f st)
    have "fr_mode f = Acquiring" "prog_step L (th_prog t) (f # st) = Finished"
      using assms(2) Cons
      by (auto simp: thread_step_def lock_step_def try_step_def release_step_def Let_def
          split: frame_mode.splits option.splits if_splits nat.splits)
    then show ?thesis
      using np [of "th_prog t" "f # st"] assms(1) Cons by (simp add: thread_ordered_def)
  qed
qed

lemma progress:
  assumes inv: "table_inv L (frames_of ts)" and ord: "\<forall>t \<in> set ts. thread_ordered t"
    and "\<not> list_all finished ts"
  shows "\<exists>s'. sys_step (L, ts) s'"
proof (rule ccontr)
  assume stuck: "\<nexists>s'. sys_step (L, ts) s'"
  have "finished t \<or> is_Blocked (thread_step L t)" if t: "t \<in> set ts" for t
  proof -
    obtain i where i: "i < length ts" "ts ! i = t" using t by (metis in_set_conv_nth)
    have "thread_step L t \<noteq> Panic"
      by (rule thread_step_no_panic) (use inv frames_of_split(1) [OF i(1)] i(2) in simp)
    moreover have "thread_step L t \<noteq> Next L' t'" for L' t'
      using stuck sys_step.step [OF i(1), of L L' t'] i(2) by blast
    moreover have "thread_step L t = Finished \<Longrightarrow> finished t"
      using stack_ordered_finished ord t by blast
    ultimately show ?thesis by (cases "thread_step L t") auto
  qed
  then have "deadlocked (L, ts)"
    using assms(3) by (auto simp: deadlocked_def list_all_iff)
  with no_deadlock [OF inv ord] show False ..
qed

text \<open>Every step uses up part of the work the threads still have.\<close>

fun action_work :: "lock_action \<Rightarrow> nat" where
  "action_work (Acquire ks) = 2 * length (normalize_lock_keys ks) + 2"
| "action_work (TryAcquire k body) =
     2 * length (normalize_lock_keys [k]) + 4 + sum_list (map action_work body)"
| "action_work Release = 1"

definition prog_work :: "lock_action list \<Rightarrow> nat" where
  "prog_work p = sum_list (map action_work p)"

definition frame_work :: "frame \<Rightarrow> nat" where
  "frame_work f = (case fr_mode f of
     Acquiring \<Rightarrow> 2 * length (fr_refs f) - fr_count f + 1
   | Trying body \<Rightarrow> 2 * length (fr_refs f) - fr_count f + 3 + prog_work body
   | Releasing \<Rightarrow> fr_count f + 1)"

definition thread_work :: "lock_thread \<Rightarrow> nat" where
  "thread_work t = prog_work (th_prog t) + sum_list (map frame_work (th_stack t))"

lemma frame_work_simps [simp]:
  "fr_mode f = Acquiring \<Longrightarrow> frame_work f = 2 * length (fr_refs f) - fr_count f + 1"
  "fr_mode f = Trying body \<Longrightarrow> frame_work f = 2 * length (fr_refs f) - fr_count f + 3 + prog_work body"
  "fr_mode f = Releasing \<Longrightarrow> frame_work f = fr_count f + 1"
  by (simp_all add: frame_work_def)

lemma prog_work_simps [simp]:
  "prog_work [] = 0" "prog_work (a # p) = action_work a + prog_work p"
  "prog_work (p @ q) = prog_work p + prog_work q"
  by (simp_all add: prog_work_def)

lemma prog_step_work:
  assumes "prog_step L p st = Next L' t'" "\<forall>f \<in> set st. frame_complete f"
  shows "thread_work t' < prog_work p + sum_list (map frame_work st)"
  using assms
proof (induction L p st rule: prog_step.induct)
  case (2 L ks p st)
  then show ?case
    using register_keys_length [of "normalize_lock_keys ks" L]
    by (auto simp: Let_def thread_work_def split: prod.splits)
next
  case (3 L k body p st)
  then show ?case
    using register_keys_length [of "normalize_lock_keys [k]" L]
    by (auto simp: Let_def thread_work_def prog_work_def split: prod.splits)
next
  case (5 L p f st)
  then show ?case by (auto simp: thread_work_def frame_complete_def)
qed simp_all

lemma thread_step_work:
  assumes step: "thread_step L t = Next L' t'" and ord: "thread_ordered t"
  shows "thread_work t' < thread_work t"
proof (cases "th_stack t")
  case Nil
  then show ?thesis
    using step prog_step_work [of L "th_prog t" "[]"] by (simp add: thread_step_def thread_work_def)
next
  case (Cons f st)
  have shape: "fr_count f \<le> length (fr_refs f)" "\<forall>g \<in> set st. frame_complete g"
    using ord Cons by (auto simp: thread_ordered_def frame_shape_def list_all_iff)
  show ?thesis
  proof (cases "fr_mode f")
    case Acquiring
    then show ?thesis
      using step Cons shape prog_step_work [of L "th_prog t" "f # st" L' t']
      by (auto simp: thread_step_def thread_work_def frame_complete_def lock_step_def Let_def
          split: option.splits if_splits)
  next
    case (Trying body)
    then show ?thesis
      using step Cons shape
      by (auto simp: thread_step_def thread_work_def try_step_def Let_def
          split: option.splits if_splits)
  next
    case Releasing
    then show ?thesis
      using step Cons shape
      by (auto simp: thread_step_def thread_work_def release_step_def Let_def
          split: option.splits if_splits nat.splits)
  qed
qed

definition system_work :: "lock_thread list \<Rightarrow> nat" where
  "system_work ts = sum_list (map thread_work ts)"

lemma sum_list_update_less:
  fixes f :: "'a \<Rightarrow> nat"
  assumes "i < length xs" "f y < f (xs ! i)"
  shows "sum_list (map f (xs[i := y])) < sum_list (map f xs)"
  using assms by (induction xs arbitrary: i) (auto split: nat.splits)

lemma sys_step_work:
  assumes "sys_step s s'" "\<forall>t \<in> set (snd s). thread_ordered t"
  shows "system_work (snd s') < system_work (snd s)"
  using assms
  by (cases rule: sys_step.cases)
    (auto simp: system_work_def intro!: sum_list_update_less thread_step_work)

lemma runs_to_completion:
  assumes "reachable progs s" "\<forall>p \<in> set progs. ordered_prog [] p"
  shows "\<exists>s'. sys_step\<^sup>*\<^sup>* s s' \<and> reachable progs s' \<and> list_all finished (snd s')"
  using assms
proof (induction "system_work (snd s)" arbitrary: s rule: less_induct)
  case less
  show ?case
  proof (cases "list_all finished (snd s)")
    case False
    have ord: "\<forall>t \<in> set (snd s). thread_ordered t" by (rule reachable_ordered [OF less.prems])
    obtain s1 where s1: "sys_step s s1"
      using progress [of "fst s" "snd s"] reachable_inv [OF less.prems(1)] ord False by auto
    have "reachable progs s1" by (rule reachable.more [OF less.prems(1) s1])
    from less.hyps [OF sys_step_work [OF s1 ord] this less.prems(2)] s1 show ?thesis
      by (meson converse_rtranclp_into_rtranclp)
  qed (use less.prems in blast)
qed

section \<open>Clients that respect the order\<close>

text \<open>The contract between the lock table and its callers: operations whose lock
  programs are ordered.  Whatever operations run at the same time, they all
  finish, and the table is empty afterwards.\<close>

locale lock_client =
  fixes op_prog :: "'op \<Rightarrow> lock_action list"
  assumes op_ordered: "ordered_prog [] (op_prog op)"
begin

lemma operations_ordered: "\<forall>p \<in> set (map op_prog ops). ordered_prog [] p"
  by (simp add: op_ordered)

lemma operations_finish:
  assumes "reachable (map op_prog ops) s"
  shows "\<exists>s'. sys_step\<^sup>*\<^sup>* s s' \<and> list_all finished (snd s') \<and> locks (fst s') = Map.empty"
proof -
  obtain s' where s': "sys_step\<^sup>*\<^sup>* s s'" "reachable (map op_prog ops) s'" "list_all finished (snd s')"
    using runs_to_completion [OF assms operations_ordered] by blast
  have "locks (fst s') = Map.empty"
    by (rule no_frames_empty_table [OF reachable_inv [OF s'(2)]])
      (use s'(3) in \<open>auto simp: list_all_iff finished_def\<close>)
  with s' show ?thesis by blast
qed

lemma operations_no_deadlock: "reachable (map op_prog ops) s \<Longrightarrow> \<not> deadlocked s"
  using no_deadlock [of "fst s" "snd s"] reachable_inv reachable_ordered [OF _ operations_ordered]
  by (metis prod.collapse)

end

lemma normalize_single: "normalize_lock_keys [k] = (if k = [] then [] else [k])"
  by (simp add: normalize_lock_keys_def)

lemma node_key_below_volume_key:
  "controller_node_lock_key n < controller_volume_lock_key v"
  by (simp add: controller_node_lock_key_def controller_volume_lock_key_def less_list_code)

lemma controller_prog_ordered: "ordered_prog [] (controller_lock_prog op)"
  by (cases op)
    (auto simp: hotplug_lock_prog_def expand_lock_prog_def normalize_single
      node_key_below_volume_key split: if_splits)

interpretation ctl: lock_client controller_lock_prog
  by unfold_locales (rule controller_prog_ordered)

section \<open>Schedules\<close>

text \<open>The system run by an explicit schedule, for concrete executions.\<close>

fun run_schedule :: "nat list \<Rightarrow> lock_system \<Rightarrow> lock_system option" where
  "run_schedule [] s = Some s"
| "run_schedule (i # is) (L, ts) =
     (if i < length ts then
        (case thread_step L (ts ! i) of
           Next L' t' \<Rightarrow> run_schedule is (L', ts[i := t'])
         | _ \<Rightarrow> None)
      else None)"

lemma run_schedule_reachable:
  "reachable progs s \<Longrightarrow> run_schedule is s = Some s' \<Longrightarrow> reachable progs s'"
proof (induction "is" s rule: run_schedule.induct)
  case (2 i "is" L ts)
  then show ?case
    by (auto split: if_splits step_result.splits intro: reachable.more sys_step.step)
qed simp

section \<open>Properties\<close>

text \<open>C1. Mutual exclusion: in every reachable state of any set of threads that
  use the table in any way, no key is locked twice, neither by two threads nor
  twice by one thread.\<close>

theorem lock_mutual_exclusion:
  assumes "reachable progs s"
  shows "distinct (concat (map held_keys (snd s)))"
  by (rule held_keys_distinct [OF reachable_inv [OF assms]])

definition contention_progs :: "lock_action list list" where
  "contention_progs = [hotplug_lock_prog ''a'' ''1'', hotplug_lock_prog ''b'' ''1'']"

definition contention_state :: lock_system where
  "contention_state = the (run_schedule [0, 0, 1, 1, 0, 0, 1] (initial_system contention_progs))"

lemma contention_reachable: "reachable contention_progs contention_state"
proof -
  have "\<not> Option.is_none (run_schedule [0, 0, 1, 1, 0, 0, 1] (initial_system contention_progs))"
    by code_simp
  then have "run_schedule [0, 0, 1, 1, 0, 0, 1] (initial_system contention_progs) = Some contention_state"
    by (simp add: contention_state_def Option.is_none_def)
  then show ?thesis by (rule run_schedule_reachable [OF reachable.init])
qed

lemma contention_held:
  "map held_keys (snd contention_state) = [[''volume:1'', ''node:a''], [''node:b'']]"
  by code_simp

theorem lock_mutual_exclusion_witness:
  "distinct [''volume:1'', ''node:a'', ''node:b'']"
  using lock_mutual_exclusion [OF contention_reachable] unfolding contention_held
  by simp

text \<open>C17. No reachable state lets a thread unlock a mutex that is not locked or use
  a lock record that has been dropped, for any programs; and the table holds exactly
  the records in use: a record's user count is the number of acquisitions
  registered on it, at least one, and its mutex is locked exactly when one
  acquisition holds it.\<close>

theorem lock_table_exact:
  assumes "reachable progs (L, ts)"
  shows "(\<forall>t \<in> set ts. thread_step L t \<noteq> Panic) \<and>
    (\<forall>k a. locks L k = Some a \<longrightarrow>
      (\<exists>r. heap L a = Some r \<and> refs r = int (users a (frames_of ts)) \<and> 1 \<le> refs r \<and>
           holders a (frames_of ts) = (if locked r then 1 else 0)))"
proof -
  have inv: "table_inv L (frames_of ts)" using reachable_inv [OF assms] by simp
  have "thread_step L (ts ! i) \<noteq> Panic" if "i < length ts" for i
    by (rule thread_step_no_panic) (use inv frames_of_split(1) [OF that] in simp)
  moreover have "record_ok L (frames_of ts) a" if "locks L k = Some a" for k a
    by (rule table_invD(3) [OF inv that])
  ultimately show ?thesis by (fastforce simp: record_ok_def in_set_conv_nth)
qed

theorem lock_table_exact_witness:
  "list_all (\<lambda>t. thread_step (fst contention_state) t \<noteq> Panic) (snd contention_state)"
  using lock_table_exact [of contention_progs "fst contention_state" "snd contention_state"]
    contention_reachable by (simp add: list_all_iff)

text \<open>C2. The operations of the controller (publish without a move, unpublish,
  expand, expiry of a delayed detach, reconciler detach), in any number and from
  any reachable state of any interleaving, are never deadlocked: they all run to
  completion, and then the lock table is empty.\<close>

theorem controller_ops_complete:
  assumes "reachable (map controller_lock_prog ops) s"
  shows "\<not> deadlocked s \<and>
    (\<exists>s'. sys_step\<^sup>*\<^sup>* s s' \<and> list_all finished (snd s') \<and> locks (fst s') = Map.empty)"
  using ctl.operations_no_deadlock [OF assms] ctl.operations_finish [OF assms] by blast

theorem controller_ops_complete_witness: "\<not> deadlocked contention_state"
  using controller_ops_complete [of "[PublishOp ''a'' ''1'', UnpublishOp ''b'' ''1'']" contention_state]
    contention_reachable by (simp add: contention_progs_def)

text \<open>C22. A publish that moves a volume from another node (the branch of
  \<open>reuseStickyAttachment\<close> that takes the old node's lock last) can deadlock with
  the unpublish of the same volume on the old node: the state in which each waits
  for the other is reachable.\<close>

theorem move_can_deadlock:
  "\<exists>s. reachable [move_lock_prog ''a'' ''1'' ''b'', controller_lock_prog (UnpublishOp ''b'' ''1'')] s \<and>
       deadlocked s"
proof -
  let ?progs = "[move_lock_prog ''a'' ''1'' ''b'', controller_lock_prog (UnpublishOp ''b'' ''1'')]"
  let ?run = "run_schedule [0, 0, 1, 1, 0, 0, 1, 0] (initial_system ?progs)"
  have "\<not> Option.is_none ?run \<and> deadlocked (the ?run)" by code_simp
  then have "?run = Some (the ?run)" "deadlocked (the ?run)" by (simp_all add: Option.is_none_def)
  then show ?thesis using run_schedule_reachable [OF reachable.init] by blast
qed

section \<open>Refinement to one mutex per key\<close>

section \<open>The abstract mutexes\<close>

text \<open>The specification: a map from keys to the threads that own them.  A step of a thread changes nothing,
  takes a key that nobody owns, or gives up a key that the thread owns.\<close>

inductive mutex_step :: "nat \<Rightarrow> (string \<rightharpoonup> nat) \<Rightarrow> (string \<rightharpoonup> nat) \<Rightarrow> bool" for i where
  idle: "mutex_step i m m"
| lock: "m k = None \<Longrightarrow> mutex_step i m (m(k \<mapsto> i))"
| unlock: "m k = Some i \<Longrightarrow> mutex_step i m (m(k := None))"

definition owner :: "lock_thread list \<Rightarrow> string \<Rightarrow> nat option" where
  "owner ts k = find (\<lambda>i. k \<in> set (held_keys (ts ! i))) [0..<length ts]"

lemma distinct_concat_nth:
  assumes "distinct (concat xss)" "i < length xss" "j < length xss" "x \<in> set (xss ! i)" "x \<in> set (xss ! j)"
  shows "i = j"
  using assms
proof (induction xss arbitrary: i j)
  case (Cons xs xss)
  then have apart: "set xs \<inter> (\<Union>ys \<in> set xss. set ys) = {}" "distinct (concat xss)" by auto
  have "xss ! n \<in> set xss" if "n < length xss" for n using that by simp
  with Cons apart show ?case by (cases i; cases j) (fastforce simp: disjoint_iff)+
qed simp

lemma owner_iff:
  assumes "distinct (concat (map held_keys ts))"
  shows "owner ts k = Some j \<longleftrightarrow> j < length ts \<and> k \<in> set (held_keys (ts ! j))"
proof
  assume "owner ts k = Some j"
  then show "j < length ts \<and> k \<in> set (held_keys (ts ! j))" by (auto simp: owner_def find_Some_iff)
next
  assume j: "j < length ts \<and> k \<in> set (held_keys (ts ! j))"
  show "owner ts k = Some j"
  proof (cases "owner ts k")
    case None
    then show ?thesis using j by (auto simp: owner_def find_None_iff)
  next
    case (Some i)
    then have "i < length ts" "k \<in> set (held_keys (ts ! i))" by (auto simp: owner_def find_Some_iff)
    then have "i = j" using distinct_concat_nth [OF assms, of i j k] j by simp
    then show ?thesis using Some by simp
  qed
qed

lemma take_held: "n < length ks \<Longrightarrow> mset (take (Suc n) ks) = add_mset (ks ! n) (mset (take n ks))"
  by (simp add: take_Suc_conv_app_nth)

lemma thread_step_held:
  assumes step: "thread_step L t = Next L' t'" and ok: "\<forall>f \<in> set (th_stack t). frame_ok L f"
  shows "held_keys t' = held_keys t \<or> (\<exists>k. mset (held_keys t') = add_mset k (mset (held_keys t))) \<or>
    (\<exists>k. mset (held_keys t) = add_mset k (mset (held_keys t')))"
proof (cases "th_stack t")
  case Nil
  then show ?thesis using step
    by (cases "th_prog t") (auto simp: thread_step_def held_keys_def frame_held_def Let_def split: lock_action.splits prod.splits elim!: prog_step.elims)
next
  case (Cons f st)
  then have len: "length (fr_keys f) = length (fr_refs f)" "fr_count f \<le> length (fr_refs f)"
    using ok by (auto simp: frame_ok_def dest: list_all2_lengthD)
  have release: "mset (take (Suc n) (fr_keys f)) = add_mset (fr_keys f ! n) (mset (take n (fr_keys f)))" if "fr_count f = Suc n" for n
    using len that by (intro take_held) simp
  have acquire: "mset (take (Suc (fr_count f)) (fr_keys f)) = add_mset (fr_keys f ! fr_count f) (mset (take (fr_count f) (fr_keys f)))"
    if "fr_count f \<noteq> length (fr_refs f)" using len that by (intro take_held) simp
  show ?thesis
  proof (cases "fr_mode f")
    case Acquiring
    then show ?thesis using step Cons acquire
      by (auto simp: thread_step_def lock_step_def held_keys_def frame_held_def Let_def split: if_splits option.splits prod.splits elim!: prog_step.elims)
  next
    case (Trying body)
    then show ?thesis using step Cons acquire
      by (auto simp: thread_step_def try_step_def held_keys_def frame_held_def Let_def split: if_splits option.splits)
  next
    case Releasing
    then show ?thesis using step Cons release
      by (auto simp: thread_step_def release_step_def held_keys_def frame_held_def Let_def split: if_splits option.splits nat.splits)
  qed
qed


lemma owner_eqI:
  assumes "distinct (concat (map held_keys ts))" "\<And>k j. m k = Some j \<longleftrightarrow> j < length ts \<and> k \<in> set (held_keys (ts ! j))"
  shows "owner ts = m"
proof
  fix k show "owner ts k = m k"
    using assms(2) [of k] owner_iff [OF assms(1), of k] by (cases "owner ts k"; cases "m k") auto
qed

lemma distinct_held: "distinct (concat (map held_keys ts)) \<Longrightarrow> i < length ts \<Longrightarrow> distinct (held_keys (ts ! i))"
  by (auto simp: distinct_concat_iff)

lemma owner_step:
  assumes d: "distinct (concat (map held_keys ts))" and d': "distinct (concat (map held_keys (ts[i := t'])))" and i: "i < length ts"
    and held: "held_keys t' = held_keys (ts ! i) \<or> (\<exists>k. mset (held_keys t') = add_mset k (mset (held_keys (ts ! i)))) \<or>
      (\<exists>k. mset (held_keys (ts ! i)) = add_mset k (mset (held_keys t')))"
  shows "mutex_step i (owner ts) (owner (ts[i := t']))"
proof -
  note iff = owner_iff [OF d] and iff' = owner_iff [OF d']
  have at: "ts[i := t'] ! j = (if j = i then t' else ts ! j)" for j using i by (cases "j < length ts") (auto simp: nth_list_update)
  have single: "k \<notin> set ys" "set xs = insert k (set ys)" if "mset xs = add_mset k (mset ys)" "distinct xs" for k and xs ys :: "string list"
    using that by (metis distinct.simps(2) mset.simps(2) mset_eq_imp_distinct_iff, metis list.simps(15) mset.simps(2) mset_eq_setD)
  from held show ?thesis
  proof (elim disjE exE)
    assume "held_keys t' = held_keys (ts ! i)"
    then have "owner (ts[i := t']) = owner ts" by (intro owner_eqI [OF d']) (auto simp: iff at)
    then show ?thesis by (simp add: mutex_step.idle)
  next
    fix k assume k: "mset (held_keys t') = add_mset k (mset (held_keys (ts ! i)))"
    have "distinct (held_keys t')" using distinct_held [OF d', of i] i by simp
    note set = single [OF k this]
    have mine: "owner (ts[i := t']) k = Some i" using i set by (simp add: iff')
    have "owner ts k \<noteq> Some j" for j
    proof
      assume "owner ts k = Some j"
      then have j: "j < length ts" "k \<in> set (held_keys (ts ! j))" by (auto simp: iff)
      then have "j \<noteq> i" using set(1) by auto
      with j have "owner (ts[i := t']) k = Some j" by (simp add: iff' at)
      then show False using mine \<open>j \<noteq> i\<close> by simp
    qed
    then have free: "owner ts k = None" by (cases "owner ts k") auto
    have "k \<notin> set (held_keys (ts ! j))" if "j < length ts" for j using free iff [of k j] that by simp
    then have "owner (ts[i := t']) = (owner ts)(k \<mapsto> i)"
      using i set by (intro owner_eqI [OF d']) (auto simp: iff at)
    then show ?thesis using mutex_step.lock [of "owner ts" k i] free by simp
  next
    fix k assume k: "mset (held_keys (ts ! i)) = add_mset k (mset (held_keys t'))"
    note set = single [OF k distinct_held [OF d i]]
    have mine: "owner ts k = Some i" using i set by (simp add: iff)
    have other: "k \<notin> set (held_keys (ts ! j))" if "j < length ts" "j \<noteq> i" for j using mine iff [of k j] that by auto
    have "owner (ts[i := t']) = (owner ts)(k := None)"
    proof (intro owner_eqI [OF d'])
      fix l j show "((owner ts)(k := None)) l = Some j \<longleftrightarrow> j < length (ts[i := t']) \<and> l \<in> set (held_keys (ts[i := t'] ! j))"
        using i set other [of j] by (cases "j = i") (auto simp: iff at)
    qed
    then show ?thesis using mutex_step.unlock [of "owner ts" k i] mine by simp
  qed
qed


lemma sys_step_mutex:
  assumes "reachable progs s" "sys_step s s'"
  shows "\<exists>i < length (snd s). mutex_step i (owner (snd s)) (owner (snd s'))"
  using assms(2)
proof (cases rule: sys_step.cases)
  case (step i ts L L' t')
  have inv: "table_inv L (frames_of ts)" using reachable_inv [OF assms(1)] step(1) by simp
  have d: "distinct (concat (map held_keys ts))" by (rule held_keys_distinct [OF inv])
  have d': "distinct (concat (map held_keys (ts[i := t'])))"
    using held_keys_distinct [OF reachable_inv [OF reachable.more [OF assms]]] step(2) by simp
  have "\<forall>f \<in> set (th_stack (ts ! i)). frame_ok L f"
    using table_invD(1) [OF inv] frames_of_split(1) [OF step(3)] by simp
  from owner_step [OF d d' step(3) thread_step_held [OF step(4) this]] show ?thesis using step(1-3) by auto
qed

text \<open>The key a thread asks for: the next one of the acquisition in progress.\<close>

definition wanted_key :: "lock_thread \<Rightarrow> string option" where
  "wanted_key t = (case th_stack t of
     f # _ \<Rightarrow> if fr_mode f = Acquiring \<and> fr_count f < length (fr_refs f) then Some (fr_keys f ! fr_count f) else None
   | [] \<Rightarrow> None)"

lemma held_somewhere:
  assumes "distinct (concat (map held_keys ts))"
  shows "owner ts k \<noteq> None \<longleftrightarrow> (\<exists>t \<in> set ts. k \<in> set (held_keys t))"
proof -
  have "owner ts k \<noteq> None \<longleftrightarrow> (\<exists>j. owner ts k = Some j)" by (cases "owner ts k") simp_all
  then show ?thesis unfolding owner_iff [OF assms] by (simp add: Bex_def in_set_conv_nth) blast
qed

lemma held_owned:
  assumes inv: "table_inv L (frames_of ts)" and a: "locks L k = Some a"
  shows "holders a (frames_of ts) \<noteq> 0 \<longleftrightarrow> owner ts k \<noteq> None"
  unfolding held_somewhere [OF held_keys_distinct [OF inv]]
proof
  assume "holders a (frames_of ts) \<noteq> 0"
  then show "\<exists>t \<in> set ts. k \<in> set (held_keys t)" by (rule holder_thread [OF inv a])
next
  assume "\<exists>t \<in> set ts. k \<in> set (held_keys t)"
  then have "0 < count_list (concat (map held_keys ts)) k" by (simp add: zero_less_iff_neq_zero count_list_0_iff)
  moreover have "\<forall>f \<in># frames_of ts. frame_ok L f" using table_invD(1) [OF inv] by (rule ballI)
  ultimately show "holders a (frames_of ts) \<noteq> 0" using held_count [of "frames_of ts" L k a] a unfolding held_keys_count by linarith
qed

lemma blocked_owned:
  assumes inv: "table_inv L (frames_of ts)" and i: "i < length ts"
  shows "thread_step L (ts ! i) = Blocked \<longleftrightarrow> (\<exists>k. wanted_key (ts ! i) = Some k \<and> owner ts k \<noteq> None)"
proof (cases "th_stack (ts ! i)")
  case Nil
  then show ?thesis by (simp add: wanted_key_def thread_step_def prog_step_not_blocked)
next
  case (Cons f st)
  have f: "f \<in># frames_of ts" using frames_of_split(1) [OF i] Cons by simp
  show ?thesis
  proof (cases "fr_mode f = Acquiring \<and> fr_count f < length (fr_refs f)")
    case True
    then have "locks L (fr_keys f ! fr_count f) = Some (fr_refs f ! fr_count f)"
      using table_invD(1) [OF inv f] by (auto simp: frame_ok_def list_all2_conv_all_nth)
    from held_owned [OF inv this] show ?thesis using True Cons ref_in_heap [OF inv f, of "fr_count f"]
      by (auto simp: thread_step_def lock_step_def wanted_key_def Let_def)
  next
    case False
    then show ?thesis using Cons prog_step_not_blocked
      by (auto simp: thread_step_def wanted_key_def try_step_def release_step_def Let_def split: frame_mode.splits option.splits nat.splits)
  qed
qed

text \<open>C3. The lock table implements one mutex per key: from no owners, every step of any program either
  changes no owner, gives an unowned key to the thread that steps, or takes a key from the
  thread that owns it; and a thread is blocked exactly when the key it asks for has an
  owner.\<close>

theorem lock_refines_mutexes:
  assumes "reachable progs s"
  shows "owner (snd (initial_system progs)) = Map.empty \<and>
    (\<forall>s'. sys_step s s' \<longrightarrow> (\<exists>i < length (snd s). mutex_step i (owner (snd s)) (owner (snd s')))) \<and>
    (\<forall>i < length (snd s). thread_step (fst s) (snd s ! i) = Blocked \<longleftrightarrow>
       (\<exists>k. wanted_key (snd s ! i) = Some k \<and> owner (snd s) k \<noteq> None))"
proof -
  have "owner (snd (initial_system progs)) = Map.empty"
    by (rule ext) (auto simp: owner_def find_None_iff initial_system_def held_keys_def)
  then show ?thesis using sys_step_mutex [OF assms] blocked_owned [OF reachable_inv [OF assms]] by blast
qed

theorem lock_refines_mutexes_witness:
  "thread_step (fst contention_state) (snd contention_state ! 1) = Blocked \<and> wanted_key (snd contention_state ! 1) = Some ''volume:1'' \<and>
   owner (snd contention_state) ''volume:1'' \<noteq> None"
proof -
  have "is_Blocked (thread_step (fst contention_state) (snd contention_state ! 1)) \<and> 1 < length (snd contention_state) \<and>
      wanted_key (snd contention_state ! 1) = Some ''volume:1''" by code_simp
  then show ?thesis using lock_refines_mutexes [OF contention_reachable] by (auto simp: is_Blocked_def)
qed

end
