(* ===== verification/Identifiers.thy ===== *)
theory Identifiers
  imports Go_Prelude
begin

text \<open>
  Identifiers and paths of volumes and snapshots (\<open>opennebula/snapshot.go\<close>,
  \<open>opennebula/sharedfs.go\<close>).  JSON and base64 of the standard library are
  not modelled: the composed encoder and its two decoding stages are arguments.
  \<open>path.Clean\<close> and \<open>path.Join\<close> are modelled by their components.
\<close>

section \<open>Snapshot identifiers\<close>

definition snapshot_id_prefix :: string where "snapshot_id_prefix = ''image-snapshot:''"
definition shared_snapshot_id_prefix :: string where "shared_snapshot_id_prefix = ''cephfs-snapshot:''"
definition shared_volume_id_prefix :: string where "shared_volume_id_prefix = ''cephfs:''"

datatype id_error = BadPrefix string | NoSeparator string | BadImageId string | BadSnapshotId string
  | BadEncoding string | BadPayload string | MissingMetadata string

definition encode_volume_snapshot_id :: "int \<Rightarrow> int \<Rightarrow> string" where
  "encode_volume_snapshot_id img snapshot = snapshot_id_prefix @ itoa img @ '':'' @ itoa snapshot"

definition decode_volume_snapshot_id :: "string \<Rightarrow> id_error + int \<times> int" where
  "decode_volume_snapshot_id value =
     (let trimmed = trim_space value
      in if \<not> has_prefix trimmed snapshot_id_prefix then Inl (BadPrefix value)
         else (let (image_raw, snapshot_raw, ok) = cut_on (CHR '':'') (trim_prefix trimmed snapshot_id_prefix)
               in if \<not> ok then Inl (NoSeparator value)
                  else (case atoi image_raw of
                          None \<Rightarrow> Inl (BadImageId value)
                        | Some img \<Rightarrow>
                            (case atoi snapshot_raw of
                               None \<Rightarrow> Inl (BadSnapshotId value)
                             | Some snapshot \<Rightarrow> Inr (img, snapshot)))))"

section \<open>Shared volumes and shared snapshots\<close>

datatype shared_volume_mode = StaticMode | DynamicMode

record shared_volume_metadata =
  sv_datastore :: int
  sv_mode :: shared_volume_mode
  sv_fs_name :: string
  sv_group :: string
  sv_subpath :: string
  sv_backend :: string
  sv_subvolume :: string

record shared_snapshot_metadata =
  ss_datastore :: int
  ss_backend :: string
  ss_fs_name :: string
  ss_group :: string
  ss_subvolume :: string
  ss_snapshot :: string
  ss_source :: string
  ss_created :: int
  ss_size :: int

definition is_shared_volume_id :: "string \<Rightarrow> bool" where
  "is_shared_volume_id volume \<longleftrightarrow> has_prefix (trim_space volume) shared_volume_id_prefix"

definition is_shared_snapshot_id :: "string \<Rightarrow> bool" where
  "is_shared_snapshot_id value \<longleftrightarrow> has_prefix (trim_space value) shared_snapshot_id_prefix"

definition encode_shared_volume_id :: "(shared_volume_metadata \<Rightarrow> string) \<Rightarrow> shared_volume_metadata \<Rightarrow> string" where
  "encode_shared_volume_id encode md = shared_volume_id_prefix @ encode md"

definition decode_shared_volume_id ::
  "(string \<Rightarrow> 'p option) \<Rightarrow> ('p \<Rightarrow> shared_volume_metadata option) \<Rightarrow> string \<Rightarrow> id_error + shared_volume_metadata" where
  "decode_shared_volume_id base64 json volume =
     (if \<not> is_shared_volume_id volume then Inl (BadPrefix volume)
      else (case base64 (trim_prefix (trim_space volume) shared_volume_id_prefix) of
              None \<Rightarrow> Inl (BadEncoding volume)
            | Some payload \<Rightarrow>
                (case json payload of
                   None \<Rightarrow> Inl (BadPayload volume)
                 | Some md \<Rightarrow>
                     (let md = (if sv_backend md = [] then md\<lparr>sv_backend := ''cephfs''\<rparr> else md)
                      in if sv_datastore md \<le> 0 \<or> sv_fs_name md = [] \<or> sv_subpath md = []
                         then Inl (MissingMetadata volume) else Inr md))))"

definition encode_shared_snapshot_id :: "(shared_snapshot_metadata \<Rightarrow> string) \<Rightarrow> shared_snapshot_metadata \<Rightarrow> string" where
  "encode_shared_snapshot_id encode md = shared_snapshot_id_prefix @ encode md"

definition decode_shared_snapshot_id ::
  "(string \<Rightarrow> 'p option) \<Rightarrow> ('p \<Rightarrow> shared_snapshot_metadata option) \<Rightarrow> string \<Rightarrow> id_error + shared_snapshot_metadata" where
  "decode_shared_snapshot_id base64 json value =
     (if \<not> has_prefix (trim_space value) shared_snapshot_id_prefix then Inl (BadPrefix value)
      else (case base64 (trim_prefix (trim_space value) shared_snapshot_id_prefix) of
              None \<Rightarrow> Inl (BadEncoding value)
            | Some payload \<Rightarrow>
                (case json payload of
                   None \<Rightarrow> Inl (BadPayload value)
                 | Some md \<Rightarrow>
                     (let md = (if ss_backend md = [] then md\<lparr>ss_backend := ''cephfs''\<rparr> else md)
                      in if ss_datastore md \<le> 0 \<or> ss_fs_name md = [] \<or> ss_subvolume md = [] \<or> ss_snapshot md = []
                         then Inl (MissingMetadata value) else Inr md))))"

section \<open>Paths\<close>

text \<open>\<open>path.Clean\<close>: empty and \<open>.\<close> elements are dropped, \<open>..\<close> removes the element before it,
  and at the root of a rooted path it is dropped as well.\<close>

definition push_element :: "bool \<Rightarrow> string list \<Rightarrow> string \<Rightarrow> string list" where
  "push_element rooted out e =
     (if e = [] \<or> e = ''.'' then out
      else if e = ''..'' then
        (if out \<noteq> [] \<and> last out \<noteq> ''..'' then butlast out
         else if rooted then out else out @ [e])
      else out @ [e])"

definition clean_elements :: "bool \<Rightarrow> string list \<Rightarrow> string list" where
  "clean_elements rooted es = foldl (push_element rooted) [] es"

definition path_clean :: "string \<Rightarrow> string" where
  "path_clean s =
     (let rooted = has_prefix s ''/''; out = clean_elements rooted (split_on (CHR ''/'') s)
      in if rooted then CHR ''/'' # join_with ''/'' out
         else if out = [] then ''.'' else join_with ''/'' out)"

text \<open>\<open>path.Join\<close> of two elements; an empty element is ignored.\<close>

definition path_join :: "string \<Rightarrow> string \<Rightarrow> string" where
  "path_join a b =
     (if a = [] \<and> b = [] then []
      else if a = [] then path_clean b else if b = [] then path_clean a else path_clean (a @ ''/'' @ b))"

definition clean_shared_path :: "string \<Rightarrow> string" where
  "clean_shared_path value =
     (let trimmed = trim_space value
      in if trimmed = [] then []
         else (let cleaned = path_clean trimmed
               in if has_prefix cleaned ''/'' then cleaned else CHR ''/'' # trim_prefix cleaned ''/''))"

datatype path_error = EmptySharedPath | OutsideRoot string string

definition normalize_shared_subpath :: "string \<Rightarrow> string \<Rightarrow> path_error + string" where
  "normalize_shared_subpath root_path requested_path =
     (let root = clean_shared_path root_path; requested = clean_shared_path requested_path
      in if requested = [] then Inl EmptySharedPath
         else if has_prefix requested ''/'' then
           (if root = [] \<or> root = ''/'' then Inr requested
            else if requested = root \<or> has_prefix requested (root @ ''/'') then Inr requested
            else Inl (OutsideRoot requested root))
         else Inr (clean_shared_path (path_join (if root = [] then ''/'' else root) requested)))"

text \<open>\<open>strings.Trim(s, "-")\<close> and the replacement of each maximal run of other bytes by one dash.\<close>

definition trim_dashes :: "string \<Rightarrow> string" where
  "trim_dashes s = rev (dropWhile (\<lambda>c. c = CHR ''-'') (rev (dropWhile (\<lambda>c. c = CHR ''-'') s)))"

definition subvolume_char :: "char \<Rightarrow> bool" where
  "subvolume_char c \<longleftrightarrow> c = CHR ''-'' \<or> is_digit c \<or> (97 \<le> (of_char c :: nat) \<and> (of_char c :: nat) \<le> 122)"

fun replace_invalid :: "bool \<Rightarrow> string \<Rightarrow> string" where
  "replace_invalid in_run [] = []"
| "replace_invalid in_run (c # s) =
     (if subvolume_char c then c # replace_invalid False s
      else if in_run then replace_invalid True s
      else CHR ''-'' # replace_invalid True s)"

definition sanitize_subvolume_name :: "string \<Rightarrow> string" where
  "sanitize_subvolume_name name =
     (let normalized = trim_dashes (replace_invalid False (to_lower (trim_space name)))
      in if normalized = [] then ''one-csi-volume''
         else (let normalized = (if has_prefix normalized ''one-csi-'' then normalized else ''one-csi-'' @ normalized)
               in if length normalized > 96 then trim_dashes (take 96 normalized) else normalized))"

definition shared_filesystem_path :: "str_map \<Rightarrow> string" where
  "shared_filesystem_path params = trim_space (case params ''sharedFilesystemPath'' of None \<Rightarrow> [] | Some v \<Rightarrow> v)"

definition shared_filesystem_subvolume_group :: "str_map \<Rightarrow> string" where
  "shared_filesystem_subvolume_group params =
     trim_space (case params ''sharedFilesystemSubvolumeGroup'' of None \<Rightarrow> [] | Some v \<Rightarrow> v)"

definition shared_filesystem_backend :: "str_map \<Rightarrow> string" where
  "shared_filesystem_backend ctx = trim_space (case ctx ''shareBackend'' of None \<Rightarrow> [] | Some v \<Rightarrow> v)"

definition is_shared_publish_context :: "str_map \<Rightarrow> bool" where
  "is_shared_publish_context ctx \<longleftrightarrow> shared_filesystem_backend ctx \<noteq> []"

section \<open>Lemmas\<close>

lemma trim_space_no_edges: "s \<noteq> [] \<Longrightarrow> \<not> is_space (hd s) \<Longrightarrow> \<not> is_space (last s) \<Longrightarrow> trim_space s = s"
proof -
  assume s: "s \<noteq> []" "\<not> is_space (hd s)" "\<not> is_space (last s)"
  then have "dropWhile is_space s = s" by (cases s) simp_all
  moreover have "dropWhile is_space (rev s) = rev s" using s by (cases "rev s") (auto simp: hd_rev [symmetric])
  ultimately show ?thesis by (simp add: trim_space_def)
qed

lemma digit_not_space: "is_digit c \<Longrightarrow> \<not> is_space c"
  by (auto simp: is_digit_def is_space_def)

lemma last_itoa: "is_digit (last (itoa i))"
  using nat_decimal_digits [of "nat i"] nat_decimal_digits [of "nat (- i)"]
  by (auto simp: itoa_def list_all_iff)

lemma cut_on_append: "c \<notin> set s \<Longrightarrow> cut_on c (s @ c # t) = (s, t, True)"
  by (simp add: cut_on_def takeWhile_append dropWhile_append)

lemma split_on_append: "split_on c (a @ c # b) = split_on c a @ split_on c b"
proof (induction a)
  case (Cons x a)
  then show ?case by (cases "split_on c a") (auto split: list.splits)
qed simp

lemma split_on_cons_sep: "split_on c (c # s) = [] # split_on c s"
  by simp

subsection \<open>Cleaned paths\<close>

text \<open>The elements of a path; a cleaned path has \<open>..\<close> only in front.\<close>

definition elements :: "string \<Rightarrow> string list" where
  "elements p = filter (\<lambda>e. e \<noteq> []) (split_on (CHR ''/'') p)"

definition normal_elements :: "bool \<Rightarrow> string list \<Rightarrow> bool" where
  "normal_elements rooted es \<longleftrightarrow> list_all (\<lambda>e. e \<noteq> [] \<and> CHR ''/'' \<notin> set e) es \<and>
     (\<exists>k ns. es = replicate k ''..'' @ ns \<and> ''..'' \<notin> set ns \<and> (rooted \<longrightarrow> k = 0))"

lemma normal_elementsI:
  assumes "es = replicate k ''..'' @ ns" "''..'' \<notin> set ns" "rooted \<longrightarrow> k = 0"
    and "list_all (\<lambda>e. e \<noteq> [] \<and> CHR ''/'' \<notin> set e) es"
  shows "normal_elements rooted es"
  unfolding normal_elements_def using assms by blast

lemma push_element_normal:
  assumes "normal_elements rooted out" "CHR ''/'' \<notin> set e"
  shows "normal_elements rooted (push_element rooted out e)"
proof -
  obtain k ns where out: "out = replicate k ''..'' @ ns" "''..'' \<notin> set ns" "rooted \<longrightarrow> k = 0"
      "list_all (\<lambda>e. e \<noteq> [] \<and> CHR ''/'' \<notin> set e) out"
    using assms(1) unfolding normal_elements_def by blast
  consider "e = [] \<or> e = ''.''" | "e = ''..''" "ns = []" | "e = ''..''" "ns \<noteq> []" | "e \<noteq> []" "e \<noteq> ''.''" "e \<noteq> ''..''" by blast
  then show ?thesis
  proof cases
    case 1
    then show ?thesis using assms(1) by (auto simp: push_element_def)
  next
    case 2
    then have "push_element rooted out e = (if rooted then out else replicate (Suc k) ''..'')"
      using out(1,3) by (cases "k = 0") (auto simp: push_element_def replicate_append_same)
    then show ?thesis using assms(1) by (auto simp: normal_elements_def list_all_iff intro: exI [of _ "Suc k"])
  next
    case 3
    then have "last out \<noteq> ''..''" using out(1,2) by (metis last_appendR last_in_set)
    then have "push_element rooted out e = replicate k ''..'' @ butlast ns"
      using 3 out(1) by (simp add: push_element_def butlast_append)
    moreover have "''..'' \<notin> set (butlast ns)" using out(2) by (meson in_set_butlastD)
    moreover have "list_all (\<lambda>e. e \<noteq> [] \<and> CHR ''/'' \<notin> set e) (replicate k ''..'' @ butlast ns)"
      using out(1,4) by (auto simp: list_all_iff dest: in_set_butlastD)
    ultimately show ?thesis using out(3) by (intro normal_elementsI [of _ k "butlast ns"]) simp_all
  next
    case 4
    then have "push_element rooted out e = replicate k ''..'' @ (ns @ [e])" using out(1) by (simp add: push_element_def)
    moreover have "''..'' \<notin> set (ns @ [e])" using out(2) 4 by simp
    moreover have "list_all (\<lambda>e. e \<noteq> [] \<and> CHR ''/'' \<notin> set e) (replicate k ''..'' @ (ns @ [e]))"
      using out(1,4) 4(1) assms(2) by simp
    ultimately show ?thesis using out(3) by (intro normal_elementsI [of _ k "ns @ [e]"]) simp_all
  qed
qed

lemma clean_elements_normal:
  assumes "\<And>e. e \<in> set es \<Longrightarrow> CHR ''/'' \<notin> set e"
  shows "normal_elements rooted (clean_elements rooted es)"
proof -
  have "normal_elements rooted out \<Longrightarrow> normal_elements rooted (foldl (push_element rooted) out es)" for out
    using assms
  proof (induction es arbitrary: out)
    case (Cons e es)
    have "normal_elements rooted (push_element rooted out e)"
      using push_element_normal [OF Cons.prems(1)] Cons.prems(2) by simp
    then show ?case using Cons.IH Cons.prems(2) by simp
  qed simp
  moreover have "normal_elements rooted []" by (auto simp: normal_elements_def)
  ultimately show ?thesis by (simp add: clean_elements_def)
qed

lemma elements_join:
  assumes "list_all (\<lambda>e. e \<noteq> [] \<and> CHR ''/'' \<notin> set e) es"
  shows "elements (CHR ''/'' # join_with ''/'' es) = es"
proof (cases "es = []")
  case False
  have "split_on (CHR ''/'') (join_with ''/'' es) = es" using split_on_join [of es "CHR ''/''"] assms False by (simp add: list_all_iff)
  moreover have "filter (\<lambda>e. e \<noteq> []) es = es" using assms by (simp add: filter_id_conv list_all_iff)
  ultimately show ?thesis by (simp add: elements_def)
qed (simp add: elements_def)

lemma clean_shared_path_elements:
  assumes "clean_shared_path v \<noteq> []"
  shows "has_prefix (clean_shared_path v) ''/''" "normal_elements (has_prefix (trim_space v) ''/'') (elements (clean_shared_path v))"
proof -
  let ?t = "trim_space v" and ?r = "has_prefix (trim_space v) ''/''"
  let ?out = "clean_elements ?r (split_on (CHR ''/'') ?t)"
  have norm: "normal_elements ?r ?out" by (rule clean_elements_normal) (rule split_on_sep_free)
  then have all: "list_all (\<lambda>e. e \<noteq> [] \<and> CHR ''/'' \<notin> set e) ?out" by (simp add: normal_elements_def)
  have t: "?t \<noteq> []" using assms by (auto simp: clean_shared_path_def)
  show "has_prefix (clean_shared_path v) ''/''" using t by (simp add: clean_shared_path_def Let_def)
  have first: "\<not> has_prefix (join_with ''/'' ?out) ''/''"
    using all by (cases ?out rule: list.exhaust; cases "tl ?out"; cases "hd ?out") (auto simp: list_all_iff)
  show "normal_elements ?r (elements (clean_shared_path v))"
  proof (cases "?r \<or> ?out \<noteq> []")
    case True
    then have "clean_shared_path v = CHR ''/'' # join_with ''/'' ?out"
      using t first by (cases ?r) (simp_all add: clean_shared_path_def path_clean_def Let_def trim_prefix_def)
    then show ?thesis using norm elements_join [OF all] by simp
  next
    case False
    then have nr: "?r = False" and "?out = []" by blast+
    then have "clean_elements False (split_on (CHR ''/'') ?t) = []" by simp
    then have "clean_shared_path v = ''/.''"
      using t nr by (simp add: clean_shared_path_def path_clean_def Let_def trim_prefix_def)
    moreover have "elements ''/.'' = [''.'']" by (simp add: elements_def)
    moreover have "normal_elements ?r [''.'']" unfolding normal_elements_def by (auto intro!: exI [of _ 0])
    ultimately show ?thesis by simp
  qed
qed

subsection \<open>Sanitised names\<close>

lemma replace_invalid_chars: "list_all subvolume_char (replace_invalid r s)"
  by (induction r s rule: replace_invalid.induct) (auto simp: subvolume_char_def)

lemma trim_dashes_set: "set (trim_dashes s) \<subseteq> set s"
  unfolding trim_dashes_def by (metis set_dropWhileD set_rev subsetI)

lemma trim_dashes_length: "length (trim_dashes s) \<le> length s"
  unfolding trim_dashes_def by (metis length_dropWhile_le length_rev order_trans)

lemma trim_dashes_keep_prefix:
  assumes "has_prefix s (p @ [c])" "c \<noteq> CHR ''-''" "hd p \<noteq> CHR ''-''" "p \<noteq> []"
  shows "has_prefix (trim_dashes s) (p @ [c])"
proof -
  obtain t where s: "s = (p @ [c]) @ t" using assms(1) has_prefix_iff by metis
  have "dropWhile (\<lambda>c. c = CHR ''-'') s = s" using s assms(3,4) by (cases p) auto
  moreover have "dropWhile (\<lambda>c. c = CHR ''-'') (rev s) = dropWhile (\<lambda>c. c = CHR ''-'') (rev t) @ c # rev p"
  proof (cases "\<exists>x \<in> set (rev t). x \<noteq> CHR ''-''")
    case True
    then show ?thesis by (auto simp: s dropWhile_append1)
  next
    case False
    then have "dropWhile (\<lambda>c. c = CHR ''-'') (rev t) = []" by simp
    moreover have "dropWhile (\<lambda>c. c = CHR ''-'') (rev t @ c # rev p) = c # rev p"
      using False assms(2) by (subst dropWhile_append2) simp_all
    ultimately show ?thesis by (simp add: s)
  qed
  ultimately have "trim_dashes s = (p @ [c]) @ rev (dropWhile (\<lambda>c. c = CHR ''-'') (rev t))"
    by (simp add: trim_dashes_def)
  then show ?thesis by (simp only: has_prefix_append)
qed

section \<open>Properties\<close>

text \<open>Snapshot identifiers round trip: decoding what was encoded for an image and a
  snapshot number gives the two numbers back, and such an identifier is neither taken
  for a shared snapshot nor for a shared volume.\<close>

lemma snapshot_id_roundtrip:
  assumes "in_int64 img" "in_int64 snapshot"
  shows "decode_volume_snapshot_id (encode_volume_snapshot_id img snapshot) = Inr (img, snapshot) \<and>
    \<not> is_shared_snapshot_id (encode_volume_snapshot_id img snapshot) \<and>
    \<not> is_shared_volume_id (encode_volume_snapshot_id img snapshot)"
proof -
  let ?id = "encode_volume_snapshot_id img snapshot"
  have "last ?id = last (itoa snapshot)" by (simp add: encode_volume_snapshot_id_def)
  then have trim: "trim_space ?id = ?id"
    using digit_not_space [OF last_itoa [of snapshot]]
    by (intro trim_space_no_edges) (simp_all add: encode_volume_snapshot_id_def snapshot_id_prefix_def is_space_def)
  have cut: "cut_on (CHR '':'') (itoa img @ '':'' @ itoa snapshot) = (itoa img, itoa snapshot, True)"
    using itoa_no_sep [of "CHR '':''" img] by (simp add: cut_on_append is_digit_def)
  have "has_prefix ?id snapshot_id_prefix" "trim_prefix ?id snapshot_id_prefix = itoa img @ '':'' @ itoa snapshot"
    by (simp_all add: encode_volume_snapshot_id_def)
  then have "decode_volume_snapshot_id ?id = Inr (img, snapshot)"
    using cut assms by (simp add: decode_volume_snapshot_id_def trim atoi_itoa)
  moreover have "\<not> has_prefix ?id shared_snapshot_id_prefix" "\<not> has_prefix ?id shared_volume_id_prefix"
    by (simp_all add: encode_volume_snapshot_id_def
        snapshot_id_prefix_def shared_snapshot_id_prefix_def shared_volume_id_prefix_def)
  ultimately show ?thesis unfolding is_shared_snapshot_id_def is_shared_volume_id_def trim by blast
qed

lemma snapshot_id_roundtrip_witness:
  "decode_volume_snapshot_id (encode_volume_snapshot_id 42 (- 3)) = Inr (42, - 3)"
  using snapshot_id_roundtrip [of 42 "- 3"] by (simp add: in_int64_def)



text \<open>C40. Subvolume names: whatever the requested name, the subvolume name has at most 96
  bytes, all of them lower-case letters, digits or dashes, and starts with the driver's
  mark.\<close>

theorem subvolume_name_valid:
  "length (sanitize_subvolume_name name) \<le> 96 \<and> list_all subvolume_char (sanitize_subvolume_name name) \<and>
   has_prefix (sanitize_subvolume_name name) ''one-csi''"
proof -
  let ?n = "trim_dashes (replace_invalid False (to_lower (trim_space name)))"
  let ?m = "if has_prefix ?n ''one-csi-'' then ?n else ''one-csi-'' @ ?n"
  have n: "list_all subvolume_char ?n"
    using trim_dashes_set replace_invalid_chars unfolding list_all_iff by blast
  then have m: "list_all subvolume_char ?m" by (simp add: subvolume_char_def)
  have pre: "has_prefix ?m (''one-cs'' @ ''i'')"
  proof (cases "has_prefix ?n ''one-csi-''")
    case True
    then obtain t where "?n = ''one-csi-'' @ t" unfolding has_prefix_iff by blast
    then show ?thesis by simp
  qed simp
  show ?thesis
  proof (cases "?n = []")
    case True
    then show ?thesis by (simp add: sanitize_subvolume_name_def subvolume_char_def)
  next
    case False
    show ?thesis
    proof (cases "96 < length ?m")
      case True
      then have r: "sanitize_subvolume_name name = trim_dashes (take 96 ?m)"
        using False unfolding sanitize_subvolume_name_def Let_def by simp
      obtain t where t: "?m = ''one-csi'' @ t" using pre unfolding has_prefix_iff by auto
      have "has_prefix (take 96 ?m) (''one-cs'' @ ''i'')" unfolding t by (simp add: numeral_eq_Suc)
      then have "has_prefix (trim_dashes (take 96 ?m)) ''one-csi''"
        using trim_dashes_keep_prefix [of "take 96 ?m" "''one-cs''" "CHR ''i''"] by simp
      moreover have "length (trim_dashes (take 96 ?m)) \<le> 96" using trim_dashes_length [of "take 96 ?m"] by simp
      moreover have "list_all subvolume_char (trim_dashes (take 96 ?m))"
        using m trim_dashes_set [of "take 96 ?m"] set_take_subset [of 96 ?m] unfolding list_all_iff by blast
      ultimately show ?thesis unfolding r by blast
    next
      case le: False
      then have r: "sanitize_subvolume_name name = ?m"
        using False unfolding sanitize_subvolume_name_def Let_def by simp
      show ?thesis unfolding r using le m pre by simp
    qed
  qed
qed

end
