(* ===== verification/Config_Store.thy ===== *)
theory Config_Store
  imports Go_Prelude
begin

text \<open>
  ConfigMaps as the controller's durable store (\<open>driver/runtime_k8s.go\<close>):
  \<open>UpsertConfigMapData\<close> and \<open>DeleteConfigMapKey\<close> with their retry on conflict, run
  against an API server that other clients write to between any two calls.

  The API server is an argument: a record of its get, create and update calls on a
  server state.  What the driver relies on, the optimistic concurrency that the
  Kubernetes API documents, is the predicate \<open>config_api_ok\<close>.  What the other clients
  do between two calls is a function from the number of the call.  The number of
  attempts of \<open>retry.RetryOnConflict\<close> is an argument as well.

  The second part has the pieces the managers that keep their state in a ConfigMap
  share: the outcome of a write and the rebuilding of a map from the entries.
\<close>

section \<open>The API server\<close>

record config_map =
  cm_version :: nat
  cm_data :: "string \<Rightarrow> string option"

datatype write_error = WConflict | WAlreadyExists | WNotFound | WOther

text \<open>A write returns no error (\<open>None\<close>) or one of the errors the code tells apart.\<close>

record 's config_api =
  api_get :: "'s \<Rightarrow> config_map kube_reply"
  api_create :: "(string \<Rightarrow> string option) \<Rightarrow> 's \<Rightarrow> 's \<times> write_error option"
  api_update :: "config_map \<Rightarrow> 's \<Rightarrow> 's \<times> write_error option"
  api_stored :: "'s \<Rightarrow> config_map option"

text \<open>Documented behaviour: a successful read returns the stored object, a write that
  succeeds stores what was sent, an update succeeds only on the version that was
  read, and a write that fails changes nothing.\<close>

definition config_api_ok :: "'s config_api \<Rightarrow> bool" where
  "config_api_ok api \<longleftrightarrow>
     (\<forall>s cm. api_get api s = KubeOk cm \<longrightarrow> api_stored api s = Some cm) \<and>
     (\<forall>s. api_get api s = KubeNotFound \<longrightarrow> api_stored api s = None) \<and>
     (\<forall>s s' d. api_create api d s = (s', None) \<longrightarrow>
        api_stored api s = None \<and> map_option cm_data (api_stored api s') = Some d) \<and>
     (\<forall>s s' cm. api_update api cm s = (s', None) \<longrightarrow>
        map_option cm_version (api_stored api s) = Some (cm_version cm) \<and>
        map_option cm_data (api_stored api s') = Some (cm_data cm)) \<and>
     (\<forall>s s' d e. api_create api d s = (s', Some e) \<longrightarrow> s' = s) \<and>
     (\<forall>s s' cm e. api_update api cm s = (s', Some e) \<longrightarrow> s' = s)"

text \<open>Other clients never reuse a version for different data.\<close>

definition versions_fresh :: "'s config_api \<Rightarrow> (nat \<Rightarrow> 's \<Rightarrow> 's) \<Rightarrow> bool" where
  "versions_fresh api others \<longleftrightarrow>
     (\<forall>i s a b. api_stored api s = Some a \<longrightarrow> api_stored api (others i s) = Some b \<longrightarrow>
        cm_version a = cm_version b \<longrightarrow> cm_data a = cm_data b)"

section \<open>Writes with retry\<close>

text \<open>One attempt reads, lets the other clients act, and writes.  It returns the server
  state, the error, and the server states just before and after its own write when
  the write was made.\<close>

datatype 's attempt = Attempt (at_state: 's) (at_error: "write_error option") (at_write: "('s \<times> 's) option")

definition own_write :: "'s \<Rightarrow> 's \<times> write_error option \<Rightarrow> 's attempt" where
  "own_write s r = (case r of (s', None) \<Rightarrow> Attempt s' None (Some (s, s')) | (s', Some e) \<Rightarrow> Attempt s' (Some e) None)"

definition upsert_attempt ::
  "'s config_api \<Rightarrow> (string \<Rightarrow> string option) \<Rightarrow> ('s \<Rightarrow> 's) \<Rightarrow> 's \<Rightarrow> 's attempt" where
  "upsert_attempt api data others s =
     (case api_get api s of
        KubeError \<Rightarrow> Attempt s (Some WOther) None
      | KubeNotFound \<Rightarrow>
          (let s = others s; r = api_create api data s
           in case snd r of
                Some WAlreadyExists \<Rightarrow> Attempt (fst r) (Some WConflict) None
              | _ \<Rightarrow> own_write s r)
      | KubeOk cm \<Rightarrow>
          (let s = others s in own_write s (api_update api (cm\<lparr>cm_data := cm_data cm ++ data\<rparr>) s)))"

definition delete_attempt :: "'s config_api \<Rightarrow> string \<Rightarrow> ('s \<Rightarrow> 's) \<Rightarrow> 's \<Rightarrow> 's attempt" where
  "delete_attempt api key others s =
     (case api_get api s of
        KubeError \<Rightarrow> Attempt s (Some WOther) None
      | KubeNotFound \<Rightarrow> Attempt s None None
      | KubeOk cm \<Rightarrow>
          if cm_data cm key = None then Attempt s None None
          else (let s = others s
                in own_write s (api_update api (cm\<lparr>cm_data := (cm_data cm)(key := None)\<rparr>) s)))"

text \<open>\<open>retry.RetryOnConflict\<close> with \<open>steps\<close> attempts; \<open>others i\<close> is what the other clients do
  inside attempt \<open>i\<close>.  A run that is out of attempts returns the conflict.\<close>

fun retry_on_conflict :: "(('s \<Rightarrow> 's) \<Rightarrow> 's \<Rightarrow> 's attempt) \<Rightarrow> (nat \<Rightarrow> 's \<Rightarrow> 's) \<Rightarrow> nat \<Rightarrow> nat \<Rightarrow> 's \<Rightarrow> 's attempt" where
  "retry_on_conflict f others i 0 s = Attempt s (Some WConflict) None"
| "retry_on_conflict f others i (Suc steps) s =
     (let a = f (others i) s
      in if at_error a = Some WConflict then retry_on_conflict f others (Suc i) steps (at_state a) else a)"

definition upsert_config_map_data ::
  "'s config_api \<Rightarrow> bool \<Rightarrow> nat \<Rightarrow> (nat \<Rightarrow> 's \<Rightarrow> 's) \<Rightarrow> (string \<Rightarrow> string option) \<Rightarrow> 's \<Rightarrow> 's attempt" where
  "upsert_config_map_data api enabled steps others data s =
     (if \<not> enabled then Attempt s (Some WOther) None
      else retry_on_conflict (upsert_attempt api data) others 0 steps s)"

definition delete_config_map_key ::
  "'s config_api \<Rightarrow> bool \<Rightarrow> nat \<Rightarrow> (nat \<Rightarrow> 's \<Rightarrow> 's) \<Rightarrow> string \<Rightarrow> 's \<Rightarrow> 's attempt" where
  "delete_config_map_key api enabled steps others key s =
     (if \<not> enabled then Attempt s (Some WOther) None
      else retry_on_conflict (delete_attempt api key) others 0 steps s)"

section \<open>Pieces shared by the managers\<close>

text \<open>The outcome of a write as its caller sees it: stored, rejected, or reported as
  failed although it was stored.\<close>

datatype write_outcome = Written | Rejected | WrittenButFailed

definition write_failed :: "write_outcome \<Rightarrow> bool" where
  "write_failed w \<longleftrightarrow> w \<noteq> Written"

definition write_key :: "write_outcome \<Rightarrow> string \<Rightarrow> string option \<Rightarrow> (string \<Rightarrow> string option) \<Rightarrow> string \<Rightarrow> string option" where
  "write_key w k v m = (if w = Rejected then m else m(k := v))"

text \<open>Rebuilding a map from the entries of a ConfigMap in iteration order: \<open>f\<close> decides
  what an entry contributes.\<close>

definition load_entries :: "(string \<times> string \<Rightarrow> (string \<times> 'a) option) \<Rightarrow> (string \<times> string) list \<Rightarrow> string \<Rightarrow> 'a option" where
  "load_entries f data = foldl (\<lambda>m e. case f e of None \<Rightarrow> m | Some (k, v) \<Rightarrow> m(k \<mapsto> v)) Map.empty data"

section \<open>Lemmas\<close>

text \<open>The data of the stored ConfigMap; no ConfigMap counts as no data.\<close>

definition stored_data :: "'s config_api \<Rightarrow> 's \<Rightarrow> string \<Rightarrow> string option" where
  "stored_data api s = (case api_stored api s of None \<Rightarrow> Map.empty | Some cm \<Rightarrow> cm_data cm)"

text \<open>What one attempt promises: its write, if any, has the intended effect on the data
  as it is at that moment, not as it was read; an attempt without a write leaves the
  store to the other clients, and reports success only if the effect already holds.\<close>

definition attempt_correct ::
  "'s config_api \<Rightarrow> ((string \<Rightarrow> string option) \<Rightarrow> string \<Rightarrow> string option) \<Rightarrow> ('s \<Rightarrow> 's) \<Rightarrow> 's \<Rightarrow> 's attempt \<Rightarrow> bool" where
  "attempt_correct api effect step s a \<longleftrightarrow>
     (case at_write a of
        Some (b, c) \<Rightarrow> b = step s \<and> c = at_state a \<and> at_error a = None \<and>
          stored_data api c = effect (stored_data api b)
      | None \<Rightarrow> (at_state a = s \<and> at_error a \<noteq> Some WConflict \<or> at_state a = step s \<and> at_error a \<noteq> None) \<and>
          (at_error a = None \<longrightarrow> effect (stored_data api (at_state a)) = stored_data api (at_state a)))"

locale config_write =
  fixes attempt :: "'s config_api \<Rightarrow> ('s \<Rightarrow> 's) \<Rightarrow> 's \<Rightarrow> 's attempt"
    and effect :: "(string \<Rightarrow> string option) \<Rightarrow> string \<Rightarrow> string option"
  assumes attempt_ok: "config_api_ok api \<Longrightarrow> versions_fresh api others \<Longrightarrow>
    attempt_correct api effect (others i) s (attempt api (others i) s)"
begin

lemma retry_linearizes:
  assumes "config_api_ok api" "versions_fresh api others"
  shows "\<exists>n \<le> i + steps. i \<le> n \<and> (let b = fold others [i..<n] s; r = retry_on_conflict (attempt api) others i steps s in
    if at_error r = None
    then (at_write r = Some (b, at_state r) \<or> at_write r = None \<and> at_state r = b) \<and>
      stored_data api (at_state r) = effect (stored_data api b)
    else at_state r = b \<and> at_write r = None)"
proof (induction steps arbitrary: i s)
  case 0
  show ?case by (intro exI [of _ i]) simp
next
  case (Suc steps)
  define a where "a = attempt api (others i) s"
  have a: "attempt_correct api effect (others i) s a"
    unfolding a_def by (rule attempt_ok [OF assms])
  show ?case
  proof (cases "at_error a = Some WConflict")
    case True
    then have "at_state a = others i s"
      using a by (auto simp: attempt_correct_def split: option.splits)
    moreover obtain n where "n \<le> Suc i + steps" "Suc i \<le> n"
      "let b = fold others [Suc i..<n] (at_state a); r = retry_on_conflict (attempt api) others (Suc i) steps (at_state a) in
         if at_error r = None
         then (at_write r = Some (b, at_state r) \<or> at_write r = None \<and> at_state r = b) \<and>
           stored_data api (at_state r) = effect (stored_data api b)
         else at_state r = b \<and> at_write r = None"
      using Suc.IH by blast
    ultimately show ?thesis using True
      by (intro exI [of _ n]) (simp add: a_def [symmetric] upt_conv_Cons Let_def)
  next
    case False
    then have r: "retry_on_conflict (attempt api) others i (Suc steps) s = a" by (simp add: a_def Let_def)
    show ?thesis
    proof (cases "at_state a = s \<and> at_write a = None")
      case True
      then show ?thesis unfolding r using a
        by (intro exI [of _ i]) (simp add: attempt_correct_def Let_def)
    next
      case False
      then show ?thesis unfolding r using a
        by (intro exI [of _ "Suc i"]) (auto simp: attempt_correct_def Let_def split: option.splits)
    qed
  qed
qed

lemma retry_effect:
  assumes "config_api_ok api" "versions_fresh api others"
  shows "\<exists>n \<le> steps. let b = fold others [0..<n] s; r = retry_on_conflict (attempt api) others 0 steps s in
    if at_error r = None then stored_data api (at_state r) = effect (stored_data api b)
    else at_state r = b \<and> at_write r = None"
proof -
  obtain n where "n \<le> 0 + steps" "let b = fold others [0..<n] s; r = retry_on_conflict (attempt api) others 0 steps s in
    if at_error r = None
    then (at_write r = Some (b, at_state r) \<or> at_write r = None \<and> at_state r = b) \<and>
      stored_data api (at_state r) = effect (stored_data api b)
    else at_state r = b \<and> at_write r = None"
    using retry_linearizes [OF assms] by blast
  then show ?thesis by (intro exI [of _ n]) (simp add: Let_def)
qed

end

lemma own_write_correct:
  assumes "\<And>s'. r = (s', None) \<Longrightarrow> stored_data api s' = effect (stored_data api (step s))"
    and "\<And>s' e. r = (s', Some e) \<Longrightarrow> s' = step s"
  shows "attempt_correct api effect step s (own_write (step s) r)"
  using assms by (cases r; cases "snd r") (auto simp: own_write_def attempt_correct_def)

lemma update_effect:
  assumes "config_api_ok api" "versions_fresh api others" "api_get api s = KubeOk cm"
    and "api_update api (cm\<lparr>cm_data := d\<rparr>) (others i s) = (s', None)"
  shows "stored_data api (others i s) = cm_data cm" "stored_data api s' = d"
proof -
  have "api_stored api s = Some cm" using assms(1,3) unfolding config_api_ok_def by blast
  moreover have w: "map_option cm_version (api_stored api (others i s)) = Some (cm_version cm)"
      "map_option cm_data (api_stored api s') = Some d"
    using assms(1,4) unfolding config_api_ok_def by fastforce+
  ultimately show "stored_data api (others i s) = cm_data cm" "stored_data api s' = d"
    using assms(2) unfolding versions_fresh_def stored_data_def by fastforce+
qed

text \<open>The pattern of the attempts that change the data or create the ConfigMap with it.\<close>

definition modify_attempt ::
  "((string \<Rightarrow> string option) \<Rightarrow> string \<Rightarrow> string option) \<Rightarrow> 's config_api \<Rightarrow> ('s \<Rightarrow> 's) \<Rightarrow> 's \<Rightarrow> 's attempt" where
  "modify_attempt f api others s =
     (case api_get api s of
        KubeError \<Rightarrow> Attempt s (Some WOther) None
      | KubeNotFound \<Rightarrow>
          (let s = others s; r = api_create api (f Map.empty) s
           in case snd r of
                Some WAlreadyExists \<Rightarrow> Attempt (fst r) (Some WConflict) None
              | _ \<Rightarrow> own_write s r)
      | KubeOk cm \<Rightarrow>
          (let s = others s in own_write s (api_update api (cm\<lparr>cm_data := f (cm_data cm)\<rparr>) s)))"

lemma modify_attempt_correct:
  assumes "config_api_ok api" "versions_fresh api others"
  shows "attempt_correct api f (others i) s (modify_attempt f api (others i) s)"
proof (cases "api_get api s")
  case (KubeOk cm)
  let ?cm = "cm\<lparr>cm_data := f (cm_data cm)\<rparr>"
  have "attempt_correct api f (others i) s (own_write (others i s) (api_update api ?cm (others i s)))"
  proof (rule own_write_correct)
    show "stored_data api s' = f (stored_data api (others i s))" if "api_update api ?cm (others i s) = (s', None)" for s'
      using update_effect [OF assms KubeOk that] by simp
    show "s' = others i s" if "api_update api ?cm (others i s) = (s', Some e)" for s' e
      using assms(1) that unfolding config_api_ok_def by blast
  qed
  then show ?thesis using KubeOk by (simp add: modify_attempt_def Let_def)
next
  case KubeNotFound
  let ?create = "api_create api (f Map.empty) (others i s)"
  have created: "stored_data api s' = f (stored_data api (others i s))" if "?create = (s', None)" for s'
  proof -
    have "api_stored api (others i s) = None" "map_option cm_data (api_stored api s') = Some (f Map.empty)"
      using assms(1) that unfolding config_api_ok_def by blast+
    then show ?thesis by (auto simp: stored_data_def)
  qed
  have failed: "s' = others i s" if "?create = (s', Some e)" for s' e
    using assms(1) that unfolding config_api_ok_def by blast
  have own: "attempt_correct api f (others i) s (own_write (others i s) ?create)"
    by (rule own_write_correct) (fact created failed)+
  show ?thesis
  proof (cases "snd ?create = Some WAlreadyExists")
    case True
    then have "fst ?create = others i s" using failed by (metis prod.collapse)
    then show ?thesis using KubeNotFound True by (simp add: modify_attempt_def Let_def attempt_correct_def)
  next
    case False
    then have "modify_attempt f api (others i) s = own_write (others i s) ?create"
      using KubeNotFound by (auto simp: modify_attempt_def Let_def split: option.splits write_error.splits)
    then show ?thesis using own by simp
  qed
qed (simp add: modify_attempt_def attempt_correct_def)

lemma upsert_modifies: "upsert_attempt api data = modify_attempt (\<lambda>d. d ++ data) api"
  by (intro ext) (simp add: upsert_attempt_def modify_attempt_def split: kube_reply.split)

lemma upsert_attempt_correct:
  assumes "config_api_ok api" "versions_fresh api others"
  shows "attempt_correct api (\<lambda>d. d ++ data) (others i) s (upsert_attempt api data (others i) s)"
  unfolding upsert_modifies by (rule modify_attempt_correct [OF assms])

lemma delete_attempt_correct:
  assumes "config_api_ok api" "versions_fresh api others"
  shows "attempt_correct api (\<lambda>d. d(key := None)) (others i) s (delete_attempt api key (others i) s)"
proof (cases "api_get api s")
  case (KubeOk cm)
  let ?cm = "cm\<lparr>cm_data := (cm_data cm)(key := None)\<rparr>"
  have stored: "stored_data api s = cm_data cm"
    using assms(1) KubeOk unfolding config_api_ok_def stored_data_def by fastforce
  have "attempt_correct api (\<lambda>d. d(key := None)) (others i) s (own_write (others i s) (api_update api ?cm (others i s)))"
  proof (rule own_write_correct)
    show "stored_data api s' = (stored_data api (others i s))(key := None)" if "api_update api ?cm (others i s) = (s', None)" for s'
      unfolding update_effect [OF assms KubeOk that] by (rule refl)
    show "s' = others i s" if "api_update api ?cm (others i s) = (s', Some e)" for s' e
      using assms(1) that unfolding config_api_ok_def by blast
  qed
  then show ?thesis using KubeOk stored
    by (cases "cm_data cm key") (simp_all add: delete_attempt_def Let_def, simp add: attempt_correct_def fun_upd_idem)
next
  case KubeNotFound
  then have "stored_data api s = Map.empty"
    using assms(1) unfolding config_api_ok_def stored_data_def by fastforce
  then show ?thesis using KubeNotFound by (simp add: delete_attempt_def attempt_correct_def fun_upd_idem)
qed (simp add: delete_attempt_def attempt_correct_def)

interpretation upsert: config_write "\<lambda>api. upsert_attempt api data" "\<lambda>d. d ++ data" for data
  by unfold_locales (rule upsert_attempt_correct)

interpretation delete: config_write "\<lambda>api. delete_attempt api key" "\<lambda>d. d(key := None)" for key
  by unfold_locales (rule delete_attempt_correct)

lemma load_entries_snoc:
  "load_entries f (data @ [e]) = (case f e of None \<Rightarrow> load_entries f data | Some (k, v) \<Rightarrow> (load_entries f data)(k \<mapsto> v))"
  unfolding load_entries_def by simp

lemma load_entries_none:
  "(\<And>e v. e \<in> set data \<Longrightarrow> f e \<noteq> Some (k, v)) \<Longrightarrow> load_entries f data k = None"
  by (induction data rule: rev_induct) (auto simp: load_entries_snoc load_entries_def split: option.splits)

lemma load_entries_some:
  assumes "e \<in> set data" "f e = Some (k, v)" "\<And>e' v'. e' \<in> set data \<Longrightarrow> f e' = Some (k, v') \<Longrightarrow> v' = v"
  shows "load_entries f data k = Some v"
  using assms
proof (induction data rule: rev_induct)
  case (snoc x data)
  have others: "v' = v" if "e' \<in> set data" "f e' = Some (k, v')" for e' v'
    using snoc.prems(3) [of e' v'] that by simp
  show ?case
  proof (cases "\<exists>v'. f x = Some (k, v')")
    case True
    then show ?thesis using snoc.prems(3) [of x] by (auto simp: load_entries_snoc)
  next
    case False
    then have "e \<in> set data" using snoc.prems(1,2) by auto
    then have "load_entries f data k = Some v" using snoc.IH snoc.prems(2) others by blast
    then show ?thesis using False by (auto simp: load_entries_snoc split: option.splits)
  qed
qed simp

section \<open>Properties\<close>


text \<open>An API server with one ConfigMap, and another client that writes a key of its own
  during the first attempt.\<close>

definition sample_api :: "config_map option config_api" where
  "sample_api = \<lparr>api_get = (\<lambda>s. case s of None \<Rightarrow> KubeNotFound | Some cm \<Rightarrow> KubeOk cm),
     api_create = (\<lambda>d s. case s of None \<Rightarrow> (Some \<lparr>cm_version = 1, cm_data = d\<rparr>, None) | Some _ \<Rightarrow> (s, Some WAlreadyExists)),
     api_update = (\<lambda>cm s. case s of None \<Rightarrow> (s, Some WNotFound)
        | Some cur \<Rightarrow> if cm_version cur = cm_version cm then (Some (cm\<lparr>cm_version := Suc (cm_version cm)\<rparr>), None)
            else (s, Some WConflict)),
     api_stored = (\<lambda>s. s)\<rparr>"

definition sample_other :: "nat \<Rightarrow> config_map option \<Rightarrow> config_map option" where
  "sample_other i s = (if i = 0 then map_option (\<lambda>cm. \<lparr>cm_version = Suc (cm_version cm), cm_data = (cm_data cm)(''b'' \<mapsto> ''2'')\<rparr>) s else s)"

lemma sample_api_ok: "config_api_ok sample_api" "versions_fresh sample_api sample_other"
  by (auto simp: config_api_ok_def versions_fresh_def sample_api_def sample_other_def
      split: option.splits if_splits)

lemmas sample_api_simps = sample_api_def sample_other_def upsert_config_map_data_def delete_config_map_key_def
  upsert_attempt_def delete_attempt_def own_write_def Let_def stored_data_def


text \<open>Deletion of a key: when \<open>DeleteConfigMapKey\<close> reports success the key is gone and
  every other key is as the other clients left it; a call that reports an error has
  changed nothing.\<close>

lemma delete_key_exact:
  assumes "config_api_ok api" "versions_fresh api others"
  shows "\<exists>n \<le> steps. let b = fold others [0..<n] s; r = delete_config_map_key api True steps others key s in
    if at_error r = None
    then stored_data api (at_state r) = (stored_data api b)(key := None)
    else at_state r = b \<and> at_write r = None"
  using delete.retry_effect [OF assms] unfolding delete_config_map_key_def by simp

lemma delete_key_exact_witness:
  "\<exists>r. delete_config_map_key sample_api True 5 sample_other ''a'' (Some \<lparr>cm_version = 1, cm_data = [''a'' \<mapsto> ''1'']\<rparr>) = r \<and>
     at_error r = None \<and> stored_data sample_api (at_state r) ''b'' = Some ''2'' \<and>
     (\<exists>n \<le> 5. stored_data sample_api (at_state r) =
        (stored_data sample_api (fold sample_other [0..<n] (Some \<lparr>cm_version = 1, cm_data = [''a'' \<mapsto> ''1'']\<rparr>)))(''a'' := None))"
proof -
  let ?r = "delete_config_map_key sample_api True 5 sample_other ''a'' (Some \<lparr>cm_version = 1, cm_data = [''a'' \<mapsto> ''1'']\<rparr>)"
  have "at_error ?r = None" "stored_data sample_api (at_state ?r) ''b'' = Some ''2''"
    by (simp_all add: sample_api_simps numeral_eq_Suc)
  then show ?thesis
    using delete_key_exact [OF sample_api_ok, of 5 "Some \<lparr>cm_version = 1, cm_data = [''a'' \<mapsto> ''1'']\<rparr>" "''a''"]
    by (auto simp: Let_def)
qed

end
