(* ===== verification/Sticky_Attachment.thy ===== *)
theory Sticky_Attachment
  imports Config_Store "HOL-Library.AList" "HOL-Library.List_Lexorder" "HOL-Library.Char_ord"
begin

text \<open>
  The manager of sticky attachments (\<open>driver/sticky_attachment.go\<close>): detaches that are
  held back for a grace period, kept in memory and in a ConfigMap.  The encoded form of
  an entry is a type variable, the encoder and decoder are arguments; the outcome of
  each ConfigMap write is an argument too, with the case that a write reported as
  failed was stored.  Maps that the code iterates over are association lists in
  iteration order.
\<close>

record sticky_state =
  sa_volume :: string
  sa_node :: string
  sa_backend :: string
  sa_datastore :: int
  sa_pvc_namespace :: string
  sa_pvc_name :: string
  sa_started_at :: go_time
  sa_expires_at :: go_time
  sa_grace_seconds :: int
  sa_reason :: string
  sa_node_ready :: bool

text \<open>The entries in memory and the data of the ConfigMap.\<close>

record 'r sticky_manager =
  sm_enabled :: bool
  sm_entries :: "(string \<times> sticky_state) list"
  sm_config :: "(string \<times> 'r) list"

definition put_entry :: "sticky_state \<Rightarrow> 'r sticky_manager \<Rightarrow> 'r sticky_manager" where
  "put_entry st m = m\<lparr>sm_entries := AList.update (sa_volume st) st (sm_entries m)\<rparr>"

definition drop_entry :: "string \<Rightarrow> 'r sticky_manager \<Rightarrow> 'r sticky_manager" where
  "drop_entry vol m = m\<lparr>sm_entries := AList.delete vol (sm_entries m)\<rparr>"

definition persist_entry ::
  "(sticky_state \<Rightarrow> 'r) \<Rightarrow> write_outcome \<Rightarrow> sticky_state \<Rightarrow> 'r sticky_manager \<Rightarrow> bool \<times> 'r sticky_manager" where
  "persist_entry encode w st m =
     (if \<not> sm_enabled m then (False, m)
      else (write_failed w,
            if w = Rejected then m else m\<lparr>sm_config := AList.update (sa_volume st) (encode st) (sm_config m)\<rparr>))"

definition delete_entry :: "write_outcome \<Rightarrow> string \<Rightarrow> 'r sticky_manager \<Rightarrow> bool \<times> 'r sticky_manager" where
  "delete_entry w vol m =
     (if \<not> sm_enabled m then (False, m)
      else (write_failed w, if w = Rejected then m else m\<lparr>sm_config := AList.delete vol (sm_config m)\<rparr>))"

text \<open>The operations return whether they report an error.\<close>

definition start_grace ::
  "(sticky_state \<Rightarrow> 'r) \<Rightarrow> write_outcome \<Rightarrow> sticky_state \<Rightarrow> 'r sticky_manager \<Rightarrow> bool \<times> 'r sticky_manager" where
  "start_grace encode w st m =
     (if trim_space (sa_volume st) = [] then (True, m)
      else (let (err, m) = persist_entry encode w st (put_entry st m)
            in if err then (True, drop_entry (sa_volume st) m) else (False, m)))"

definition sticky_get :: "string \<Rightarrow> 'r sticky_manager \<Rightarrow> sticky_state option" where
  "sticky_get vol m = map_of (sm_entries m) vol"

definition sticky_clear :: "write_outcome \<Rightarrow> string \<Rightarrow> 'r sticky_manager \<Rightarrow> bool \<times> 'r sticky_manager" where
  "sticky_clear w vol m =
     (if trim_space vol = [] then (False, m) else delete_entry w vol (drop_entry vol m))"

definition sticky_update ::
  "(sticky_state \<Rightarrow> 'r) \<Rightarrow> write_outcome \<Rightarrow> sticky_state \<Rightarrow> 'r sticky_manager \<Rightarrow> bool \<times> 'r sticky_manager" where
  "sticky_update encode w st m =
     (if trim_space (sa_volume st) = [] then (True, m)
      else (let previous = map_of (sm_entries m) (sa_volume st);
                (err, m) = persist_entry encode w st (put_entry st m)
            in if \<not> err then (False, m)
               else (True, case previous of
                             Some p \<Rightarrow> m\<lparr>sm_entries := AList.update (sa_volume st) p (sm_entries m)\<rparr>
                           | None \<Rightarrow> drop_entry (sa_volume st) m)))"

definition list_expired :: "go_time \<Rightarrow> 'r sticky_manager \<Rightarrow> sticky_state list" where
  "list_expired now m = filter (\<lambda>e. \<not> now < sa_expires_at e) (map snd (sm_entries m))"

definition list_by_reason :: "string \<Rightarrow> 'r sticky_manager \<Rightarrow> sticky_state list" where
  "list_by_reason reason m =
     sort_key sa_volume (filter (\<lambda>e. trim_space (sa_reason e) = trim_space reason) (map snd (sm_entries m)))"

definition sticky_load_entry ::
  "('r \<Rightarrow> sticky_state option) \<Rightarrow> (string \<times> sticky_state) list \<Rightarrow> string \<times> 'r \<Rightarrow> (string \<times> sticky_state) list" where
  "sticky_load_entry decode loaded e =
     (case decode (snd e) of
        None \<Rightarrow> loaded
      | Some st \<Rightarrow>
          (let st = (if trim_space (sa_volume st) = [] then st\<lparr>sa_volume := fst e\<rparr> else st)
           in AList.update (sa_volume st) st loaded))"

text \<open>\<open>LoadFromConfigMap\<close> reads the ConfigMap and, later, replaces the entries: the two
  parts are separate because other operations may run in between.\<close>

definition sticky_load_read ::
  "('r \<Rightarrow> sticky_state option) \<Rightarrow> (string \<times> 'r) list \<Rightarrow> (string \<times> sticky_state) list" where
  "sticky_load_read decode data = foldl (sticky_load_entry decode) [] data"

definition sticky_load_install :: "(string \<times> sticky_state) list \<Rightarrow> 'r sticky_manager \<Rightarrow> 'r sticky_manager" where
  "sticky_load_install loaded m = m\<lparr>sm_entries := loaded\<rparr>"

definition sticky_load ::
  "('r \<Rightarrow> sticky_state option) \<Rightarrow> (string \<times> 'r) list kube_reply \<Rightarrow> 'r sticky_manager \<Rightarrow> bool \<times> 'r sticky_manager" where
  "sticky_load decode reply m =
     (if \<not> sm_enabled m then (False, m)
      else (case reply of
              KubeNotFound \<Rightarrow> (False, m)
            | KubeError \<Rightarrow> (True, m)
            | KubeOk data \<Rightarrow> (False, sticky_load_install (sticky_load_read decode data) m)))"

section \<open>Runs of operations\<close>

datatype sticky_op =
    OpStart write_outcome sticky_state
  | OpUpdate write_outcome sticky_state
  | OpClear write_outcome string
  | OpReload

definition sticky_step ::
  "(sticky_state \<Rightarrow> 'r) \<Rightarrow> ('r \<Rightarrow> sticky_state option) \<Rightarrow> sticky_op \<Rightarrow> 'r sticky_manager \<Rightarrow> 'r sticky_manager" where
  "sticky_step encode decode op m =
     (case op of
        OpStart w st \<Rightarrow> snd (start_grace encode w st m)
      | OpUpdate w st \<Rightarrow> snd (sticky_update encode w st m)
      | OpClear w vol \<Rightarrow> snd (sticky_clear w vol m)
      | OpReload \<Rightarrow> snd (sticky_load decode (KubeOk (sm_config m)) m))"

definition new_sticky_manager :: "'r sticky_manager" where
  "new_sticky_manager = \<lparr>sm_enabled = True, sm_entries = [], sm_config = []\<rparr>"

definition sticky_run ::
  "(sticky_state \<Rightarrow> 'r) \<Rightarrow> ('r \<Rightarrow> sticky_state option) \<Rightarrow> sticky_op list \<Rightarrow> 'r sticky_manager" where
  "sticky_run encode decode ops = foldl (\<lambda>m op. sticky_step encode decode op m) new_sticky_manager ops"

section \<open>Invariant\<close>

text \<open>Keys are unique, the ConfigMap holds encoded entries under their own volume, an entry
  in memory is stored under its own volume and has a counterpart in the ConfigMap.
  With \<open>exact\<close> the counterpart is its encoding.\<close>

definition config_ok :: "(sticky_state \<Rightarrow> 'r) \<Rightarrow> (string \<times> 'r) list \<Rightarrow> bool" where
  "config_ok encode cm \<longleftrightarrow> distinct (map fst cm) \<and>
     (\<forall>k raw. map_of cm k = Some raw \<longrightarrow> (\<exists>st. raw = encode st \<and> sa_volume st = k \<and> trim_space k \<noteq> []))"

definition sticky_inv :: "bool \<Rightarrow> (sticky_state \<Rightarrow> 'r) \<Rightarrow> 'r sticky_manager \<Rightarrow> bool" where
  "sticky_inv exact encode m \<longleftrightarrow> sm_enabled m \<and> distinct (map fst (sm_entries m)) \<and> config_ok encode (sm_config m) \<and>
     (\<forall>vol st. map_of (sm_entries m) vol = Some st \<longrightarrow> sa_volume st = vol \<and>
        (if exact then map_of (sm_config m) vol = Some (encode st) else map_of (sm_config m) vol \<noteq> None))"

fun definite :: "sticky_op \<Rightarrow> bool" where
  "definite (OpStart w st) = (w \<noteq> WrittenButFailed)"
| "definite (OpUpdate w st) = (w \<noteq> WrittenButFailed)"
| "definite (OpClear w vol) = (w \<noteq> WrittenButFailed)"
| "definite OpReload = True"

lemma config_ok_update:
  "config_ok encode cm \<Longrightarrow> trim_space (sa_volume st) \<noteq> [] \<Longrightarrow> config_ok encode (AList.update (sa_volume st) (encode st) cm)"
  by (auto simp: config_ok_def distinct_update update_conv')

lemma config_ok_delete: "config_ok encode cm \<Longrightarrow> config_ok encode (AList.delete vol cm)"
  by (auto simp: config_ok_def distinct_delete delete_conv')

lemmas sticky_defs = put_entry_def drop_entry_def persist_entry_def delete_entry_def Let_def write_failed_def

lemma start_grace_inv:
  assumes "sticky_inv exact encode m" "exact \<longrightarrow> w \<noteq> WrittenButFailed"
  shows "sticky_inv exact encode (snd (start_grace encode w st m))"
  using assms
  by (cases w) (auto simp: start_grace_def sticky_inv_def sticky_defs distinct_update distinct_delete
      update_conv' delete_conv' config_ok_update config_ok_delete simp del: map_of_eq_Some_iff)

lemma sticky_clear_inv:
  assumes "sticky_inv exact encode m" "exact \<longrightarrow> w \<noteq> WrittenButFailed"
  shows "sticky_inv exact encode (snd (sticky_clear w vol m))"
  using assms
  by (cases w) (auto simp: sticky_clear_def sticky_inv_def sticky_defs distinct_update distinct_delete
      update_conv' delete_conv' config_ok_update config_ok_delete simp del: map_of_eq_Some_iff)

lemma sticky_update_inv:
  assumes "sticky_inv exact encode m" "exact \<longrightarrow> w \<noteq> WrittenButFailed"
  shows "sticky_inv exact encode (snd (sticky_update encode w st m))"
  using assms
  by (cases w; cases "map_of (sm_entries m) (sa_volume st)")
    (auto simp: sticky_update_def sticky_inv_def sticky_defs distinct_update distinct_delete
      update_conv' delete_conv' config_ok_update config_ok_delete simp del: map_of_eq_Some_iff)

lemma sticky_load_read_lookup:
  assumes "\<And>st. decode (encode st) = Some st" "config_ok encode data"
  shows "distinct (map fst (sticky_load_read decode data)) \<and>
    (\<forall>k st. map_of (sticky_load_read decode data) k = Some st \<longleftrightarrow> map_of data k = Some (encode st) \<and> sa_volume st = k)"
  using assms(2)
proof (induction data rule: rev_induct)
  case Nil
  then show ?case by (simp add: sticky_load_read_def)
next
  case (snoc e data)
  obtain k raw where e: "e = (k, raw)" by fastforce
  have fresh: "k \<notin> fst ` set data" "distinct (map fst data)" using snoc.prems e by (auto simp: config_ok_def)
  have at: "map_of (data @ [e]) k' = (if k' = k then Some raw else map_of data k')" for k'
    using fresh by (auto simp: e map_add_def map_of_eq_None_iff [symmetric] split: option.splits)
  then obtain st where st: "raw = encode st" "sa_volume st = k" "trim_space k \<noteq> []"
    using snoc.prems unfolding config_ok_def by metis
  have "config_ok encode data"
    using snoc.prems fresh at unfolding config_ok_def by (metis domI dom_map_of_conv_image_fst)
  then have IH: "distinct (map fst (sticky_load_read decode data))"
      "\<And>k st. map_of (sticky_load_read decode data) k = Some st \<longleftrightarrow> map_of data k = Some (encode st) \<and> sa_volume st = k"
    using snoc.IH by blast+
  have run: "sticky_load_read decode (data @ [e]) = AList.update k st (sticky_load_read decode data)"
    using assms(1) st by (simp add: sticky_load_read_def sticky_load_entry_def e)
  have inj: "encode st = encode st' \<longleftrightarrow> st = st'" for st' using assms(1) by (metis option.inject)
  show ?case unfolding run at using IH st inj by (auto simp: distinct_update update_conv')
qed

lemma sticky_reload_inv:
  assumes "\<And>st. decode (encode st) = Some st" "sticky_inv exact encode m"
  shows "sticky_inv exact encode (snd (sticky_load decode (KubeOk (sm_config m)) m))"
  using sticky_load_read_lookup [of decode encode, OF assms(1)] assms(2)
  by (auto simp: sticky_load_def sticky_load_install_def sticky_inv_def simp del: map_of_eq_Some_iff)

lemma sticky_run_inv:
  assumes "\<And>st. decode (encode st) = Some st" "exact \<longrightarrow> list_all definite ops"
  shows "sticky_inv exact encode (sticky_run encode decode ops)"
  using assms(2)
proof (induction ops rule: rev_induct)
  case Nil
  show ?case by (simp add: sticky_run_def sticky_inv_def config_ok_def new_sticky_manager_def)
next
  case (snoc op ops)
  have "sticky_inv exact encode (sticky_run encode decode ops)" using snoc by simp
  moreover have "sticky_run encode decode (ops @ [op]) = sticky_step encode decode op (sticky_run encode decode ops)"
    by (simp add: sticky_run_def)
  moreover have "exact \<longrightarrow> definite op" using snoc.prems by simp
  ultimately show ?case using sticky_reload_inv [of decode encode, OF assms(1)]
    by (cases op) (auto simp: sticky_step_def intro!: start_grace_inv sticky_update_inv sticky_clear_inv)
qed

section \<open>Properties\<close>


definition sample_hold :: "string \<Rightarrow> go_time \<Rightarrow> sticky_state" where
  "sample_hold vol t = \<lparr>sa_volume = vol, sa_node = ''n1'', sa_backend = ''disk'', sa_datastore = 1, sa_pvc_namespace = ''d'',
     sa_pvc_name = ''p'', sa_started_at = 1, sa_expires_at = t, sa_grace_seconds = 90, sa_reason = ''restart'',
     sa_node_ready = True\<rparr>"

text \<open>A hold whose extension is rejected keeps its first deadline.\<close>

definition sample_ops :: "sticky_op list" where
  "sample_ops = [OpStart Written (sample_hold ''7'' 50), OpStart Rejected (sample_hold ''8'' 60),
     OpUpdate Rejected (sample_hold ''7'' 90), OpClear Written ''8'']"


text \<open>The reaper sees every expired hold once: the list of expired entries holds exactly
  the entries in memory whose deadline is not after \<open>now\<close>, each volume at most once.\<close>

lemma list_expired_complete:
  assumes json: "\<And>st. decode (encode st) = Some st" and m: "m = sticky_run encode decode ops"
  shows "(st \<in> set (list_expired now m) \<longleftrightarrow> sticky_get (sa_volume st) m = Some st \<and> sa_expires_at st \<le> now) \<and>
    distinct (map sa_volume (list_expired now m))"
proof -
  have inv: "sticky_inv False encode m" unfolding m by (rule sticky_run_inv) (simp_all add: json)
  then have d: "distinct (map fst (sm_entries m))" and own: "\<And>vol st. (vol, st) \<in> set (sm_entries m) \<Longrightarrow> sa_volume st = vol"
    by (auto simp: sticky_inv_def)
  have keys: "map sa_volume (map snd (sm_entries m)) = map fst (sm_entries m)"
    by (rule nth_equalityI) (use own in \<open>simp, metis length_map nth_map nth_mem prod.collapse\<close>)
  have "distinct (map sa_volume (map snd (sm_entries m)))" unfolding keys by (rule d)
  then have "distinct (map sa_volume (list_expired now m))" unfolding list_expired_def by (rule distinct_map_filter)
  moreover have "st \<in> set (map snd (sm_entries m)) \<longleftrightarrow> (sa_volume st, st) \<in> set (sm_entries m)"
  proof
    assume "st \<in> set (map snd (sm_entries m))"
    then obtain vol where vol: "(vol, st) \<in> set (sm_entries m)" by auto
    show "(sa_volume st, st) \<in> set (sm_entries m)" using own [OF vol] vol by simp
  qed (metis image_eqI image_set snd_conv)
  ultimately show ?thesis using d by (auto simp: list_expired_def sticky_get_def)
qed

lemma list_expired_complete_witness:
  "sample_hold ''7'' 50 \<in> set (list_expired 50 (sticky_run id Some [OpStart Written (sample_hold ''7'' 50)]))"
proof -
  have "trim_space ''7'' = ''7''" by (simp add: trim_space_def is_space_def)
  then have "sticky_get ''7'' (sticky_run id Some [OpStart Written (sample_hold ''7'' 50)]) = Some (sample_hold ''7'' 50)"
    by (simp add: sticky_run_def sticky_step_def start_grace_def sticky_defs sample_hold_def new_sticky_manager_def sticky_get_def)
  moreover have "sa_volume (sample_hold ''7'' 50) = ''7''" "sa_expires_at (sample_hold ''7'' 50) = 50"
    by (simp_all add: sample_hold_def)
  ultimately show ?thesis
    using list_expired_complete [of Some id _ "[OpStart Written (sample_hold ''7'' 50)]" "sample_hold ''7'' 50" 50, OF _ refl]
    by simp
qed

section \<open>A stale reload\<close>

text \<open>A reload whose read happened before a hold was started, and which installs its result
  afterwards, removes the hold from memory while the ConfigMap still has it.\<close>

lemma stale_reload_drops_hold:
  "let st = sample_hold ''7'' 50; read = sticky_load_read Some (sm_config new_sticky_manager);
       m = snd (start_grace id Written st new_sticky_manager); m' = sticky_load_install read m
   in sticky_get ''7'' m = Some st \<and> sticky_get ''7'' m' = None \<and> map_of (sm_config m') ''7'' = Some st"
  by (simp add: sticky_load_read_def start_grace_def sticky_defs sample_hold_def new_sticky_manager_def sticky_get_def
      sticky_load_install_def trim_space_def is_space_def)

end
