(* ===== verification/Kube_Runtime.thy ===== *)
theory Kube_Runtime
  imports Identifiers Sticky_Attachment
begin

text \<open>
  What the driver reads from Kubernetes (\<open>driver/runtime_k8s.go\<close>): the objects, the API as a
  record of calls, the runtime context of a volume, whether a volume is desired on a node,
  and the eligibility rules of \<open>driver/maintenance_mode.go\<close>,
  \<open>driver/admission_webhook.go\<close> and \<open>driver/controllerserver.go\<close> that depend on them.

  A call returns an error message or a value, and the next state of the outside world.
\<close>

section \<open>Objects\<close>

datatype access_mode = ReadWriteOnce | ReadWriteOncePod | ReadWriteMany | ReadOnlyMany

record persistent_volume =
  pv_name :: string
  pv_annotations :: str_map
  pv_access :: "access_mode list"
  pv_driver :: string
  pv_handle :: "string option"
  pv_claim :: "(string \<times> string) option"
  pv_deleting :: bool
  pv_phase :: string

record volume_attachment =
  va_name :: string
  va_pv :: "string option"
  va_node :: string
  va_attached :: bool
  va_deleting :: bool

text \<open>The claims a pod mounts.\<close>

record pod =
  pod_namespace :: string
  pod_node :: string
  pod_phase :: string
  pod_deleting :: bool
  pod_claims :: "string list"

record node_conditions =
  nc_unschedulable :: bool
  nc_ready :: "bool option"

type_synonym ('s, 'a) kube_call = "'s \<Rightarrow> (string + 'a) \<times> 's"

record 's kube_api =
  k_pvs :: "('s, persistent_volume list) kube_call"
  k_pv :: "string \<Rightarrow> 's \<Rightarrow> persistent_volume kube_reply \<times> 's"
  k_pvc :: "string \<Rightarrow> string \<Rightarrow> ('s, str_map) kube_call"
  k_vas :: "('s, volume_attachment list) kube_call"
  k_pods :: "string \<Rightarrow> ('s, pod list) kube_call"
  k_node :: "string \<Rightarrow> ('s, node_conditions) kube_call"
  k_delete_va :: "string \<Rightarrow> 's \<Rightarrow> unit kube_reply \<times> 's"
  k_patch_pv :: "string \<Rightarrow> string \<Rightarrow> string \<Rightarrow> ('s, unit) kube_call"

section \<open>Annotations\<close>

definition annotation_backend :: string where "annotation_backend = ''storage-provider.opennebula.io/backend''"
definition annotation_datastore_id :: string where "annotation_datastore_id = ''storage-provider.opennebula.io/datastore-id''"
definition annotation_last_attached_node :: string where
  "annotation_last_attached_node = ''storage-provider.opennebula.io/last-attached-node''"
definition annotation_restart_opt :: string where
  "annotation_restart_opt = ''storage-provider.opennebula.io/restart-optimization''"
definition annotation_detach_grace :: string where
  "annotation_detach_grace = ''storage-provider.opennebula.io/detach-grace-seconds''"
definition annotation_preferred_last_node :: string where
  "annotation_preferred_last_node = ''storage-provider.opennebula.io/preferred-last-node''"

definition restart_optimization_value :: string where "restart_optimization_value = ''sticky-local-restart-v1''"

text \<open>A missing key reads as the empty string; values are trimmed where they are used.\<close>

definition annotation :: "str_map \<Rightarrow> string \<Rightarrow> string" where
  "annotation m k = (case m k of None \<Rightarrow> [] | Some v \<Rightarrow> trim_space v)"

section \<open>The runtime context of a volume\<close>

record runtime_context =
  rt_pv :: string
  rt_namespace :: string
  rt_claim :: string
  rt_annotations :: str_map
  rt_access :: "access_mode list"
  rt_backend :: string
  rt_datastore :: int
  rt_restart_mode :: string
  rt_grace_hint :: int

definition number_or_zero :: "string \<Rightarrow> int" where
  "number_or_zero raw = (if raw = [] then 0 else (case atoi raw of None \<Rightarrow> 0 | Some n \<Rightarrow> n))"

definition context_of_pv :: "persistent_volume \<Rightarrow> runtime_context" where
  "context_of_pv pv =
     \<lparr>rt_pv = pv_name pv, rt_namespace = (case pv_claim pv of None \<Rightarrow> [] | Some (ns, _) \<Rightarrow> ns),
      rt_claim = (case pv_claim pv of None \<Rightarrow> [] | Some (_, n) \<Rightarrow> n), rt_annotations = pv_annotations pv,
      rt_access = pv_access pv, rt_backend = annotation (pv_annotations pv) annotation_backend,
      rt_datastore = number_or_zero (annotation (pv_annotations pv) annotation_datastore_id),
      rt_restart_mode = annotation (pv_annotations pv) annotation_restart_opt,
      rt_grace_hint = number_or_zero (annotation (pv_annotations pv) annotation_detach_grace)\<rparr>"

text \<open>The annotations of the claim fill in what the volume does not say.\<close>

definition with_claim_annotations :: "str_map \<Rightarrow> runtime_context \<Rightarrow> runtime_context" where
  "with_claim_annotations m rt =
     rt\<lparr>rt_restart_mode := (if rt_restart_mode rt = [] then annotation m annotation_restart_opt else rt_restart_mode rt),
        rt_grace_hint := (if rt_grace_hint rt = 0 then number_or_zero (annotation m annotation_detach_grace) else rt_grace_hint rt)\<rparr>"

definition resolve_runtime_context :: "bool \<Rightarrow> 's kube_api \<Rightarrow> string \<Rightarrow> ('s, runtime_context) kube_call" where
  "resolve_runtime_context enabled k handle s =
     (if \<not> enabled then (Inl ''kubernetes runtime is not enabled'', s)
      else if trim_space handle = [] then (Inl ''volume handle is required'', s)
      else (case k_pvs k s of
              (Inl e, s) \<Rightarrow> (Inl e, s)
            | (Inr pvs, s) \<Rightarrow>
                (case find (\<lambda>pv. pv_handle pv = Some handle) pvs of
                   None \<Rightarrow> (Inl (''persistent volume for handle '' @ handle @ '' not found''), s)
                 | Some pv \<Rightarrow>
                     (case pv_claim pv of
                        None \<Rightarrow> (Inr (context_of_pv pv), s)
                      | Some (ns, claim) \<Rightarrow>
                          (case k_pvc k ns claim s of
                             (Inl _, s) \<Rightarrow> (Inr (context_of_pv pv), s)
                           | (Inr m, s) \<Rightarrow> (Inr (with_claim_annotations m (context_of_pv pv)), s))))))"

section \<open>Is a volume desired on a node?\<close>

definition attachment_wants :: "string \<Rightarrow> string \<Rightarrow> volume_attachment \<Rightarrow> bool" where
  "attachment_wants pv node va \<longleftrightarrow>
     (case va_pv va of None \<Rightarrow> False | Some p \<Rightarrow> trim_space p = pv) \<and> trim_space (va_node va) = node \<and> \<not> va_deleting va"

definition pod_active :: "pod \<Rightarrow> bool" where
  "pod_active p \<longleftrightarrow> \<not> pod_deleting p \<and> pod_phase p \<notin> {''Succeeded'', ''Failed''}"

definition pod_wants :: "string \<Rightarrow> string \<Rightarrow> pod \<Rightarrow> bool" where
  "pod_wants claim node p \<longleftrightarrow>
     pod_active p \<and> trim_space (pod_node p) = node \<and> list_ex (\<lambda>c. trim_space c = claim) (pod_claims p)"

definition volume_desired_on_node :: "bool \<Rightarrow> 's kube_api \<Rightarrow> string \<Rightarrow> string \<Rightarrow> ('s, bool \<times> string) kube_call" where
  "volume_desired_on_node enabled k handle node s =
     (let node = trim_space node
      in if \<not> enabled then (Inl ''kubernetes runtime is not enabled'', s)
         else if trim_space handle = [] \<or> node = [] then (Inr (False, []), s)
         else (case resolve_runtime_context enabled k handle s of
                 (Inl e, s) \<Rightarrow> (Inl e, s)
               | (Inr rt, s) \<Rightarrow>
                   (case (if rt_pv rt = [] then (Inr [], s) else k_vas k s) of
                      (Inl e, s) \<Rightarrow> (Inl e, s)
                    | (Inr vas, s) \<Rightarrow>
                        if list_ex (attachment_wants (rt_pv rt) node) vas then (Inr (True, ''volume_attachment''), s)
                        else if rt_namespace rt = [] \<or> rt_claim rt = [] then (Inr (False, []), s)
                        else (case k_pods k (rt_namespace rt) s of
                                (Inl e, s) \<Rightarrow> (Inl e, s)
                              | (Inr pods, s) \<Rightarrow>
                                  if list_ex (pod_wants (rt_claim rt) node) pods then (Inr (True, ''active_pod''), s)
                                  else (Inr (False, []), s)))))"

definition kube_node_ready :: "bool \<Rightarrow> 's kube_api \<Rightarrow> string \<Rightarrow> ('s, bool) kube_call" where
  "kube_node_ready enabled k node s =
     (if \<not> enabled then (Inl ''kubernetes runtime is not enabled'', s)
      else (case k_node k node s of
              (Inl e, s) \<Rightarrow> (Inl e, s)
            | (Inr n, s) \<Rightarrow> (Inr (nc_ready n = Some True), s)))"

section \<open>Eligibility\<close>

definition has_single_writer :: "access_mode list \<Rightarrow> bool" where
  "has_single_writer modes \<longleftrightarrow>
     \<not> list_ex (\<lambda>m. m = ReadWriteMany \<or> m = ReadOnlyMany) modes \<and> list_ex (\<lambda>m. m = ReadWriteOnce \<or> m = ReadWriteOncePod) modes"

definition eligible_for_maintenance :: "runtime_context \<Rightarrow> string \<Rightarrow> bool" where
  "eligible_for_maintenance rt volume \<longleftrightarrow>
     equal_fold (trim_space (rt_backend rt)) ''local'' \<and> \<not> is_shared_volume_id volume \<and> has_single_writer (rt_access rt)"

definition default_driver_name :: string where "default_driver_name = ''csi.opennebula.io''"

definition eligible_for_last_node :: "persistent_volume \<Rightarrow> bool" where
  "eligible_for_last_node pv \<longleftrightarrow>
     (case pv_handle pv of
        None \<Rightarrow> False
      | Some h \<Rightarrow>
          trim_space (pv_driver pv) = default_driver_name \<and>
          equal_fold (annotation (pv_annotations pv) annotation_backend) ''local'' \<and>
          has_single_writer (pv_access pv) \<and> \<not> is_shared_volume_id h)"

text \<open>The grace a detach is delayed by: the hint or the default, at least 30 seconds and at most
  the maximum.\<close>

definition positive_default :: "int option \<Rightarrow> int \<Rightarrow> int" where
  "positive_default x d = (case x of Some n \<Rightarrow> if n \<le> 0 then d else n | None \<Rightarrow> d)"

definition effective_grace_seconds :: "int option \<Rightarrow> int option \<Rightarrow> runtime_context option \<Rightarrow> int" where
  "effective_grace_seconds default_cfg max_cfg rt =
     (let default_grace = positive_default default_cfg 90; max_grace = positive_default max_cfg 300;
          grace = (case rt of Some c \<Rightarrow> if 0 < rt_grace_hint c then rt_grace_hint c else default_grace | None \<Rightarrow> default_grace);
          grace = (if grace < 30 then 30 else grace)
      in if grace > max_grace then max_grace else grace)"

section \<open>Lemmas\<close>

lemma effective_grace_bounds:
  "0 < effective_grace_seconds d m rt" "effective_grace_seconds d m rt \<le> positive_default m 300"
  "30 \<le> positive_default m 300 \<Longrightarrow> 30 \<le> effective_grace_seconds d m rt"
  by (auto simp: effective_grace_seconds_def positive_default_def Let_def split: option.splits)

lemma eligible_not_shared: "eligible_for_maintenance rt v \<Longrightarrow> \<not> is_shared_volume_id v"
  by (simp add: eligible_for_maintenance_def)

end
