(* ===== verification/Maintenance_Mode.thy ===== *)
theory Maintenance_Mode
  imports Kube_Runtime
begin

text \<open>
  Maintenance mode (\<open>driver/maintenance_mode.go\<close>): the switch in the ConfigMap, the preparation
  of volumes, the holds while the mode is on and their staggered release afterwards.

  The ConfigMap is the map of its keys; writes take a \<^typ>\<open>write_outcome\<close> each, in the order
  the code makes them.  The lemmas show which volumes count as attached twice, that the
  delays of a release stay within the configured bounds and never decrease, and that a
  release reschedules every hold.
\<close>

section \<open>The switch\<close>

record maintenance =
  mm_active :: bool
  mm_ready :: bool
  mm_alias :: bool

definition mode_key :: string where "mode_key = ''maintainenceMode''"
definition mode_alias_key :: string where "mode_alias_key = ''maintenanceMode''"
definition ready_key :: string where "ready_key = ''maintainenceReady''"
definition ready_alias_key :: string where "ready_alias_key = ''maintenanceReady''"
definition sticky_reason :: string where "sticky_reason = ''maintenance_mode''"
definition release_reason :: string where "release_reason = ''maintenance_release''"

definition parse_maintenance_bool :: "string \<Rightarrow> bool" where
  "parse_maintenance_bool raw \<longleftrightarrow> to_lower (trim_space raw) \<in> set [''true'', ''1'', ''yes'', ''y'', ''on'']"

definition maintenance_mode_active :: "str_map \<Rightarrow> bool \<times> bool" where
  "maintenance_mode_active data =
     (let active = (case data mode_key of None \<Rightarrow> False | Some raw \<Rightarrow> parse_maintenance_bool raw)
      in case data mode_alias_key of
           None \<Rightarrow> (active, False)
         | Some raw \<Rightarrow> (active \<or> parse_maintenance_bool raw, True))"

definition set_mode :: "bool \<Rightarrow> bool \<Rightarrow> bool \<Rightarrow> maintenance \<Rightarrow> maintenance" where
  "set_mode active ready alias m = \<lparr>mm_active = active, mm_ready = ready, mm_alias = alias\<rparr>"

text \<open>\<open>publishReady\<close>: whether it failed, and the data.  Nothing is written when the keys are
  already as wanted, except that an unwanted alias is deleted.\<close>

definition publish_ready :: "str_map kube_reply \<Rightarrow> bool \<Rightarrow> write_outcome \<Rightarrow> str_map \<Rightarrow> bool \<times> str_map" where
  "publish_ready current alias w data =
     (let ready_set = (case current of KubeOk d \<Rightarrow> d ready_key = Some ''true'' | _ \<Rightarrow> False);
          alias_set = (case current of KubeOk d \<Rightarrow> \<not> alias \<or> d ready_alias_key = Some ''true'' | _ \<Rightarrow> False)
      in if ready_set \<and> alias_set
         then (if alias then (False, data) else (write_failed w, write_key w ready_alias_key None data))
         else (write_failed w,
               if alias then write_key w ready_alias_key (Some ''true'') (write_key w ready_key (Some ''true'') data)
               else write_key w ready_key (Some ''true'') data))"

definition clear_ready_keys :: "write_outcome \<Rightarrow> write_outcome \<Rightarrow> str_map \<Rightarrow> bool \<times> str_map" where
  "clear_ready_keys w w' data =
     (let data = write_key w ready_key None data
      in if write_failed w then (True, data) else (write_failed w', write_key w' ready_alias_key None data))"

section \<open>Preparation\<close>

text \<open>The node each volume is attached to, and the volumes attached to different nodes.\<close>

definition attached_step :: "(string \<rightharpoonup> string) \<times> string list \<Rightarrow> volume_attachment \<Rightarrow> (string \<rightharpoonup> string) \<times> string list" where
  "attached_step acc va =
     (let (attached, conflicts) = acc
      in case va_pv va of
           None \<Rightarrow> acc
         | Some p \<Rightarrow>
             let pv = trim_space p; node = trim_space (va_node va)
             in if pv = [] \<or> \<not> va_attached va \<or> va_deleting va \<or> node = [] then acc
                else (case attached pv of
                        Some previous \<Rightarrow>
                          if previous \<noteq> [] \<and> previous \<noteq> node then (attached, pv # conflicts) else (attached(pv \<mapsto> node), conflicts)
                      | None \<Rightarrow> (attached(pv \<mapsto> node), conflicts)))"

definition attached_nodes_by_pv :: "volume_attachment list \<Rightarrow> (string \<rightharpoonup> string) \<times> string list" where
  "attached_nodes_by_pv vas = foldl attached_step (Map.empty, []) vas"

definition preferred_node ::
  "'r sticky_manager \<Rightarrow> (string \<rightharpoonup> string) \<times> string list \<Rightarrow> persistent_volume \<Rightarrow> string option" where
  "preferred_node sticky att pv =
     (let (attached, conflicts) = att; preferred = annotation (pv_annotations pv) annotation_preferred_last_node;
          held = (case pv_handle pv of
                    None \<Rightarrow> []
                  | Some h \<Rightarrow> (case sticky_get h sticky of None \<Rightarrow> [] | Some st \<Rightarrow> trim_space (sa_node st)));
          now = (case attached (pv_name pv) of None \<Rightarrow> [] | Some n \<Rightarrow> trim_space n)
      in if pv_name pv \<in> set conflicts then None
         else if preferred \<noteq> [] then Some preferred
         else if held \<noteq> [] then Some held
         else if now \<noteq> [] then Some now
         else Some (annotation (pv_annotations pv) annotation_last_attached_node))"

record prepare_report =
  pr_protected :: nat
  pr_patched :: nat
  pr_skipped :: nat
  pr_conflicts :: nat

definition empty_report :: prepare_report where
  "empty_report = \<lparr>pr_protected = 0, pr_patched = 0, pr_skipped = 0, pr_conflicts = 0\<rparr>"

definition prepare_one ::
  "'s kube_api \<Rightarrow> 'r sticky_manager \<Rightarrow> (string \<rightharpoonup> string) \<times> string list \<Rightarrow> prepare_report \<times> 's \<Rightarrow> persistent_volume \<Rightarrow>
   prepare_report \<times> 's" where
  "prepare_one k sticky att acc pv =
     (let (rep, s) = acc
      in if \<not> eligible_for_last_node pv then acc
         else (case preferred_node sticky att pv of
                 None \<Rightarrow> (rep\<lparr>pr_conflicts := pr_conflicts rep + 1\<rparr>, s)
               | Some node \<Rightarrow>
                   if trim_space node = [] then (rep\<lparr>pr_skipped := pr_skipped rep + 1\<rparr>, s)
                   else (let rep = rep\<lparr>pr_protected := pr_protected rep + 1\<rparr>
                         in if annotation (pv_annotations pv) annotation_last_attached_node = node then (rep, s)
                            else (case k_patch_pv k (pv_name pv) annotation_last_attached_node node s of
                                    (Inl _, s) \<Rightarrow> (rep\<lparr>pr_skipped := pr_skipped rep + 1\<rparr>, s)
                                  | (Inr _, s) \<Rightarrow> (rep\<lparr>pr_patched := pr_patched rep + 1\<rparr>, s)))))"

definition prepare :: "'s kube_api \<Rightarrow> 'r sticky_manager \<Rightarrow> 's \<Rightarrow> prepare_report \<times> 's" where
  "prepare k sticky s =
     (case k_pvs k s of
        (Inl _, s) \<Rightarrow> (empty_report, s)
      | (Inr pvs, s) \<Rightarrow>
          (case k_vas k s of
             (Inl _, s) \<Rightarrow> (empty_report, s)
           | (Inr vas, s) \<Rightarrow> foldl (prepare_one k sticky (attached_nodes_by_pv vas)) (empty_report, s) pvs))"

section \<open>Release\<close>

definition release_bounds :: "int option \<Rightarrow> int option \<Rightarrow> duration \<times> duration" where
  "release_bounds min_cfg max_cfg =
     (let lo = (case min_cfg of Some n \<Rightarrow> if n < 0 then 300 else n | None \<Rightarrow> 300);
          hi = (case max_cfg of Some n \<Rightarrow> if n < lo then lo else n | None \<Rightarrow> lo)
      in (int64 (lo * second), int64 (hi * second)))"

definition staggered_delay :: "nat \<Rightarrow> nat \<Rightarrow> duration \<Rightarrow> duration \<Rightarrow> duration" where
  "staggered_delay index n lo hi =
     (if n \<le> 1 \<or> hi \<le> lo then lo
      else int64 (lo + go_div (int64 (int64 (hi - lo) * int index)) (int n - 1)))"

definition sticky_grace_seconds :: "int option \<Rightarrow> int option \<Rightarrow> int" where
  "sticky_grace_seconds min_cfg max_cfg =
     (let s = go_div (snd (release_bounds min_cfg max_cfg)) second in if s \<le> 0 then 1800 else s)"

definition released_state :: "go_time \<Rightarrow> duration \<Rightarrow> sticky_state \<Rightarrow> sticky_state" where
  "released_state now delay st =
     st\<lparr>sa_reason := release_reason, sa_started_at := now, sa_expires_at := now + delay, sa_grace_seconds := go_div delay second\<rparr>"

text \<open>The holds in order of their volumes, each with its index and the outcome of its write.\<close>

fun release_from ::
  "(sticky_state \<Rightarrow> 'r) \<Rightarrow> (nat \<Rightarrow> write_outcome) \<Rightarrow> go_time \<Rightarrow> duration \<Rightarrow> duration \<Rightarrow> nat \<Rightarrow> nat \<Rightarrow> sticky_state list \<Rightarrow>
   'r sticky_manager \<Rightarrow> 'r sticky_manager" where
  "release_from encode w now lo hi n i [] m = m"
| "release_from encode w now lo hi n i (st # sts) m =
     release_from encode w now lo hi n (Suc i) sts
       (snd (sticky_update encode (w i) (released_state now (staggered_delay i n lo hi) st) m))"

definition release_holds ::
  "(sticky_state \<Rightarrow> 'r) \<Rightarrow> (nat \<Rightarrow> write_outcome) \<Rightarrow> go_time \<Rightarrow> int option \<Rightarrow> int option \<Rightarrow> 'r sticky_manager \<Rightarrow> 'r sticky_manager" where
  "release_holds encode w now min_cfg max_cfg m =
     (let holds = list_by_reason sticky_reason m; (lo, hi) = release_bounds min_cfg max_cfg
      in release_from encode w now lo hi (length holds) 0 holds m)"

section \<open>Reconciliation\<close>

record ('r, 's) maintenance_world =
  mw_mode :: maintenance
  mw_sticky :: "'r sticky_manager"
  mw_data :: str_map
  mw_kube :: 's

text \<open>\<open>Reconcile\<close>: whether it returned an error.  \<open>cm\<close> is the first read of the ConfigMap, \<open>cm'\<close> the
  read of \<open>publishReady\<close>.\<close>

definition reconcile ::
  "'s kube_api \<Rightarrow> (sticky_state \<Rightarrow> 'r) \<Rightarrow> str_map kube_reply \<Rightarrow> str_map kube_reply \<Rightarrow> (nat \<Rightarrow> write_outcome) \<Rightarrow> go_time \<Rightarrow>
   int option \<Rightarrow> int option \<Rightarrow> ('r, 's) maintenance_world \<Rightarrow> bool \<times> ('r, 's) maintenance_world" where
  "reconcile k encode cm cm' w now min_cfg max_cfg mw =
     (case cm of
        KubeNotFound \<Rightarrow> (False, mw\<lparr>mw_mode := set_mode False False False (mw_mode mw)\<rparr>)
      | KubeError \<Rightarrow> (True, mw)
      | KubeOk data \<Rightarrow>
          (case maintenance_mode_active data of
             (False, alias) \<Rightarrow>
               (let mw = mw\<lparr>mw_mode := set_mode False False alias (mw_mode mw)\<rparr>;
                    (err, d) = clear_ready_keys (w 0) (w 1) (mw_data mw); mw = mw\<lparr>mw_data := d\<rparr>
                in if err then (True, mw)
                   else (False, mw\<lparr>mw_sticky := release_holds encode (\<lambda>i. w (i + 2)) now min_cfg max_cfg (mw_sticky mw)\<rparr>))
           | (True, alias) \<Rightarrow>
               (let mw = mw\<lparr>mw_mode := set_mode True False alias (mw_mode mw)\<rparr>;
                    (rep, s) = prepare k (mw_sticky mw) (mw_kube mw);
                    (err, d) = publish_ready cm' alias (w 0) (mw_data mw); mw = mw\<lparr>mw_data := d, mw_kube := s\<rparr>
                in if err then (True, mw) else (False, mw\<lparr>mw_mode := set_mode True True alias (mw_mode mw)\<rparr>))))"

text \<open>The node a volume stays on while the mode is on.\<close>

definition last_node_for_volume :: "'r sticky_manager \<Rightarrow> runtime_context \<Rightarrow> string \<Rightarrow> string" where
  "last_node_for_volume sticky rt volume =
     (let held = (case sticky_get volume sticky of None \<Rightarrow> [] | Some st \<Rightarrow> trim_space (sa_node st))
      in if held \<noteq> [] then held else annotation (rt_annotations rt) annotation_last_attached_node)"

section \<open>Lemmas on the delays\<close>

lemma staggered_delay_alt:
  assumes "lo < hi" "1 < n" "i < n" "0 \<le> lo" "(hi - lo) * int n < 2 ^ 63" "hi < 2 ^ 63"
  shows "staggered_delay i n lo hi = lo + (hi - lo) * int i div (int n - 1)"
    "0 \<le> (hi - lo) * int i div (int n - 1)" "(hi - lo) * int i div (int n - 1) \<le> hi - lo"
proof -
  have fits: "(hi - lo) * int i \<le> (hi - lo) * (int n - 1)" "(hi - lo) * int i \<le> (hi - lo) * int n"
    using assms by (auto intro!: mult_left_mono)
  have nonneg: "0 \<le> (hi - lo) * int i" using assms(1) by simp
  show ge: "0 \<le> (hi - lo) * int i div (int n - 1)" using nonneg assms(2) by (simp add: pos_imp_zdiv_nonneg_iff)
  have "(hi - lo) * int i div (int n - 1) \<le> (hi - lo) * (int n - 1) div (int n - 1)"
    using fits(1) assms(2) by (intro zdiv_mono1) auto
  then show le: "(hi - lo) * int i div (int n - 1) \<le> hi - lo" using assms(2) by simp
  have "(hi - lo) * int i < 2 ^ 63" using fits(2) assms(5) by linarith
  then have p: "in_int64 ((hi - lo) * int i)" using nonneg unfolding in_int64_def by linarith
  have "in_int64 (hi - lo)" using assms(1,4,6) unfolding in_int64_def by linarith
  moreover have "in_int64 (lo + (hi - lo) * int i div (int n - 1))" using ge le assms(4,6) unfolding in_int64_def by linarith
  moreover note p
  ultimately show "staggered_delay i n lo hi = lo + (hi - lo) * int i div (int n - 1)"
    using assms(1,2) nonneg by (simp add: staggered_delay_def go_div_nonneg)
qed

lemma staggered_delay_bounds:
  assumes "i < n" "0 \<le> lo" "lo \<le> hi" "(hi - lo) * int n < 2 ^ 63" "hi < 2 ^ 63"
  shows "lo \<le> staggered_delay i n lo hi" "staggered_delay i n lo hi \<le> hi"
proof -
  have "lo \<le> staggered_delay i n lo hi \<and> staggered_delay i n lo hi \<le> hi"
  proof (cases "n \<le> 1 \<or> hi \<le> lo")
    case True
    then show ?thesis using assms by (auto simp: staggered_delay_def)
  next
    case False
    then show ?thesis using staggered_delay_alt [of lo hi n i] assms by auto
  qed
  then show "lo \<le> staggered_delay i n lo hi" "staggered_delay i n lo hi \<le> hi" by auto
qed

lemma staggered_delay_mono:
  assumes "i \<le> j" "j < n" "0 \<le> lo" "lo \<le> hi" "(hi - lo) * int n < 2 ^ 63" "hi < 2 ^ 63"
  shows "staggered_delay i n lo hi \<le> staggered_delay j n lo hi"
proof (cases "n \<le> 1 \<or> hi \<le> lo")
  case True
  then show ?thesis by (auto simp: staggered_delay_def)
next
  case False
  have "(hi - lo) * int i div (int n - 1) \<le> (hi - lo) * int j div (int n - 1)"
    using False assms(1) by (intro zdiv_mono1 mult_left_mono) auto
  then show ?thesis using staggered_delay_alt(1) [of lo hi n] False assms by auto
qed

section \<open>Lemmas on the release\<close>

lemma sticky_get_update:
  assumes "trim_space (sa_volume st) \<noteq> []" "sm_enabled m"
  shows "sticky_get v (snd (sticky_update encode w st m)) = (if v = sa_volume st \<and> \<not> write_failed w then Some st else sticky_get v m)"
    "sm_enabled (snd (sticky_update encode w st m))"
  using assms
  by (auto simp: sticky_update_def sticky_get_def persist_entry_def put_entry_def drop_entry_def Let_def update_conv' delete_conv'
      split: option.splits)

lemma sa_volume_released [simp]: "sa_volume (released_state now d st) = sa_volume st"
  by (simp add: released_state_def)

lemma release_from_other:
  assumes "list_all (\<lambda>st. trim_space (sa_volume st) \<noteq> []) sts" "sm_enabled m" "v \<notin> sa_volume ` set sts"
  shows "sticky_get v (release_from encode w now lo hi n i sts m) = sticky_get v m"
  using assms
proof (induction sts arbitrary: i m)
  case (Cons st sts)
  let ?m = "snd (sticky_update encode (w i) (released_state now (staggered_delay i n lo hi) st) m)"
  note upd = sticky_get_update [of "released_state now (staggered_delay i n lo hi) st" m, unfolded sa_volume_released]
  have "sticky_get v (release_from encode w now lo hi n (Suc i) sts ?m) = sticky_get v ?m"
    using Cons.prems upd(2) by (intro Cons.IH) auto
  then show ?case using Cons.prems upd(1) by simp
qed simp

lemma release_from_hold:
  assumes "list_all (\<lambda>st. trim_space (sa_volume st) \<noteq> [] \<and> sticky_get (sa_volume st) m = Some st) sts" "sm_enabled m"
    and "distinct (map sa_volume sts)" "j < length sts"
  shows "sticky_get (sa_volume (sts ! j)) (release_from encode w now lo hi n i sts m) =
    Some (if write_failed (w (i + j)) then sts ! j else released_state now (staggered_delay (i + j) n lo hi) (sts ! j))"
  using assms
proof (induction sts arbitrary: i j m)
  case (Cons st sts)
  let ?r = "released_state now (staggered_delay i n lo hi) st"
  let ?m = "snd (sticky_update encode (w i) ?r m)"
  note upd = sticky_get_update [of ?r m, unfolded sa_volume_released]
  show ?case
  proof (cases j)
    case 0
    have "sticky_get (sa_volume st) (release_from encode w now lo hi n (Suc i) sts ?m) = sticky_get (sa_volume st) ?m"
      using Cons.prems upd(2) by (intro release_from_other) (auto simp: list_all_iff)
    then show ?thesis using 0 Cons.prems(1,2) upd(1) by simp
  next
    case (Suc j')
    have blank: "trim_space (sa_volume st) \<noteq> []" using Cons.prems(1) by simp
    have "sticky_get (sa_volume x) ?m = Some x" if "x \<in> set sts" for x
    proof -
      have "sa_volume st \<noteq> sa_volume x" using that Cons.prems(3) by auto
      moreover have "sticky_get (sa_volume x) m = Some x" using iffD1 [OF list_all_iff Cons.prems(1), rule_format, of x] that by simp
      ultimately show ?thesis using upd(1) [OF blank Cons.prems(2)] by simp
    qed
    then have "list_all (\<lambda>x. trim_space (sa_volume x) \<noteq> [] \<and> sticky_get (sa_volume x) ?m = Some x) sts"
      using Cons.prems(1) unfolding list_all_iff by simp
    from Cons.IH [OF this upd(2) [OF blank Cons.prems(2)], of j' "Suc i"] show ?thesis using Cons.prems(3,4) Suc by simp
  qed
qed simp

lemma holds_of_inv:
  assumes inv: "sticky_inv exact encode m"
  shows "list_all (\<lambda>st. trim_space (sa_volume st) \<noteq> [] \<and> sticky_get (sa_volume st) m = Some st) (list_by_reason reason m)"
    "distinct (map sa_volume (list_by_reason reason m))"
proof -
  have entry: "sticky_get (sa_volume st) m = Some st" "sa_volume st = k" if "(k, st) \<in> set (sm_entries m)" for k st
    using that inv map_of_is_SomeI [of "sm_entries m" k st] by (auto simp: sticky_inv_def sticky_get_def)
  have nonblank: "trim_space v \<noteq> []" if "sticky_get v m = Some st" for v st
    using that inv unfolding sticky_inv_def sticky_get_def config_ok_def by (metis option.exhaust)
  show "list_all (\<lambda>st. trim_space (sa_volume st) \<noteq> [] \<and> sticky_get (sa_volume st) m = Some st) (list_by_reason reason m)"
    using entry nonblank by (fastforce simp: list_all_iff list_by_reason_def)
  have "map sa_volume (map snd (sm_entries m)) = map fst (sm_entries m)" using entry(2) by fastforce
  moreover have "distinct (map fst (sm_entries m))" using inv by (simp add: sticky_inv_def)
  ultimately have "distinct (map sa_volume (map snd (sm_entries m)))" by metis
  then have "distinct (map snd (sm_entries m)) \<and> inj_on sa_volume (set (map snd (sm_entries m)))"
    by (simp only: distinct_map [of sa_volume])
  then show "distinct (map sa_volume (list_by_reason reason m))"
    unfolding list_by_reason_def by (auto simp: distinct_map intro: inj_on_subset)
qed

section \<open>Properties\<close>

text \<open>C39. Release after maintenance: every hold taken for maintenance is either rescheduled, with an
  expiry between the configured bounds counted from now, or, if its write failed, kept as it
  was; later volumes never expire before earlier ones; and all other holds are untouched.\<close>

theorem maintenance_release_staggered:
  assumes inv: "sticky_inv exact encode m" and holds: "holds = list_by_reason sticky_reason m"
    and bounds: "release_bounds min_cfg max_cfg = (lo, hi)" "0 \<le> lo" "lo \<le> hi" "hi < 2 ^ 63" "(hi - lo) * int (length holds) < 2 ^ 63"
    and m': "m' = release_holds encode w now min_cfg max_cfg m" and delay: "delay = (\<lambda>i. staggered_delay i (length holds) lo hi)"
  shows "(\<forall>i < length holds.
      sticky_get (sa_volume (holds ! i)) m' = Some (if write_failed (w i) then holds ! i else released_state now (delay i) (holds ! i)) \<and>
      lo \<le> delay i \<and> delay i \<le> hi \<and> (\<forall>j < i. delay j \<le> delay i)) \<and>
    (\<forall>v. v \<notin> sa_volume ` set holds \<longrightarrow> sticky_get v m' = sticky_get v m)"
proof -
  note facts = holds_of_inv [OF inv, of sticky_reason, folded holds]
  have enabled: "sm_enabled m" using inv by (simp add: sticky_inv_def)
  have m'': "m' = release_from encode w now lo hi (length holds) 0 holds m" by (simp add: m' release_holds_def holds bounds(1) Let_def)
  have nonblank: "list_all (\<lambda>st. trim_space (sa_volume st) \<noteq> []) holds" using facts(1) by (simp add: list_all_iff)
  have "sticky_get (sa_volume (holds ! i)) m' = Some (if write_failed (w i) then holds ! i else released_state now (delay i) (holds ! i))"
    if "i < length holds" for i
    using release_from_hold [OF facts(1) enabled facts(2) that, of encode w now lo hi "length holds" 0] by (simp only: m'' delay add_0)
  moreover have "lo \<le> delay i" "delay i \<le> hi" if "i < length holds" for i
    using staggered_delay_bounds [OF that bounds(2,3,5,4)] by (simp_all only: delay)
  moreover have "delay j \<le> delay i" if "i < length holds" "j < i" for i j
    using staggered_delay_mono [OF less_imp_le [OF that(2)] that(1) bounds(2,3,5,4)] by (simp only: delay)
  moreover have "sticky_get v m' = sticky_get v m" if "v \<notin> sa_volume ` set holds" for v
    unfolding m'' by (rule release_from_other [OF nonblank enabled that])
  ultimately show ?thesis by blast
qed

definition sample_maintenance_hold :: "string \<Rightarrow> sticky_state" where
  "sample_maintenance_hold v = (sample_hold v 50)\<lparr>sa_reason := sticky_reason\<rparr>"

theorem maintenance_release_staggered_witness:
  "map_option sa_expires_at (sticky_get ''8'' (release_holds id (\<lambda>_. Written) 1000 (Some 300) (Some 600)
     (sticky_run id Some [OpStart Written (sample_maintenance_hold ''7''), OpStart Written (sample_maintenance_hold ''8'')])))
     = Some (1000 + 600 * second)"
proof -
  let ?m = "sticky_run id Some [OpStart Written (sample_maintenance_hold ''7''), OpStart Written (sample_maintenance_hold ''8'')]"
  let ?holds = "[sample_maintenance_hold ''7'', sample_maintenance_hold ''8'']"
  have inv: "sticky_inv True id ?m" by (rule sticky_run_inv) simp_all
  have holds: "?holds = list_by_reason sticky_reason ?m" by code_simp
  have bounds: "release_bounds (Some 300) (Some 600) = (300 * second, 600 * second)" by code_simp
  have "\<forall>i < length ?holds. sticky_get (sa_volume (?holds ! i)) (release_holds id (\<lambda>_. Written) 1000 (Some 300) (Some 600) ?m) =
      Some (if write_failed Written then ?holds ! i else released_state 1000 (staggered_delay i (length ?holds) (300 * second) (600 * second)) (?holds ! i))"
    using maintenance_release_staggered [OF inv holds bounds _ _ _ _ refl refl, where w = "\<lambda>_. Written" and now = 1000] by simp
  then have "sticky_get ''8'' (release_holds id (\<lambda>_. Written) 1000 (Some 300) (Some 600) ?m) =
      Some (released_state 1000 (staggered_delay 1 2 (300 * second) (600 * second)) (sample_maintenance_hold ''8''))"
    by (auto dest!: spec [of _ 1] simp: write_failed_def sample_maintenance_hold_def sample_hold_def eval_nat_numeral)
  moreover have "staggered_delay 1 2 (300 * second) (600 * second) = 600 * second" by code_simp
  ultimately show ?thesis by (simp add: released_state_def)
qed

end
