(* ===== verification/Datastores.thy ===== *)
theory Datastores
  imports Identifiers
begin

text \<open>
  Datastores of OpenNebula as the driver sees them (\<open>opennebula/datastore.go\<close>) and the
  profiles of their backends (\<open>opennebula/backend.go\<close>): attributes, inferred type and
  category, validation, and the resolution of configured identifiers.

  A datastore as the OpenNebula API returns it is the record \<open>ds_schema\<close>: its template
  is a map, and the answer of its \<open>State\<close> method is \<open>None\<close> for an error or whether the
  state is ready.  Errors carry the values their messages are made of.
\<close>

section \<open>Data\<close>

record ds_schema =
  sc_id :: int
  sc_name :: string
  sc_type :: string
  sc_ds_mad :: string
  sc_tm_mad :: string
  sc_disk_type :: string
  sc_free_mb :: int
  sc_total_mb :: int
  sc_ready :: "bool option"
  sc_template :: str_map

record ceph_attributes =
  ca_pool :: string
  ca_host :: string
  ca_user :: string
  ca_secret :: string
  ca_conf :: string
  ca_key :: string
  ca_disk_type :: string
  ca_bridge_list :: string
  ca_rbd_format :: string
  ca_ec_pool :: string

record cephfs_attributes =
  cf_fs_name :: string
  cf_root_path :: string
  cf_group :: string
  cf_monitors :: "string list"
  cf_mount_options :: "string list"
  cf_conf :: string

record datastore =
  ds_id :: int
  ds_name :: string
  ds_category :: string
  ds_type :: string
  ds_backend :: string
  ds_ds_mad :: string
  ds_tm_mad :: string
  ds_disk_type :: string
  ds_free :: int
  ds_total :: int
  ds_enabled :: bool
  ds_compatible :: "int list"
  ds_ceph :: "ceph_attributes option"
  ds_cephfs :: "cephfs_attributes option"

datatype ds_error =
    NoDatastoresConfigured | NoEligibleDatastores | EmptyIdentifier | NoDefaultDatastore
  | UnsupportedIdentifier string | DatastoreNotFound int | DatastoreDisabled string
  | WrongCategory int string string | TypeNotAllowed int string | UnsupportedBackend string
  | UnsupportedPolicy string | WrongDsMad int | WrongTmMad int | WrongDiskType int
  | MissingAttribute int string | NotCephFS int | NotFileDatastore int | NoMonitors int
  | CephMismatch string int int | InvalidCompatible int string | IncompatibleSystem int int
  | CapacityError string

definition is_datastore_capacity_error :: "ds_error \<Rightarrow> bool" where
  "is_datastore_capacity_error e \<longleftrightarrow> (case e of CapacityError _ \<Rightarrow> True | _ \<Rightarrow> False)"

definition is_datastore_config_error :: "ds_error \<Rightarrow> bool" where
  "is_datastore_config_error e \<longleftrightarrow> \<not> is_datastore_capacity_error e"

section \<open>Attributes\<close>

definition lower_trim :: "string \<Rightarrow> string" where "lower_trim s = to_lower (trim_space s)"
definition upper_trim :: "string \<Rightarrow> string" where "upper_trim s = to_upper (trim_space s)"

definition is_numeric_field :: "string \<Rightarrow> bool" where
  "is_numeric_field value \<longleftrightarrow> value \<noteq> [] \<and> list_all is_digit value"

definition template_attribute :: "ds_schema \<Rightarrow> string \<Rightarrow> string" where
  "template_attribute ds key = (case sc_template ds key of None \<Rightarrow> [] | Some v \<Rightarrow> trim_space v)"

definition get_datastore_attribute :: "ds_schema \<Rightarrow> string \<Rightarrow> string" where
  "get_datastore_attribute ds key =
     (let k = upper_trim key
      in if k = ''DS_MAD'' then trim_space (sc_ds_mad ds)
         else if k = ''TM_MAD'' then trim_space (sc_tm_mad ds)
         else if k = ''DISK_TYPE'' then
           (let raw = trim_space (sc_disk_type ds)
            in if raw \<noteq> [] \<and> \<not> is_numeric_field raw then raw else template_attribute ds k)
         else template_attribute ds k)"

definition normalize_disk_type :: "ds_schema \<Rightarrow> string" where
  "normalize_disk_type ds = to_upper (get_datastore_attribute ds ''DISK_TYPE'')"

text \<open>\<open>strings.NewReplacer(",", " ", ";", " ")\<close> followed by \<open>strings.Fields\<close>.\<close>

definition list_fields :: "string \<Rightarrow> string list" where
  "list_fields s = Go_Prelude.fields (map (\<lambda>c. if c = CHR '','' \<or> c = CHR '';'' then CHR '' '' else c) s)"

definition normalize_monitor_list :: "string \<Rightarrow> string list" where
  "normalize_monitor_list value = list_fields (trim_space value)"

definition normalize_mount_options :: "string \<Rightarrow> string list" where
  "normalize_mount_options value =
     (if trim_space value = [] then []
      else filter (\<lambda>x. x \<noteq> []) (map trim_space (split_on (CHR '','') value)))"

definition normalize_allowed_datastore_type :: "string \<Rightarrow> string" where
  "normalize_allowed_datastore_type value =
     (let n = lower_trim value
      in if n = [] \<or> n = ''nas'' then ''nfs''
         else if n \<in> set [''fs'', ''fs_lvm'', ''fs_lvm_ssh''] then ''local''
         else n)"

text \<open>One candidate of the category; \<open>None\<close> goes on to the next one.\<close>

definition category_of :: "string \<Rightarrow> string option" where
  "category_of candidate =
     (let c = upper_trim candidate
      in if c \<in> set [''IMAGE'', ''IMAGE_DS'', ''IMG'', ''0''] then Some ''IMAGE''
         else if c \<in> set [''SYSTEM'', ''SYSTEM_DS'', ''SYS'', ''1''] then Some ''SYSTEM''
         else if c \<in> set [''FILE'', ''FILE_DS'', ''FILES'', ''FIL'', ''2''] then Some ''FILE''
         else None)"

definition normalize_datastore_category :: "ds_schema \<Rightarrow> string" where
  "normalize_datastore_category ds =
     (case category_of (trim_space (sc_type ds)) of
        Some c \<Rightarrow> c
      | None \<Rightarrow> (case category_of (get_datastore_attribute ds ''TYPE'') of
                   Some c \<Rightarrow> c | None \<Rightarrow> upper_trim (sc_type ds)))"

text \<open>The inferred type: the share backend, the driver pair, then the first known value of
  the transfer driver, the datastore driver and the type, then the first non-empty one.\<close>

definition known_type :: "ds_schema \<Rightarrow> string \<Rightarrow> string option" where
  "known_type ds value =
     (if value \<in> set [''local'', ''ceph'', ''nfs'', ''nas'', ''fs_lvm'', ''fs_lvm_ssh'', ''cephfs''] then Some value
      else if value = ''fs'' \<and> equal_fold (sc_tm_mad ds) ''local'' then Some ''local'' else None)"

fun first_some :: "('a \<Rightarrow> 'b option) \<Rightarrow> 'a list \<Rightarrow> 'b option" where
  "first_some f [] = None"
| "first_some f (x # xs) = (case f x of Some y \<Rightarrow> Some y | None \<Rightarrow> first_some f xs)"

definition infer_datastore_type :: "ds_schema \<Rightarrow> string" where
  "infer_datastore_type ds =
     (if equal_fold (get_datastore_attribute ds ''OPENNEBULA_CSI_SHARE_BACKEND'') ''cephfs'' then ''cephfs''
      else (let ds_mad = lower_trim (sc_ds_mad ds); tm_mad = lower_trim (sc_tm_mad ds);
                category = normalize_datastore_category ds;
                values = [tm_mad, ds_mad, lower_trim (sc_type ds)]
            in if ds_mad \<in> set [''fs'', ''fs_lvm'', ''fs_lvm_ssh''] \<and>
                  (category = ''IMAGE'' \<or> category = ''FILE'' \<or> tm_mad \<in> set [''ssh'', ''shared'', ''local'']) then ''local''
               else if ds_mad = ''ceph'' then ''ceph''
               else (case first_some (known_type ds) values of
                       Some t \<Rightarrow> t
                     | None \<Rightarrow> (case first_some (\<lambda>v. if v = [] then None else Some v) values of
                                  Some t \<Rightarrow> t | None \<Rightarrow> ''unknown''))))"

definition compatible_system_datastores :: "ds_schema \<Rightarrow> int list" where
  "compatible_system_datastores ds =
     (let raw = get_datastore_attribute ds ''COMPATIBLE_SYS_DS''
      in if trim_space raw = [] then []
         else List.map_filter (\<lambda>p. if trim_space p = [] then None else atoi (trim_space p)) (list_fields raw))"

definition extract_ceph_attributes :: "ds_schema \<Rightarrow> ceph_attributes" where
  "extract_ceph_attributes ds =
     \<lparr>ca_pool = get_datastore_attribute ds ''POOL_NAME'', ca_host = get_datastore_attribute ds ''CEPH_HOST'',
      ca_user = get_datastore_attribute ds ''CEPH_USER'', ca_secret = get_datastore_attribute ds ''CEPH_SECRET'',
      ca_conf = get_datastore_attribute ds ''CEPH_CONF'', ca_key = get_datastore_attribute ds ''CEPH_KEY'',
      ca_disk_type = get_datastore_attribute ds ''DISK_TYPE'', ca_bridge_list = get_datastore_attribute ds ''BRIDGE_LIST'',
      ca_rbd_format = get_datastore_attribute ds ''RBD_FORMAT'', ca_ec_pool = get_datastore_attribute ds ''EC_POOL_NAME''\<rparr>"

definition extract_cephfs_attributes :: "ds_schema \<Rightarrow> cephfs_attributes" where
  "extract_cephfs_attributes ds =
     \<lparr>cf_fs_name = get_datastore_attribute ds ''OPENNEBULA_CSI_CEPHFS_FS_NAME'',
      cf_root_path = clean_shared_path (get_datastore_attribute ds ''OPENNEBULA_CSI_CEPHFS_ROOT_PATH''),
      cf_group = get_datastore_attribute ds ''OPENNEBULA_CSI_CEPHFS_SUBVOLUME_GROUP'',
      cf_monitors = normalize_monitor_list (get_datastore_attribute ds ''CEPH_HOST''),
      cf_mount_options = normalize_mount_options (get_datastore_attribute ds ''OPENNEBULA_CSI_CEPHFS_MOUNT_OPTIONS''),
      cf_conf = get_datastore_attribute ds ''CEPH_CONF''\<rparr>"

definition datastore_ceph_attributes :: "ds_schema \<Rightarrow> ceph_attributes option" where
  "datastore_ceph_attributes ds =
     (if normalize_allowed_datastore_type (infer_datastore_type ds) \<noteq> ''ceph'' then None
      else Some (extract_ceph_attributes ds))"

definition datastore_cephfs_attributes :: "ds_schema \<Rightarrow> cephfs_attributes option" where
  "datastore_cephfs_attributes ds =
     (if normalize_allowed_datastore_type (infer_datastore_type ds) \<noteq> ''cephfs'' then None
      else Some (extract_cephfs_attributes ds))"

text \<open>A datastore whose state cannot be read counts as enabled.\<close>

definition datastore_from_schema :: "ds_schema \<Rightarrow> datastore" where
  "datastore_from_schema s =
     \<lparr>ds_id = sc_id s, ds_name = sc_name s, ds_category = normalize_datastore_category s,
      ds_type = normalize_allowed_datastore_type (infer_datastore_type s),
      ds_backend = normalize_allowed_datastore_type (infer_datastore_type s),
      ds_ds_mad = lower_trim (sc_ds_mad s), ds_tm_mad = lower_trim (sc_tm_mad s),
      ds_disk_type = normalize_disk_type s,
      ds_free = int64 (sc_free_mb s * 1048576), ds_total = int64 (sc_total_mb s * 1048576),
      ds_enabled = (case sc_ready s of None \<Rightarrow> True | Some r \<Rightarrow> r),
      ds_compatible = compatible_system_datastores s,
      ds_ceph = datastore_ceph_attributes s, ds_cephfs = datastore_cephfs_attributes s\<rparr>"

section \<open>Validation\<close>

definition validate_category :: "ds_schema \<Rightarrow> ds_error option" where
  "validate_category ds =
     (if normalize_datastore_category ds \<in> set [[], ''IMAGE'', ''FILE''] then None
      else Some (WrongCategory (sc_id ds) (sc_type ds) (trim_space (get_datastore_attribute ds ''TYPE''))))"

definition require_datastore_attributes :: "ds_schema \<Rightarrow> string list \<Rightarrow> ds_error option" where
  "require_datastore_attributes ds keys =
     (case find (\<lambda>k. get_datastore_attribute ds k = []) keys of
        None \<Rightarrow> None | Some k \<Rightarrow> Some (MissingAttribute (sc_id ds) k))"

definition ceph_required_attrs :: "string list" where
  "ceph_required_attrs = [''POOL_NAME'', ''CEPH_HOST'', ''CEPH_USER'', ''CEPH_SECRET'', ''BRIDGE_LIST'']"

definition validate_ceph_image_datastore :: "ds_schema \<Rightarrow> ds_error option" where
  "validate_ceph_image_datastore ds =
     (if \<not> equal_fold (trim_space (sc_ds_mad ds)) ''ceph'' then Some (WrongDsMad (sc_id ds))
      else if \<not> equal_fold (trim_space (sc_tm_mad ds)) ''ceph'' then Some (WrongTmMad (sc_id ds))
      else if normalize_disk_type ds \<noteq> ''RBD'' then Some (WrongDiskType (sc_id ds))
      else require_datastore_attributes ds ceph_required_attrs)"

definition validate_ceph_system_datastore :: "ds_schema \<Rightarrow> ds_error option" where
  "validate_ceph_system_datastore ds =
     (if \<not> equal_fold (trim_space (sc_tm_mad ds)) ''ceph'' then Some (WrongTmMad (sc_id ds))
      else if normalize_disk_type ds \<noteq> ''RBD'' then Some (WrongDiskType (sc_id ds))
      else require_datastore_attributes ds ceph_required_attrs)"

definition validate_cephfs_datastore :: "ds_schema \<Rightarrow> ds_error option" where
  "validate_cephfs_datastore ds =
     (if \<not> equal_fold (trim_space (get_datastore_attribute ds ''OPENNEBULA_CSI_SHARE_BACKEND'')) ''cephfs'' then Some (NotCephFS (sc_id ds))
      else if \<not> equal_fold (normalize_datastore_category ds) ''FILE'' then Some (NotFileDatastore (sc_id ds))
      else (case require_datastore_attributes ds [''OPENNEBULA_CSI_CEPHFS_FS_NAME'', ''OPENNEBULA_CSI_CEPHFS_ROOT_PATH'',
                ''OPENNEBULA_CSI_CEPHFS_SUBVOLUME_GROUP'', ''CEPH_HOST''] of
              Some e \<Rightarrow> Some e
            | None \<Rightarrow> if normalize_monitor_list (get_datastore_attribute ds ''CEPH_HOST'') = []
                      then Some (NoMonitors (sc_id ds)) else None))"

datatype deployment_mode = ModeUnknown | ModeCeph | ModeSSH

record backend_profile =
  bp_type :: string
  bp_required :: "string list"
  bp_modes :: "deployment_mode list"
  bp_validate :: "ds_schema \<Rightarrow> ds_error option"

definition get_backend_profile :: "string \<Rightarrow> ds_error + backend_profile" where
  "get_backend_profile typ =
     (let t = normalize_allowed_datastore_type typ
      in if t = ''local'' then
           Inr \<lparr>bp_type = ''local'', bp_required = [], bp_modes = [ModeUnknown, ModeSSH, ModeCeph], bp_validate = (\<lambda>_. None)\<rparr>
         else if t = ''ceph'' then
           Inr \<lparr>bp_type = ''ceph'', bp_required = ceph_required_attrs, bp_modes = [ModeCeph, ModeSSH],
                bp_validate = validate_ceph_image_datastore\<rparr>
         else if t = ''cephfs'' then
           Inr \<lparr>bp_type = ''cephfs'', bp_required = [''OPENNEBULA_CSI_SHARE_BACKEND'', ''OPENNEBULA_CSI_CEPHFS_FS_NAME'',
                  ''OPENNEBULA_CSI_CEPHFS_ROOT_PATH'', ''OPENNEBULA_CSI_CEPHFS_SUBVOLUME_GROUP'', ''CEPH_HOST''],
                bp_modes = [], bp_validate = validate_cephfs_datastore\<rparr>
         else Inl (UnsupportedBackend typ))"

record capability_profile =
  cp_backend :: string
  cp_fs_rwo :: bool
  cp_fs_rox :: bool
  cp_fs_rwx :: bool
  cp_block_rwo :: bool
  cp_block_rox :: bool
  cp_block_rwx :: bool

definition get_capability_profile :: "string \<Rightarrow> capability_profile" where
  "get_capability_profile backend =
     (let t = normalize_allowed_datastore_type backend
      in if t = ''ceph'' then
           \<lparr>cp_backend = ''ceph'', cp_fs_rwo = True, cp_fs_rox = True, cp_fs_rwx = False,
            cp_block_rwo = True, cp_block_rox = True, cp_block_rwx = False\<rparr>
         else if t = ''cephfs'' then
           \<lparr>cp_backend = ''cephfs'', cp_fs_rwo = True, cp_fs_rox = True, cp_fs_rwx = True,
            cp_block_rwo = False, cp_block_rox = False, cp_block_rwx = False\<rparr>
         else
           \<lparr>cp_backend = ''local'', cp_fs_rwo = True, cp_fs_rox = True, cp_fs_rwx = False,
            cp_block_rwo = True, cp_block_rox = True, cp_block_rwx = False\<rparr>)"

definition resolve_deployment_mode :: "ds_schema \<Rightarrow> deployment_mode" where
  "resolve_deployment_mode ds =
     (let t = lower_trim (sc_tm_mad ds)
      in if t = ''ceph'' then ModeCeph else if t = ''ssh'' \<or> has_suffix t ''_ssh'' then ModeSSH else ModeUnknown)"

text \<open>The checks of the Ceph connection: four attributes that must agree, then two that must
  agree when both are set.\<close>

definition compare_ceph_identity :: "ds_schema \<Rightarrow> ds_schema \<Rightarrow> ds_error option" where
  "compare_ceph_identity img sys =
     (let i = extract_ceph_attributes img; s = extract_ceph_attributes sys;
          checks = [(''POOL_NAME'', ca_pool i, ca_pool s), (''CEPH_HOST'', ca_host i, ca_host s),
            (''CEPH_USER'', ca_user i, ca_user s), (''CEPH_SECRET'', ca_secret i, ca_secret s)];
          optional = [(''CEPH_CONF'', ca_conf i, ca_conf s), (''CEPH_KEY'', ca_key i, ca_key s)]
      in case find (\<lambda>(n, a, b). a \<noteq> b) checks of
           Some (n, _) \<Rightarrow> Some (CephMismatch n (sc_id img) (sc_id sys))
         | None \<Rightarrow>
             (case find (\<lambda>(n, a, b). a \<noteq> [] \<and> b \<noteq> [] \<and> a \<noteq> b) optional of
                Some (n, _) \<Rightarrow> Some (CephMismatch n (sc_id img) (sc_id sys)) | None \<Rightarrow> None))"

fun collect_compatible :: "int \<Rightarrow> string list \<Rightarrow> ds_error + int list" where
  "collect_compatible ds [] = Inr []"
| "collect_compatible ds (p # ps) =
     (let v = trim_space p
      in if v = [] then collect_compatible ds ps
         else (case atoi v of
                 None \<Rightarrow> Inl (InvalidCompatible ds v)
               | Some i \<Rightarrow> (case collect_compatible ds ps of Inl e \<Rightarrow> Inl e | Inr is \<Rightarrow> Inr (i # is))))"

definition validate_compatible_system :: "ds_schema \<Rightarrow> int \<Rightarrow> ds_error option" where
  "validate_compatible_system img system =
     (let raw = get_datastore_attribute img ''COMPATIBLE_SYS_DS''
      in if trim_space raw = [] then None
         else (case collect_compatible (sc_id img) (list_fields raw) of
                 Inl e \<Rightarrow> Some e
               | Inr allowed \<Rightarrow> if allowed = [] \<or> system \<in> set allowed then None
                                else Some (IncompatibleSystem (sc_id img) system)))"

section \<open>Resolution of the configured identifiers\<close>

record selection_config =
  sel_identifiers :: "string list"
  sel_policy :: string
  sel_types :: "string list"

definition pool_by_id :: "ds_schema list \<Rightarrow> int \<Rightarrow> ds_schema option" where
  "pool_by_id pool i = find (\<lambda>c. sc_id c = i) (rev pool)"

definition default_datastore :: "ds_schema list \<Rightarrow> ds_schema option" where
  "default_datastore pool = find (\<lambda>c. sc_name c = ''default'') (rev pool)"

definition normalize_allowed_types :: "string list \<Rightarrow> string list" where
  "normalize_allowed_types vs = map normalize_allowed_datastore_type (if vs = [] then [''local''] else vs)"

definition resolve_identifier :: "ds_schema list \<Rightarrow> string \<Rightarrow> ds_error + ds_schema" where
  "resolve_identifier pool identifier =
     (let trimmed = trim_space identifier
      in if trimmed = [] then Inl EmptyIdentifier
         else if equal_fold trimmed ''default'' then
           (case default_datastore pool of None \<Rightarrow> Inl NoDefaultDatastore | Some d \<Rightarrow> Inr d)
         else (case atoi trimmed of
                 None \<Rightarrow> Inl (UnsupportedIdentifier trimmed)
               | Some i \<Rightarrow> (case pool_by_id pool i of None \<Rightarrow> Inl (DatastoreNotFound i) | Some d \<Rightarrow> Inr d)))"

text \<open>The checks on one identifier; the backend of the result is the type of its profile.\<close>

definition resolve_one :: "ds_schema list \<Rightarrow> string list \<Rightarrow> string \<Rightarrow> ds_error + datastore" where
  "resolve_one pool allowed identifier =
     (case resolve_identifier pool identifier of
        Inl e \<Rightarrow> Inl e
      | Inr candidate \<Rightarrow>
          (let n = datastore_from_schema candidate
           in if \<not> ds_enabled n then Inl (DatastoreDisabled identifier)
              else (case validate_category candidate of
                      Some e \<Rightarrow> Inl e
                    | None \<Rightarrow>
                        if ds_type n \<notin> set allowed then Inl (TypeNotAllowed (ds_id n) (ds_type n))
                        else (case get_backend_profile (ds_type n) of
                                Inl e \<Rightarrow> Inl e
                              | Inr profile \<Rightarrow>
                                  (case bp_validate profile candidate of
                                     Some e \<Rightarrow> Inl e
                                   | None \<Rightarrow> Inr (n\<lparr>ds_backend := bp_type profile\<rparr>))))))"

fun resolve_loop :: "ds_schema list \<Rightarrow> string list \<Rightarrow> int list \<Rightarrow> datastore list \<Rightarrow> string list \<Rightarrow> ds_error + datastore list" where
  "resolve_loop pool allowed seen acc [] = Inr acc"
| "resolve_loop pool allowed seen acc (i # is) =
     (case resolve_one pool allowed i of
        Inl e \<Rightarrow> Inl e
      | Inr d \<Rightarrow> if ds_id d \<in> set seen then resolve_loop pool allowed seen acc is
                 else resolve_loop pool allowed (ds_id d # seen) (acc @ [d]) is)"

definition resolve_datastores :: "ds_schema list \<Rightarrow> selection_config \<Rightarrow> ds_error + datastore list" where
  "resolve_datastores pool sel =
     (if sel_identifiers sel = [] then Inl NoDatastoresConfigured
      else (case resolve_loop pool (normalize_allowed_types (sel_types sel)) [] [] (sel_identifiers sel) of
              Inl e \<Rightarrow> Inl e
            | Inr [] \<Rightarrow> Inl NoEligibleDatastores
            | Inr ds \<Rightarrow> Inr ds))"

section \<open>Lemmas\<close>

text \<open>The first of each group of elements with the same key, in order.\<close>

fun nub_on :: "('a \<Rightarrow> 'b) \<Rightarrow> 'a list \<Rightarrow> 'a list" where
  "nub_on f [] = []"
| "nub_on f (x # xs) = x # filter (\<lambda>y. f y \<noteq> f x) (nub_on f xs)"

text \<open>Resolve every identifier, fail with the first error.\<close>

fun resolve_all :: "ds_schema list \<Rightarrow> string list \<Rightarrow> string list \<Rightarrow> ds_error + datastore list" where
  "resolve_all pool allowed [] = Inr []"
| "resolve_all pool allowed (i # is) =
     (case resolve_one pool allowed i of
        Inl e \<Rightarrow> Inl e
      | Inr d \<Rightarrow> (case resolve_all pool allowed is of Inl e \<Rightarrow> Inl e | Inr ds \<Rightarrow> Inr (d # ds)))"

lemma nub_on_distinct: "distinct (map f (nub_on f xs))"
proof (induction xs)
  case (Cons x xs)
  have "distinct (map f (filter (\<lambda>y. f y \<noteq> f x) (nub_on f xs)))" using Cons.IH by (rule distinct_map_filter)
  then show ?case by auto
qed simp

lemma nub_on_subset: "set (nub_on f xs) \<subseteq> set xs"
  by (induction xs) auto

lemma nub_on_keys: "f ` set (nub_on f xs) = f ` set xs"
  by (induction xs) (auto simp: image_iff, metis image_iff)

lemma resolve_loop_reference:
  "resolve_loop pool allowed seen acc is =
     (case resolve_all pool allowed is of
        Inl e \<Rightarrow> Inl e
      | Inr ds \<Rightarrow> Inr (acc @ filter (\<lambda>d. ds_id d \<notin> set seen) (nub_on ds_id ds)))"
proof (induction "is" arbitrary: seen acc)
  case (Cons i "is")
  show ?case
  proof (cases "resolve_one pool allowed i")
    case (Inr d)
    show ?thesis
    proof (cases "resolve_all pool allowed is")
      case ds: (Inr ds)
      show ?thesis
      proof (cases "ds_id d \<in> set seen")
        case True
        then have "filter (\<lambda>e. ds_id e \<notin> set seen) (filter (\<lambda>e. ds_id e \<noteq> ds_id d) (nub_on ds_id ds)) =
            filter (\<lambda>e. ds_id e \<notin> set seen) (nub_on ds_id ds)"
          by (auto simp: filter_filter intro!: filter_cong)
        then show ?thesis using Inr ds True Cons.IH by simp
      next
        case False
        have "filter (\<lambda>e. ds_id e \<notin> set (ds_id d # seen)) (nub_on ds_id ds) =
            filter (\<lambda>e. ds_id e \<notin> set seen) (filter (\<lambda>e. ds_id e \<noteq> ds_id d) (nub_on ds_id ds))"
          by (auto simp: filter_filter intro!: filter_cong)
        then show ?thesis using Inr ds False Cons.IH by simp
      qed
    qed (use Inr Cons.IH in simp)
  qed simp
qed simp

lemma resolve_all_sound:
  "resolve_all pool allowed is = Inr ds \<Longrightarrow> list_all2 (\<lambda>i d. resolve_one pool allowed i = Inr d) is ds"
proof (induction "is" arbitrary: ds)
  case (Cons i "is")
  then show ?case by (auto split: sum.splits)
qed simp

lemma find_rev_in: "find P (rev xs) = Some x \<Longrightarrow> x \<in> set xs \<and> P x"
  by (auto simp: find_Some_iff dest: nth_mem) (metis length_rev nth_mem set_rev)

lemma resolve_identifier_pool: "resolve_identifier pool i = Inr c \<Longrightarrow> c \<in> set pool"
  by (auto simp: resolve_identifier_def Let_def pool_by_id_def default_datastore_def
      split: if_splits option.splits dest: find_rev_in)

lemma resolve_one_sound:
  assumes "resolve_one pool allowed i = Inr d"
  shows "\<exists>c \<in> set pool. ds_id d = sc_id c \<and> ds_enabled d \<and> ds_type d \<in> set allowed \<and>
    ds_type d = ds_type (datastore_from_schema c) \<and> validate_category c = None \<and>
    (\<exists>profile. get_backend_profile (ds_type d) = Inr profile \<and> bp_validate profile c = None \<and> ds_backend d = bp_type profile)"
proof -
  obtain c where c: "resolve_identifier pool i = Inr c"
    using assms by (auto simp: resolve_one_def split: sum.splits)
  note c' = resolve_identifier_pool [OF c]
  let ?n = "datastore_from_schema c"
  obtain profile where "ds_enabled ?n" "validate_category c = None" "ds_type ?n \<in> set allowed"
      "get_backend_profile (ds_type ?n) = Inr profile" "bp_validate profile c = None" "d = ?n\<lparr>ds_backend := bp_type profile\<rparr>"
    using assms c by (auto simp: resolve_one_def Let_def split: if_splits option.splits sum.splits)
  moreover have "ds_id ?n = sc_id c" by (simp add: datastore_from_schema_def)
  ultimately show ?thesis using c' by (intro bexI [of _ c]) simp_all
qed

section \<open>Properties\<close>

text \<open>C26. Resolution of datastores: for a non-empty list of identifiers the result is that of
  resolving each identifier by itself, failing with the error of the first one that
  fails, and keeping the first of each group with the same number; every datastore
  returned is an enabled member of the pool of an allowed type and category whose
  backend accepts it, and no number occurs twice.\<close>

theorem resolve_datastores_spec:
  assumes "sel_identifiers sel \<noteq> []"
  shows "resolve_datastores pool sel =
      (case resolve_all pool (normalize_allowed_types (sel_types sel)) (sel_identifiers sel) of
         Inl e \<Rightarrow> Inl e | Inr ds \<Rightarrow> Inr (nub_on ds_id ds)) \<and>
    (\<forall>ds. resolve_datastores pool sel = Inr ds \<longrightarrow> ds \<noteq> [] \<and> distinct (map ds_id ds) \<and>
       (\<forall>d \<in> set ds. \<exists>c \<in> set pool. ds_id d = sc_id c \<and> ds_enabled d \<and>
          ds_type d \<in> set (normalize_allowed_types (sel_types sel)) \<and> validate_category c = None \<and>
          (\<exists>profile. get_backend_profile (ds_type d) = Inr profile \<and> bp_validate profile c = None \<and>
             ds_backend d = bp_type profile)))"
proof -
  let ?allowed = "normalize_allowed_types (sel_types sel)"
  let ?all = "resolve_all pool ?allowed (sel_identifiers sel)"
  have nonempty: "nub_on ds_id ds \<noteq> []" if "?all = Inr ds" for ds
    using resolve_all_sound [OF that] assms by (cases ds) auto
  have ref: "resolve_datastores pool sel = (case ?all of Inl e \<Rightarrow> Inl e | Inr ds \<Rightarrow> Inr (nub_on ds_id ds))"
    using assms nonempty by (auto simp: resolve_datastores_def resolve_loop_reference split: sum.splits list.splits)
  have "ds \<noteq> [] \<and> distinct (map ds_id ds) \<and> (\<forall>d \<in> set ds. \<exists>i. resolve_one pool ?allowed i = Inr d)"
    if res: "resolve_datastores pool sel = Inr ds" for ds
  proof -
    obtain rs where rs: "?all = Inr rs" "ds = nub_on ds_id rs" using res ref by (cases ?all) simp_all
    have "\<exists>i. resolve_one pool ?allowed i = Inr d" if d: "d \<in> set rs" for d
    proof -
      obtain j where "j < length rs" "rs ! j = d" using d by (auto simp: in_set_conv_nth)
      then show ?thesis using list_all2_nthD2 [OF resolve_all_sound [OF rs(1)]] by blast
    qed
    then show ?thesis using rs nonempty nub_on_distinct nub_on_subset [of ds_id rs] by auto
  qed
  moreover have "\<exists>c \<in> set pool. ds_id d = sc_id c \<and> ds_enabled d \<and> ds_type d \<in> set ?allowed \<and> validate_category c = None \<and>
      (\<exists>profile. get_backend_profile (ds_type d) = Inr profile \<and> bp_validate profile c = None \<and> ds_backend d = bp_type profile)"
    if "resolve_one pool ?allowed i = Inr d" for i d
    using resolve_one_sound [OF that] by blast
  ultimately show ?thesis using ref by (intro conjI) (assumption, blast)
qed

definition sample_schema :: "int \<Rightarrow> string \<Rightarrow> ds_schema" where
  "sample_schema i name = \<lparr>sc_id = i, sc_name = name, sc_type = ''0'', sc_ds_mad = ''fs'', sc_tm_mad = ''ssh'', sc_disk_type = ''0'',
     sc_free_mb = 500, sc_total_mb = 1000, sc_ready = Some True, sc_template = Map.empty\<rparr>"

theorem resolve_datastores_spec_witness:
  "\<exists>ds. resolve_datastores [sample_schema 1 ''default'', sample_schema 100 ''csi'']
     \<lparr>sel_identifiers = [''100'', ''default'', ''1''], sel_policy = ''ordered'', sel_types = []\<rparr> = Inr ds \<and>
     map ds_id ds = [100, 1] \<and> distinct (map ds_id ds)"
proof -
  let ?sel = "\<lparr>sel_identifiers = [''100'', ''default'', ''1''], sel_policy = ''ordered'', sel_types = []\<rparr>"
  let ?pool = "[sample_schema 1 ''default'', sample_schema 100 ''csi'']"
  have "(case resolve_datastores ?pool ?sel of Inr ds \<Rightarrow> map ds_id ds = [100, 1] | Inl _ \<Rightarrow> False)" by code_simp
  then obtain ds where ds: "resolve_datastores ?pool ?sel = Inr ds" "map ds_id ds = [100, 1]" by (auto split: sum.splits)
  then show ?thesis using resolve_datastores_spec [of ?sel ?pool] by auto
qed

end
