(* ===== verification/Datastore_Selection.thy ===== *)
theory Datastore_Selection
  imports Datastores Complex_Main
begin

text \<open>
  Selection of datastores for provisioning: the policies of \<open>opennebula/datastore.go\<close> and
  the autopilot policy with its record of recent failures and attempts in flight
  (\<open>opennebula/selection_runtime.go\<close>).

  The scores of the autopilot are \<open>float64\<close> values.  Their type and the operations on
  them are arguments (\<open>float_ops\<close>); what the order of the result relies on is only that
  the comparison is a strict weak order on the scores (\<open>weak_order\<close>).
\<close>

section \<open>Stable sorting by a comparison\<close>

text \<open>\<open>sort.SliceStable\<close>: an element goes before the first one that is not less than it,
  taken from the right.\<close>

fun insert_by :: "('a \<Rightarrow> 'a \<Rightarrow> bool) \<Rightarrow> 'a \<Rightarrow> 'a list \<Rightarrow> 'a list" where
  "insert_by lt x [] = [x]"
| "insert_by lt x (y # ys) = (if lt y x then y # insert_by lt x ys else x # y # ys)"

definition stable_sort :: "('a \<Rightarrow> 'a \<Rightarrow> bool) \<Rightarrow> 'a list \<Rightarrow> 'a list" where
  "stable_sort lt xs = foldr (insert_by lt) xs []"

definition weak_order :: "('a \<Rightarrow> 'a \<Rightarrow> bool) \<Rightarrow> bool" where
  "weak_order lt \<longleftrightarrow> (\<forall>x. \<not> lt x x) \<and> (\<forall>x y z. lt x y \<longrightarrow> lt y z \<longrightarrow> lt x z) \<and>
     (\<forall>x y z. lt x z \<longrightarrow> lt x y \<or> lt y z)"

text \<open>No element is less than one before it.\<close>

definition sorted_by :: "('a \<Rightarrow> 'a \<Rightarrow> bool) \<Rightarrow> 'a list \<Rightarrow> bool" where
  "sorted_by lt = sorted_wrt (\<lambda>x y. \<not> lt y x)"

definition equivalent_by :: "('a \<Rightarrow> 'a \<Rightarrow> bool) \<Rightarrow> 'a \<Rightarrow> 'a \<Rightarrow> bool" where
  "equivalent_by lt x y \<longleftrightarrow> \<not> lt x y \<and> \<not> lt y x"

section \<open>Policies\<close>

datatype selection_policy = LeastUsed | Ordered | Autopilot

definition normalize_policy :: "string \<Rightarrow> string" where
  "normalize_policy policy = (let p = lower_trim policy in if p = [] then ''least-used'' else p)"

definition new_datastore_selector :: "string \<Rightarrow> ds_error + selection_policy" where
  "new_datastore_selector policy =
     (let p = normalize_policy policy
      in if p = ''least-used'' then Inr LeastUsed
         else if p = ''ordered'' then Inr Ordered
         else if p = ''autopilot'' then Inr Autopilot
         else Inl (UnsupportedPolicy policy))"

definition less_used :: "datastore \<Rightarrow> datastore \<Rightarrow> bool" where
  "less_used a b \<longleftrightarrow> (if ds_free a = ds_free b then False else ds_free a > ds_free b)"

definition least_used_sort :: "datastore list \<Rightarrow> datastore list" where
  "least_used_sort ds = stable_sort less_used ds"

definition ordered_sort :: "datastore list \<Rightarrow> datastore list" where
  "ordered_sort ds = ds"

definition sum_datastore_capacity :: "datastore list \<Rightarrow> int" where
  "sum_datastore_capacity ds = foldl (\<lambda>total d. int64 (total + ds_free d)) 0 ds"

section \<open>Recent failures and attempts in flight\<close>

record selection_runtime =
  sr_failures :: "int \<Rightarrow> go_time list"
  sr_in_flight :: "int \<Rightarrow> int"

definition empty_runtime :: selection_runtime where
  "empty_runtime = \<lparr>sr_failures = (\<lambda>_. []), sr_in_flight = (\<lambda>_. 0)\<rparr>"

definition begin_attempt :: "int \<Rightarrow> selection_runtime \<Rightarrow> selection_runtime" where
  "begin_attempt i r = r\<lparr>sr_in_flight := (sr_in_flight r)(i := sr_in_flight r i + 1)\<rparr>"

definition finish_attempt :: "int \<Rightarrow> selection_runtime \<Rightarrow> selection_runtime" where
  "finish_attempt i r =
     (if sr_in_flight r i \<le> 1 then r\<lparr>sr_in_flight := (sr_in_flight r)(i := 0)\<rparr>
      else r\<lparr>sr_in_flight := (sr_in_flight r)(i := sr_in_flight r i - 1)\<rparr>)"

definition failure_window :: duration where "failure_window = 15 * minute"

definition prune_failures :: "go_time \<Rightarrow> selection_runtime \<Rightarrow> selection_runtime" where
  "prune_failures now r =
     r\<lparr>sr_failures := (\<lambda>i. filter (\<lambda>ts. now - failure_window < ts) (sr_failures r i))\<rparr>"

definition record_result :: "go_time \<Rightarrow> int \<Rightarrow> bool \<Rightarrow> selection_runtime \<Rightarrow> selection_runtime" where
  "record_result now i success r =
     (let r = prune_failures now r
      in if success then r else r\<lparr>sr_failures := (sr_failures r)(i := sr_failures r i @ [now])\<rparr>)"

text \<open>The snapshot prunes and counts.\<close>

definition runtime_snapshot ::
  "go_time \<Rightarrow> selection_runtime \<Rightarrow> (int \<Rightarrow> int) \<times> (int \<Rightarrow> int) \<times> selection_runtime" where
  "runtime_snapshot now r =
     (let r = prune_failures now r in (\<lambda>i. int (length (sr_failures r i)), sr_in_flight r, r))"

section \<open>The autopilot\<close>

text \<open>The floating-point type of the scores: conversion from integers, the four operations,
  the comparison, and the weights 0.4, 0.3, 0.2 and 0.1.\<close>

record 'f float_ops =
  fl_of_int :: "int \<Rightarrow> 'f"
  fl_div :: "'f \<Rightarrow> 'f \<Rightarrow> 'f"
  fl_mul :: "'f \<Rightarrow> 'f \<Rightarrow> 'f"
  fl_add :: "'f \<Rightarrow> 'f \<Rightarrow> 'f"
  fl_sub :: "'f \<Rightarrow> 'f \<Rightarrow> 'f"
  fl_less :: "'f \<Rightarrow> 'f \<Rightarrow> bool"
  fl_ratio_weight :: 'f
  fl_free_weight :: 'f
  fl_failure_weight :: 'f
  fl_flight_weight :: 'f

definition running_max :: "'f float_ops \<Rightarrow> ('a \<Rightarrow> 'f) \<Rightarrow> 'a list \<Rightarrow> 'f" where
  "running_max fl f xs = foldl (\<lambda>m x. if fl_less fl m (f x) then f x else m) (fl_of_int fl 0) xs"

definition ratio_or_zero :: "'f float_ops \<Rightarrow> bool \<Rightarrow> 'f \<Rightarrow> 'f \<Rightarrow> 'f" where
  "ratio_or_zero fl positive a b = (if positive then fl_div fl a b else fl_of_int fl 0)"

definition selection_score ::
  "'f float_ops \<Rightarrow> (int \<Rightarrow> int) \<Rightarrow> (int \<Rightarrow> int) \<Rightarrow> datastore list \<Rightarrow> datastore \<Rightarrow> 'f" where
  "selection_score fl failures in_flight ds d =
     (let zero = fl_of_int fl 0;
          max_free = running_max fl (\<lambda>c. fl_of_int fl (ds_free c)) ds;
          max_failures = running_max fl (\<lambda>c. fl_of_int fl (failures (ds_id c))) ds;
          max_flight = running_max fl (\<lambda>c. fl_of_int fl (in_flight (ds_id c))) ds;
          free_ratio = ratio_or_zero fl (0 < ds_total d) (fl_of_int fl (ds_free d)) (fl_of_int fl (ds_total d));
          absolute_free = ratio_or_zero fl (fl_less fl zero max_free) (fl_of_int fl (ds_free d)) max_free;
          failure_penalty = ratio_or_zero fl (fl_less fl zero max_failures) (fl_of_int fl (failures (ds_id d))) max_failures;
          flight_penalty = ratio_or_zero fl (fl_less fl zero max_flight) (fl_of_int fl (in_flight (ds_id d))) max_flight
      in fl_sub fl (fl_sub fl (fl_add fl (fl_mul fl free_ratio (fl_ratio_weight fl)) (fl_mul fl absolute_free (fl_free_weight fl)))
           (fl_mul fl failure_penalty (fl_failure_weight fl))) (fl_mul fl flight_penalty (fl_flight_weight fl)))"

text \<open>Scores are looked up by number; for candidates with the same number the last one
  counts.\<close>

definition score_by_id ::
  "'f float_ops \<Rightarrow> (int \<Rightarrow> int) \<Rightarrow> (int \<Rightarrow> int) \<Rightarrow> datastore list \<Rightarrow> int \<Rightarrow> 'f" where
  "score_by_id fl failures in_flight ds i =
     (case find (\<lambda>d. ds_id d = i) (rev ds) of
        None \<Rightarrow> fl_of_int fl 0 | Some d \<Rightarrow> selection_score fl failures in_flight ds d)"

definition autopilot_sort ::
  "'f float_ops \<Rightarrow> go_time \<Rightarrow> selection_runtime \<Rightarrow> datastore list \<Rightarrow> datastore list \<times> selection_runtime" where
  "autopilot_sort fl now r ds =
     (if length ds < 2 then (ds, r)
      else (let (failures, in_flight, r) = runtime_snapshot now r;
                score = (\<lambda>d. score_by_id fl failures in_flight ds (ds_id d))
            in (stable_sort (\<lambda>a b. fl_less fl (score b) (score a)) ds, r)))"

definition order_datastores ::
  "'f float_ops \<Rightarrow> go_time \<Rightarrow> selection_runtime \<Rightarrow> datastore list \<Rightarrow> string \<Rightarrow>
   (ds_error + datastore list) \<times> selection_runtime" where
  "order_datastores fl now r ds policy =
     (case new_datastore_selector policy of
        Inl e \<Rightarrow> (Inl e, r)
      | Inr LeastUsed \<Rightarrow> (Inr (least_used_sort ds), r)
      | Inr Ordered \<Rightarrow> (Inr (ordered_sort ds), r)
      | Inr Autopilot \<Rightarrow> (let (ds, r) = autopilot_sort fl now r ds in (Inr ds, r)))"

section \<open>Lemmas\<close>

lemma insert_by_mset [simp]: "mset (insert_by lt x xs) = add_mset x (mset xs)"
  by (induction xs) auto

lemma stable_sort_mset [simp]: "mset (stable_sort lt xs) = mset xs"
  unfolding stable_sort_def by (induction xs) auto

lemma insert_by_sorted:
  assumes "weak_order lt" "sorted_by lt xs"
  shows "sorted_by lt (insert_by lt x xs)"
  using assms(2)
proof (induction xs)
  case (Cons y ys)
  have mem: "set (insert_by lt x ys) = insert x (set ys)" by (metis insert_by_mset set_mset_add_mset_insert set_mset_mset)
  show ?case
  proof (cases "lt y x")
    case True
    then have "\<not> lt x y" using assms(1) by (meson weak_order_def)
    then show ?thesis using True Cons mem by (auto simp: sorted_by_def)
  next
    case False
    have "\<not> lt z x" if "z \<in> set ys" for z
      using that Cons.prems False assms(1) unfolding weak_order_def sorted_by_def by (metis sorted_wrt.simps(2))
    then show ?thesis using False Cons.prems by (auto simp: sorted_by_def)
  qed
qed (simp add: sorted_by_def)

lemma stable_sort_sorted: "weak_order lt \<Longrightarrow> sorted_by lt (stable_sort lt xs)"
  unfolding stable_sort_def by (induction xs) (simp_all add: insert_by_sorted, simp add: sorted_by_def)

lemma insert_by_stable:
  assumes "weak_order lt"
  shows "filter (equivalent_by lt z) (insert_by lt x xs) = filter (equivalent_by lt z) (x # xs)"
proof (induction xs)
  case (Cons y ys)
  show ?case
  proof (cases "lt y x")
    case True
    have "\<not> (equivalent_by lt z x \<and> equivalent_by lt z y)"
      using True assms unfolding weak_order_def equivalent_by_def by meson
    then show ?thesis using True Cons by auto
  qed simp
qed simp

lemma stable_sort_stable:
  "weak_order lt \<Longrightarrow> filter (equivalent_by lt z) (stable_sort lt xs) = filter (equivalent_by lt z) xs"
  unfolding stable_sort_def by (induction xs) (auto simp: insert_by_stable)

lemma weak_order_less_used: "weak_order less_used"
  by (auto simp: weak_order_def less_used_def)

lemma weak_order_inv: "weak_order lt \<Longrightarrow> weak_order (\<lambda>a b. lt (f b) (f a))"
  unfolding weak_order_def by meson

lemma finish_begin_attempt: "0 \<le> sr_in_flight r i \<Longrightarrow> finish_attempt i (begin_attempt i r) = r"
  by (cases r) (auto simp: finish_attempt_def begin_attempt_def fun_upd_idem)

lemma equivalent_less_used: "equivalent_by less_used a b \<longleftrightarrow> ds_free a = ds_free b"
  by (auto simp: equivalent_by_def less_used_def)

text \<open>The score the autopilot gives a candidate at time \<open>now\<close>.\<close>

definition autopilot_score :: "'f float_ops \<Rightarrow> go_time \<Rightarrow> selection_runtime \<Rightarrow> datastore list \<Rightarrow> datastore \<Rightarrow> 'f" where
  "autopilot_score fl now r ds d =
     (let (failures, in_flight, _) = runtime_snapshot now r in score_by_id fl failures in_flight ds (ds_id d))"

lemma autopilot_sort_alt:
  "2 \<le> length ds \<Longrightarrow> fst (autopilot_sort fl now r ds) =
    stable_sort (\<lambda>a b. fl_less fl (autopilot_score fl now r ds b) (autopilot_score fl now r ds a)) ds"
  by (simp add: autopilot_sort_def autopilot_score_def runtime_snapshot_def Let_def)

section \<open>Properties\<close>

text \<open>C28. Order of the candidates: every policy returns exactly the candidates it was given.
  The ordered policy keeps their order; least-used puts more free space first, and the
  autopilot a higher score first, both keeping the configured order among equals.\<close>

theorem selection_order:
  assumes "weak_order (fl_less fl)" and out: "order_datastores fl now r ds policy = (Inr out, r')"
  shows "mset out = mset ds \<and>
    (case new_datastore_selector policy of
       Inl _ \<Rightarrow> False
     | Inr Ordered \<Rightarrow> out = ds
     | Inr LeastUsed \<Rightarrow> sorted_wrt (\<lambda>a b. ds_free a \<ge> ds_free b) out \<and>
         (\<forall>n. filter (\<lambda>d. ds_free d = n) out = filter (\<lambda>d. ds_free d = n) ds)
     | Inr Autopilot \<Rightarrow>
         sorted_by (\<lambda>a b. fl_less fl (autopilot_score fl now r ds b) (autopilot_score fl now r ds a)) out \<and>
         (\<forall>z. filter (equivalent_by (\<lambda>a b. fl_less fl (autopilot_score fl now r ds b) (autopilot_score fl now r ds a)) z) out =
            filter (equivalent_by (\<lambda>a b. fl_less fl (autopilot_score fl now r ds b) (autopilot_score fl now r ds a)) z) ds))"
proof (cases "new_datastore_selector policy")
  case (Inr p)
  show ?thesis
  proof (cases p)
    case LeastUsed
    then have o: "out = stable_sort less_used ds" using out Inr by (simp add: order_datastores_def least_used_sort_def)
    have "sorted_wrt (\<lambda>a b. \<not> less_used b a) out"
      using stable_sort_sorted [OF weak_order_less_used] unfolding o sorted_by_def .
    then have "sorted_wrt (\<lambda>a b. ds_free a \<ge> ds_free b) out"
      by (rule sorted_wrt_mono_rel [rotated]) (auto simp: less_used_def split: if_splits)
    moreover have "filter (\<lambda>d. ds_free d = n) out = filter (\<lambda>d. ds_free d = n) ds" for n
      using stable_sort_stable [OF weak_order_less_used, of "undefined\<lparr>ds_free := n\<rparr>" ds]
      unfolding o equivalent_less_used by (simp add: eq_commute)
    ultimately show ?thesis using Inr LeastUsed o by simp
  next
    case Ordered
    then show ?thesis using out Inr by (simp add: order_datastores_def ordered_sort_def)
  next
    case Autopilot
    let ?lt = "\<lambda>a b. fl_less fl (autopilot_score fl now r ds b) (autopilot_score fl now r ds a)"
    have o: "out = fst (autopilot_sort fl now r ds)" using out Inr Autopilot by (simp add: order_datastores_def split: prod.splits)
    have w: "weak_order ?lt" using weak_order_inv [OF assms(1)] .
    show ?thesis
    proof (cases "length ds < 2")
      case True
      then have "out = ds" by (simp add: o autopilot_sort_def)
      moreover have "sorted_by ?lt ds" using True by (cases ds; cases "tl ds") (auto simp: sorted_by_def)
      ultimately show ?thesis using Inr Autopilot by simp
    next
      case False
      then have "out = stable_sort ?lt ds" unfolding o by (intro autopilot_sort_alt) simp
      then show ?thesis using Inr Autopilot stable_sort_sorted [OF w] stable_sort_stable [OF w] by simp
    qed
  qed
qed (use out in \<open>simp add: order_datastores_def\<close>)

text \<open>Exact fractions as an instance of the score arithmetic.\<close>

definition sample_float_ops :: "rat float_ops" where
  "sample_float_ops = \<lparr>fl_of_int = of_int, fl_div = (/), fl_mul = (*), fl_add = (+), fl_sub = (-), fl_less = (<),
     fl_ratio_weight = 4 / 10, fl_free_weight = 3 / 10, fl_failure_weight = 2 / 10, fl_flight_weight = 1 / 10\<rparr>"

definition sample_datastore :: "int \<Rightarrow> int \<Rightarrow> datastore" where
  "sample_datastore i free = (datastore_from_schema (sample_schema i ''ds''))\<lparr>ds_free := free, ds_total := 100\<rparr>"

theorem selection_order_witness:
  "\<exists>out. fst (order_datastores sample_float_ops 5 empty_runtime [sample_datastore 1 40, sample_datastore 2 70] ''autopilot'') = Inr out \<and>
     mset out = mset [sample_datastore 1 40, sample_datastore 2 70]"
proof -
  have w: "weak_order (fl_less sample_float_ops)" by (auto simp: weak_order_def sample_float_ops_def)
  obtain x r' where x: "order_datastores sample_float_ops 5 empty_runtime [sample_datastore 1 40, sample_datastore 2 70] ''autopilot'' = (x, r')"
    by fastforce
  have "new_datastore_selector ''autopilot'' = Inr Autopilot"
    by (simp add: new_datastore_selector_def normalize_policy_def lower_trim_def trim_space_def is_space_def to_lower_def lower_char_def)
  then obtain out where "x = Inr out" using x by (auto simp: order_datastores_def split: prod.splits)
  then show ?thesis using selection_order [OF w, of 5 empty_runtime _ "''autopilot''" out r'] x by simp
qed

end
