(* ===== verification/Cloud_Api.thy ===== *)
theory Cloud_Api
  imports Datastore_Selection
begin

text \<open>
  The OpenNebula API as the persistent disk provider calls it, and the pure helpers of
  \<open>opennebula/persistentdisk.go\<close>, \<open>opennebula/host_artifact.go\<close>,
  \<open>opennebula/vm_lookup.go\<close> and \<open>opennebula/opennebula.go\<close>: disk targets, sizes,
  requested-size metadata, host artifacts and timeouts.

  The API is an argument: a record of calls on a cloud state \<open>'s\<close>.  Each call returns an
  error message or a value, and the next state, so that anything may happen in the cloud
  between two calls.
\<close>

section \<open>Objects of the API\<close>

text \<open>A disk of a virtual machine: the attributes that may be missing are options.\<close>

record vm_disk =
  dk_image :: "int option"
  dk_id :: "string option"
  dk_target :: "string option"
  dk_serial :: "string option"
  dk_size_mb :: "int option"

record history_record =
  hr_seq :: int
  hr_ds :: int
  hr_host :: int
  hr_hostname :: string

record vm_info =
  vm_id :: int
  vm_name :: string
  vm_disks :: "vm_disk list"
  vm_context_disk :: "string option"
  vm_history :: "history_record list"
  vm_running :: "bool option"
  vm_error :: "string option"

datatype image_state = ImageReady | ImageUsed | ImageOther

text \<open>The state is given as far as the code compares it, with its name and raw number.
  \<open>im_strs\<close> are all values of a template key, \<open>im_str\<close> the single value if there is one.\<close>

record image_info =
  im_id :: int
  im_name :: string
  im_size_mb :: int
  im_datastore :: "int option"
  im_state :: "image_state option"
  im_state_name :: "string option"
  im_state_raw :: int
  im_running :: int
  im_strs :: "string \<Rightarrow> string list"
  im_str :: "string \<Rightarrow> string option"
  im_snapshots :: "(int \<times> int) list"
  im_vms :: "int list"

record image_request =
  ir_name :: string
  ir_size_mb :: int
  ir_owner :: string
  ir_shareable :: bool
  ir_fs :: string
  ir_dev_prefix :: string

record disk_request =
  dr_image :: int
  dr_serial :: string
  dr_params :: "(string \<times> string) list"
  dr_readonly :: bool

text \<open>The requested-size metadata that is merged into the template of an image.\<close>

record size_metadata =
  sz_bytes :: int
  sz_mb :: int
  sz_at :: go_time

type_synonym ('s, 'a) call = "'s \<Rightarrow> (string + 'a) \<times> 's"

record 's one_api =
  api_image_by_name :: "string \<Rightarrow> ('s, int) call"
  api_image_info :: "int \<Rightarrow> ('s, image_info) call"
  api_image_create :: "image_request \<Rightarrow> int \<Rightarrow> ('s, int) call"
  api_image_clone :: "int \<Rightarrow> string \<Rightarrow> int \<Rightarrow> ('s, int) call"
  api_image_delete :: "int \<Rightarrow> ('s, unit) call"
  api_image_update :: "int \<Rightarrow> size_metadata \<Rightarrow> ('s, unit) call"
  api_snapshot_create :: "int \<Rightarrow> string \<Rightarrow> ('s, int) call"
  api_snapshot_delete :: "int \<Rightarrow> int \<Rightarrow> ('s, unit) call"
  api_images :: "('s, image_info list) call"
  api_images_page :: "int \<Rightarrow> int \<Rightarrow> ('s, image_info list) call"
  api_vm_by_name :: "string \<Rightarrow> ('s, int) call"
  api_vms :: "('s, vm_info list) call"
  api_vm_info :: "int \<Rightarrow> ('s, vm_info) call"
  api_datastores :: "('s, ds_schema list) call"
  api_disk_attach :: "int \<Rightarrow> disk_request \<Rightarrow> ('s, unit) call"
  api_disk_detach :: "int \<Rightarrow> int \<Rightarrow> ('s, unit) call"
  api_disk_resize :: "int \<Rightarrow> int \<Rightarrow> int \<Rightarrow> ('s, unit) call"
  api_now :: "'s \<Rightarrow> go_time"
  api_tick :: "'s \<Rightarrow> bool \<times> 's"

text \<open>\<open>api_tick\<close> is one \<open>select\<close> on the deadline and the ticker: whether the deadline was
  taken, and the state afterwards.\<close>

section \<open>Node lookup\<close>

datatype vm_resolution = ByName | PoolExactMatch | ResolutionNotFound | DuplicateMatch

datatype lookup_error = ListFailed string | VmNotFound string | VmDuplicate string "int list"

definition resolve_node_vm_id ::
  "string \<Rightarrow> ('s, int) call \<Rightarrow> ('s, vm_info list) call \<Rightarrow> 's \<Rightarrow> ((lookup_error + int) \<times> vm_resolution) \<times> 's" where
  "resolve_node_vm_id name by_name list_vms s =
     (case by_name s of
        (Inr i, s) \<Rightarrow> ((Inr i, ByName), s)
      | (Inl _, s) \<Rightarrow>
          (case list_vms s of
             (Inl e, s) \<Rightarrow> ((Inl (ListFailed e), ResolutionNotFound), s)
           | (Inr vms, s) \<Rightarrow>
               (case map vm_id (filter (\<lambda>v. equal_fold (vm_name v) name) vms) of
                  [] \<Rightarrow> ((Inl (VmNotFound name), ResolutionNotFound), s)
                | [i] \<Rightarrow> ((Inr i, PoolExactMatch), s)
                | is \<Rightarrow> ((Inl (VmDuplicate name is), DuplicateMatch), s))))"

section \<open>Disk numbers and targets\<close>

definition disk_int_id :: "vm_disk \<Rightarrow> int option" where
  "disk_int_id d = (case dk_id d of None \<Rightarrow> None | Some raw \<Rightarrow> atoi raw)"

fun letter_value :: "int \<Rightarrow> string \<Rightarrow> int option" where
  "letter_value index [] = Some index"
| "letter_value index (c # cs) =
     (if (of_char c :: nat) < 97 \<or> 122 < (of_char c :: nat) then None
      else letter_value (index * 26 + int (of_char c - 96)) cs)"

definition linux_disk_target_index :: "string \<Rightarrow> string \<Rightarrow> int option" where
  "linux_disk_target_index target prefix =
     (if prefix = [] \<or> \<not> has_prefix target prefix then None
      else (let suffix = trim_prefix target prefix
            in if suffix = [] then None
               else map_option (\<lambda>i. i - 1) (letter_value 0 suffix)))"

function disk_letters :: "nat \<Rightarrow> string \<Rightarrow> string" where
  "disk_letters index letters =
     (let letters = char_of (97 + index mod 26) # letters
      in if index < 26 then letters else disk_letters (index div 26 - 1) letters)"
  by pat_completeness auto
termination by (relation "measure fst") auto

declare disk_letters.simps [simp del]

definition linux_disk_letters :: "int \<Rightarrow> string" where
  "linux_disk_letters index = disk_letters (nat (if index < 0 then 0 else index)) []"

definition first_unused :: "int list \<Rightarrow> int option" where
  "first_unused used = find (\<lambda>i. i \<notin> set used) (map int [0..<512])"

definition used_disk_ids :: "vm_info \<Rightarrow> int list" where
  "used_disk_ids v =
     List.map_filter (\<lambda>d. case disk_int_id d of Some i \<Rightarrow> if 0 \<le> i then Some i else None | None \<Rightarrow> None) (vm_disks v) @
     (case vm_context_disk v of
        None \<Rightarrow> []
      | Some raw \<Rightarrow> (case atoi (trim_space raw) of Some i \<Rightarrow> if 0 \<le> i then [i] else [] | None \<Rightarrow> []))"

definition next_available_disk_id :: "vm_info \<Rightarrow> int" where
  "next_available_disk_id v =
     (case first_unused (used_disk_ids v) of Some i \<Rightarrow> i | None \<Rightarrow> int (length (remdups (used_disk_ids v))))"

definition dev_prefix :: "str_map \<Rightarrow> string" where
  "dev_prefix params =
     (case params ''devPrefix'' of
        None \<Rightarrow> ''sd'' | Some p \<Rightarrow> if trim_space p = [] then ''sd'' else trim_space p)"

definition used_target_indices :: "string \<Rightarrow> vm_info \<Rightarrow> int list" where
  "used_target_indices prefix v =
     List.map_filter (\<lambda>d. case dk_target d of None \<Rightarrow> None
        | Some t \<Rightarrow> linux_disk_target_index (trim_space t) prefix) (vm_disks v)"

definition next_available_disk_target :: "vm_info \<Rightarrow> str_map \<Rightarrow> string" where
  "next_available_disk_target v params =
     (let prefix = dev_prefix params
      in case first_unused (used_target_indices prefix v) of
           Some i \<Rightarrow> prefix @ linux_disk_letters i | None \<Rightarrow> [])"

text \<open>The parameters of a disk that are passed on, with the attribute each of them sets.\<close>

definition disk_param_keys :: "string list" where
  "disk_param_keys = [''devPrefix'', ''cache'', ''driver'', ''io'', ''ioThread'', ''virtioBLKQueues'', ''totalBytesSec'',
     ''readBytesSec'', ''writeBytesSec'', ''totalIOPSSec'', ''readIOPSSec'', ''writeIOPSSec'', ''totalBytesSecMax'',
     ''readBytesSecMax'', ''writeBytesSecMax'', ''totalIOPSSecMax'', ''readIOPSSecMax'', ''writeIOPSSecMax'',
     ''totalBytesSecMaxLength'', ''readBytesSecMaxLength'', ''writeBytesSecMaxLength'', ''totalIOPSSecMaxLength'',
     ''readIOPSSecMaxLength'', ''writeIOPSSecMaxLength'', ''sizeIOPSSec'']"

definition add_disk_params :: "(string \<times> string) list \<Rightarrow> (string \<times> string) list" where
  "add_disk_params params = filter (\<lambda>(k, v). v \<noteq> [] \<and> k \<in> set disk_param_keys) params"

section \<open>Sizes\<close>

definition mib :: int where "mib = 1048576"

definition bytes_to_mib_round_up :: "int \<Rightarrow> int" where
  "bytes_to_mib_round_up bytes =
     (let mb = go_div bytes mib in if go_mod bytes mib \<noteq> 0 then mb + 1 else mb)"

definition disk_size_bytes :: "vm_disk \<Rightarrow> int option" where
  "disk_size_bytes d = map_option (\<lambda>mb. int64 (mb * mib)) (dk_size_mb d)"

definition effective_volume_size :: "int \<Rightarrow> int \<Rightarrow> int" where
  "effective_volume_size canonical requested = (if requested > canonical then requested else canonical)"

text \<open>The largest valid value among the raw values of a key, scaled, and the invalid ones.\<close>

fun largest_valid :: "int \<Rightarrow> string list \<Rightarrow> int \<times> string list" where
  "largest_valid scale [] = (0, [])"
| "largest_valid scale (raw # raws) =
     (let v = trim_space raw; (best, bad) = largest_valid scale raws
      in if v = [] then (best, bad)
         else (case atoi v of
                 None \<Rightarrow> (best, v # bad)
               | Some n \<Rightarrow> if n \<le> 0 then (best, v # bad)
                            else (max (int64 (n * scale)) best, bad)))"

definition csi_requested_size :: "image_info \<Rightarrow> string list + int" where
  "csi_requested_size im =
     (let (bytes, bad) = largest_valid 1 (im_strs im ''CSI_REQUESTED_SIZE_BYTES'')
      in if 0 < bytes then Inr bytes
         else (let (bytes, bad') = largest_valid mib (im_strs im ''CSI_REQUESTED_SIZE_MB'')
               in if 0 < bytes then Inr bytes else if bad @ bad' \<noteq> [] then Inl (bad @ bad') else Inr 0))"

definition has_csi_expansion_marker :: "image_info \<Rightarrow> bool" where
  "has_csi_expansion_marker im \<longleftrightarrow>
     (case im_str im ''CSI_EXPANDED_BY'' of None \<Rightarrow> False | Some v \<Rightarrow> trim_space v \<noteq> []) \<or>
     (case im_str im ''CSI_EXPANDED_AT'' of None \<Rightarrow> False | Some v \<Rightarrow> trim_space v \<noteq> [])"

definition at_least :: "string option \<Rightarrow> int \<Rightarrow> bool" where
  "at_least raw n =
     (case raw of None \<Rightarrow> False
      | Some r \<Rightarrow> trim_space r \<noteq> [] \<and> (case atoi (trim_space r) of None \<Rightarrow> False | Some v \<Rightarrow> n \<le> v))"

definition verify_csi_requested_size :: "image_info \<Rightarrow> int \<Rightarrow> int \<Rightarrow> bool" where
  "verify_csi_requested_size im bytes mb \<longleftrightarrow>
     at_least (im_str im ''CSI_REQUESTED_SIZE_BYTES'') bytes \<and> at_least (im_str im ''CSI_REQUESTED_SIZE_MB'') mb \<and>
     (case im_str im ''CSI_EXPANDED_BY'' of None \<Rightarrow> False | Some v \<Rightarrow> trim_space v = ''csi.opennebula.io'') \<and>
     (case im_str im ''CSI_EXPANDED_AT'' of None \<Rightarrow> False | Some v \<Rightarrow> trim_space v \<noteq> [])"

definition attach_restore_resize_plan :: "int \<Rightarrow> int \<Rightarrow> bool \<times> int" where
  "attach_restore_resize_plan attached requested =
     (if requested \<le> 0 \<or> requested \<le> attached then (False, 0) else (True, bytes_to_mib_round_up requested))"

section \<open>Messages\<close>

definition is_insufficient_capacity :: "string \<Rightarrow> bool" where
  "is_insufficient_capacity message \<longleftrightarrow>
     list_ex (contains_sub (to_lower message)) [''not enough space'', ''not enough free space'', ''insufficient space'',
       ''insufficient capacity'', ''no space left'', ''not enough capacity'']"

definition is_hotplug_state_message :: "string \<Rightarrow> bool" where
  "is_hotplug_state_message message \<longleftrightarrow> contains_sub (to_lower message) ''wrong state hotplug''"

section \<open>Timeouts\<close>

record hotplug_policy =
  hp_base :: duration
  hp_per_100gib :: duration
  hp_max :: duration
  hp_poll :: duration

definition new_hotplug_policy :: "hotplug_policy \<Rightarrow> hotplug_policy" where
  "new_hotplug_policy p =
     (let p = (if hp_base p \<le> 0 then p\<lparr>hp_base := 60 * second\<rparr> else p);
          p = (if hp_max p \<le> 0 \<or> hp_max p < hp_base p then p\<lparr>hp_max := hp_base p\<rparr> else p)
      in if hp_poll p \<le> 0 then p\<lparr>hp_poll := second\<rparr> else p)"

text \<open>\<open>ceil_div\<close> is the ceiling of a quotient computed in \<open>float64\<close>.\<close>

definition compute_hotplug_timeout :: "(int \<Rightarrow> int \<Rightarrow> int) \<Rightarrow> hotplug_policy \<Rightarrow> int \<Rightarrow> duration" where
  "compute_hotplug_timeout ceil_div p bytes =
     (let timeout = (if hp_base p \<le> 0 then 60 * second else hp_base p);
          timeout = (if 0 < bytes \<and> 0 < hp_per_100gib p
                     then (let increments = ceil_div (ceil_div bytes (mib * 1024)) 100;
                               increments = (if increments < 1 then 1 else increments)
                           in int64 (timeout + int64 (increments * hp_per_100gib p)))
                     else timeout);
          timeout = (if 0 < hp_max p \<and> hp_max p < timeout then hp_max p else timeout)
      in if timeout < hp_base p then hp_base p else timeout)"

section \<open>Host artifacts\<close>

record artifact_target =
  at_volume :: string
  at_image :: int
  at_node :: string
  at_vm :: int
  at_host_id :: int
  at_host :: string
  at_ds_id :: int
  at_ds_name :: string
  at_ds_tm :: string
  at_disk :: int
  at_target :: string
  at_lv :: string

definition empty_artifact_target :: artifact_target where
  "empty_artifact_target = \<lparr>at_volume = [], at_image = 0, at_node = [], at_vm = 0, at_host_id = 0, at_host = [],
     at_ds_id = 0, at_ds_name = [], at_ds_tm = [], at_disk = 0, at_target = [], at_lv = []\<rparr>"

definition artifact_key :: "artifact_target \<Rightarrow> string" where
  "artifact_key t =
     (if 0 < at_vm t \<and> 0 < at_disk t then ''vm-'' @ itoa (at_vm t) @ ''.disk-'' @ itoa (at_disk t)
      else if trim_space (at_node t) \<noteq> [] \<and> 0 < at_disk t
        then ''node-'' @ trim_space (at_node t) @ ''.disk-'' @ itoa (at_disk t)
      else if 0 < at_vm t then ''vm-'' @ itoa (at_vm t)
      else trim_space (at_node t))"

definition lv_name :: "int \<Rightarrow> int \<Rightarrow> string" where
  "lv_name vm disk = ''lv-one-'' @ itoa vm @ ''-'' @ itoa disk"

text \<open>The pattern \<open>\b lv-one-(\d+)-(\d+) \b\<close>: the leftmost match that starts and ends at a word
  boundary, with its two numbers.\<close>

definition is_word_char :: "char \<Rightarrow> bool" where
  "is_word_char c \<longleftrightarrow> is_digit c \<or> c = CHR ''_'' \<or> (65 \<le> (of_char c :: nat) \<and> (of_char c :: nat) \<le> 90) \<or>
     (97 \<le> (of_char c :: nat) \<and> (of_char c :: nat) \<le> 122)"

definition match_lv_here :: "string \<Rightarrow> (string \<times> string \<times> string) option" where
  "match_lv_here s =
     (if \<not> has_prefix s ''lv-one-'' then None
      else (let rest = drop 7 s; vm = takeWhile is_digit rest; rest = dropWhile is_digit rest
            in if vm = [] \<or> \<not> has_prefix rest ''-'' then None
               else (let rest = drop 1 rest; disk = takeWhile is_digit rest; rest = dropWhile is_digit rest
                     in if disk = [] \<or> (rest \<noteq> [] \<and> is_word_char (hd rest)) then None
                        else Some (''lv-one-'' @ vm @ ''-'' @ disk, vm, disk))))"

fun find_lv :: "bool \<Rightarrow> string \<Rightarrow> (string \<times> string \<times> string) option" where
  "find_lv after_word [] = None"
| "find_lv after_word (c # s) =
     (case (if after_word then None else match_lv_here (c # s)) of
        Some m \<Rightarrow> Some m | None \<Rightarrow> find_lv (is_word_char c) s)"

text \<open>A conflict carries the target and the message it was recognised in.\<close>

definition positive_or :: "int \<Rightarrow> string \<Rightarrow> int" where
  "positive_or old raw = (case atoi raw of Some n \<Rightarrow> if 0 < n then n else old | None \<Rightarrow> old)"

definition conflict_from_message :: "string \<Rightarrow> artifact_target \<Rightarrow> string \<Rightarrow> (artifact_target \<times> string) option" where
  "conflict_from_message raw target cause =
     (let raw = (if trim_space raw = [] then cause else trim_space raw); lower = to_lower raw
      in if raw = [] then None
         else (case find_lv False raw of
                 Some (name, vm, disk) \<Rightarrow>
                   Some (target\<lparr>at_vm := positive_or (at_vm target) vm, at_disk := positive_or (at_disk target) disk,
                     at_lv := name\<rparr>, raw)
               | None \<Rightarrow>
                   if \<not> list_ex (contains_sub lower) [''attachdisk'', ''virsh'', ''logical volume'', ''already exists'', ''lvcreate'']
                   then None
                   else if at_vm target \<le> 0 \<or> at_disk target \<le> 0 then None
                   else Some (if trim_space (at_lv target) = []
                              then target\<lparr>at_lv := lv_name (at_vm target) (at_disk target)\<rparr> else target, raw)))"

section \<open>Attachment records\<close>

record disk_record =
  rec_node_name :: string
  rec_node :: int
  rec_disk :: int
  rec_target :: string
  rec_serial :: string

record attachment_metadata =
  md_volume :: string
  md_image :: int
  md_image_name :: string
  md_image_state :: string
  md_running :: int
  md_image_vms :: "int list"
  md_requested_node :: string
  md_requested_node_id :: int
  md_attached_here :: bool
  md_records :: "disk_record list"

definition conflicting_owners :: "attachment_metadata \<Rightarrow> int list" where
  "conflicting_owners m =
     (let other = (\<lambda>v. \<not> (v \<le> 0 \<or> (0 < md_requested_node_id m \<and> v = md_requested_node_id m)))
      in sort (remdups (filter other (md_image_vms m) @ filter other (map rec_node (md_records m)))))"

section \<open>History\<close>

text \<open>The record with the largest sequence number among those with a datastore; the first of
  equals.\<close>

definition latest_history_record :: "vm_info \<Rightarrow> history_record option" where
  "latest_history_record v =
     foldl (\<lambda>latest r. if hr_ds r < 0 then latest
        else (case latest of None \<Rightarrow> Some r | Some l \<Rightarrow> if hr_seq r > hr_seq l then Some r else latest)) None (vm_history v)"

definition find_datastore_by_id :: "ds_schema list \<Rightarrow> int \<Rightarrow> ds_schema option" where
  "find_datastore_by_id pool i = find (\<lambda>d. sc_id d = i) pool"

section \<open>Lemmas on targets\<close>

lemma letter_value_append:
  "letter_value i (xs @ ys) = (case letter_value i xs of None \<Rightarrow> None | Some j \<Rightarrow> letter_value j ys)"
  by (induction i xs rule: letter_value.induct) auto

lemma disk_letters_acc: "disk_letters n ls = disk_letters n [] @ ls"
proof (induction n arbitrary: ls rule: less_induct)
  case (less n)
  show ?case
  proof (cases "n < 26")
    case True
    then show ?thesis by (subst (1 2) disk_letters.simps) simp
  next
    case False
    then have "n div 26 - 1 < n" by simp
    then show ?thesis
      using less [of "n div 26 - 1" "char_of (97 + n mod 26) # ls"] less [of "n div 26 - 1" "[char_of (97 + n mod 26)]"] False
      by (subst (1 2) disk_letters.simps) simp
  qed
qed

lemma letter_value_last:
  assumes "d < 26"
  shows "letter_value i [char_of (97 + d)] = Some (i * 26 + int d + 1)"
proof -
  have "(of_char (char_of (97 + d) :: char) :: nat) = 97 + d" using assms by simp
  then show ?thesis using assms by simp
qed

lemma letter_value_letters: "letter_value 0 (disk_letters n []) = Some (int n + 1)"
proof (induction n rule: less_induct)
  case (less n)
  show ?case
  proof (cases "n < 26")
    case True
    then show ?thesis using letter_value_last [of n 0] by (subst disk_letters.simps) simp
  next
    case False
    have "disk_letters n [] = disk_letters (n div 26 - 1) [char_of (97 + n mod 26)]"
      using False by (subst disk_letters.simps) simp
    then have "disk_letters n [] = disk_letters (n div 26 - 1) [] @ [char_of (97 + n mod 26)]"
      using disk_letters_acc [of "n div 26 - 1" "[char_of (97 + n mod 26)]"] by simp
    moreover have "letter_value 0 (disk_letters (n div 26 - 1) []) = Some (int (n div 26 - 1) + 1)"
      using less [of "n div 26 - 1"] False by simp
    moreover have "int (n div 26 - 1) + 1 = int (n div 26)" using False by (simp add: of_nat_diff)
    moreover have "int (n div 26) * 26 + int (n mod 26) = int n" by presburger
    ultimately show ?thesis using letter_value_last [of "n mod 26" "int (n div 26)"]
      by (simp add: letter_value_append del: of_char_of)
  qed
qed

lemma disk_letters_nonempty: "disk_letters n [] \<noteq> []"
  using letter_value_letters [of n] by auto

lemma target_index_roundtrip:
  assumes "prefix \<noteq> []" "0 \<le> i"
  shows "linux_disk_target_index (prefix @ linux_disk_letters i) prefix = Some i"
  using assms letter_value_letters [of "nat i"] disk_letters_nonempty [of "nat i"]
  by (simp add: linux_disk_target_index_def linux_disk_letters_def)

lemma first_unused_sound: "first_unused used = Some i \<Longrightarrow> i \<notin> set used \<and> 0 \<le> i \<and> i < 512"
  by (auto simp: first_unused_def find_Some_iff)

lemma dev_prefix_nonempty: "dev_prefix params \<noteq> []"
  by (auto simp: dev_prefix_def split: option.splits)

lemma round_up_bounds:
  assumes "0 \<le> b"
  shows "b \<le> bytes_to_mib_round_up b * mib \<and> bytes_to_mib_round_up b * mib < b + mib"
proof -
  have "go_div b mib = b div mib" "go_mod b mib = b mod mib"
    using assms by (simp_all add: go_div_nonneg go_mod_nonneg mib_def)
  then have up: "bytes_to_mib_round_up b * mib = (if b mod mib \<noteq> 0 then b div mib * mib + mib else b div mib * mib)"
    by (simp add: bytes_to_mib_round_up_def Let_def distrib_right)
  have arith: "b \<le> (if r \<noteq> 0 then q + m else q) \<and> (if r \<noteq> 0 then q + m else q) < b + m"
    if "q + r = b" "0 \<le> r" "r < m" for q r m :: int
    using that by auto
  show ?thesis unfolding up by (rule arith) (simp_all add: mib_def)
qed

section \<open>Properties\<close>

text \<open>Predicted disk targets: the target computed for the next disk of a virtual machine
  has the configured prefix, is the target of none of its disks, and the letters of a
  target and its index determine each other (\<open>sda\<close> is 0, \<open>sdz\<close> 25, \<open>sdaa\<close> 26).\<close>

lemma disk_target_fresh:
  assumes "next_available_disk_target v params = t" "t \<noteq> []"
  shows "has_prefix t (dev_prefix params) \<and>
    list_all (\<lambda>d. map_option trim_space (dk_target d) \<noteq> Some t) (vm_disks v) \<and>
    (\<exists>i. 0 \<le> i \<and> i < 512 \<and> linux_disk_target_index t (dev_prefix params) = Some i \<and> t = dev_prefix params @ linux_disk_letters i)"
proof -
  obtain i where i: "first_unused (used_target_indices (dev_prefix params) v) = Some i" "t = dev_prefix params @ linux_disk_letters i"
    using assms by (auto simp: next_available_disk_target_def Let_def split: option.splits)
  note i' = first_unused_sound [OF i(1)]
  have index: "linux_disk_target_index t (dev_prefix params) = Some i"
    unfolding i(2) using i' dev_prefix_nonempty by (intro target_index_roundtrip) auto
  have "map_option trim_space (dk_target d) \<noteq> Some t" if "d \<in> set (vm_disks v)" for d
  proof
    assume "map_option trim_space (dk_target d) = Some t"
    then have "i \<in> set (used_target_indices (dev_prefix params) v)"
      using that index by (auto simp: used_target_indices_def map_filter_def image_iff intro!: bexI [of _ d])
    then show False using i' by blast
  qed
  then show ?thesis using i i' index by (auto simp: list_all_iff)
qed

definition sample_vm :: vm_info where
  "sample_vm = \<lparr>vm_id = 3, vm_name = ''n1'',
     vm_disks = [\<lparr>dk_image = None, dk_id = Some ''0'', dk_target = Some ''sda'', dk_serial = None, dk_size_mb = Some 10\<rparr>],
     vm_context_disk = Some ''1'', vm_history = [], vm_running = Some True, vm_error = None\<rparr>"

lemma disk_target_fresh_witness:
  "next_available_disk_target sample_vm Map.empty = ''sdb'' \<and> has_prefix ''sdb'' (dev_prefix Map.empty)"
proof -
  have "next_available_disk_target sample_vm Map.empty = ''sdb''" by code_simp
  then show ?thesis using disk_target_fresh [of sample_vm Map.empty "''sdb''"] by simp
qed

text \<open>Hotplug timeouts: with the policy the provider stores, every computed timeout is
  at least the base timeout and at most the maximum, also when the additions overflow.\<close>

lemma hotplug_timeout_bounds:
  "hp_base (new_hotplug_policy p) \<le> compute_hotplug_timeout ceil_div (new_hotplug_policy p) bytes \<and>
   compute_hotplug_timeout ceil_div (new_hotplug_policy p) bytes \<le> hp_max (new_hotplug_policy p) \<and>
   0 < hp_base (new_hotplug_policy p) \<and> 0 < hp_poll (new_hotplug_policy p)"
proof -
  have "0 < hp_base (new_hotplug_policy p)" "0 < hp_poll (new_hotplug_policy p)"
      "hp_base (new_hotplug_policy p) \<le> hp_max (new_hotplug_policy p)"
    by (auto simp: new_hotplug_policy_def Let_def)
  then show ?thesis by (simp add: compute_hotplug_timeout_def Let_def)
qed

end
