(* ===== verification/Disk_Provider.thy ===== *)
theory Disk_Provider
  imports Cloud_Api
begin

text \<open>
  The persistent disk provider (\<open>opennebula/persistentdisk.go\<close>): provisioning, cloning,
  deletion, snapshots, expansion, attach and detach, each as a function that threads the
  cloud state through the API calls it makes, in the order the code makes them.

  Errors are values.  The waiting loops take fuel; a loop that runs out of it yields
  \<open>NoReturn\<close>, and the lemmas on the loops say how much fuel rules that out.
\<close>

section \<open>Errors and sequencing\<close>

datatype prov_error =
    Plain string
  | ApiError string
  | ConfigError string
  | NoCapacity "int list"
  | DsError ds_error
  | IdError id_error
  | LookupError lookup_error
  | HotplugTimeout string string string duration bool bool
  | ArtifactConflict artifact_target string
  | Wrapped string prov_error
  | Noted prov_error string
  | NoReturn

type_synonym ('s, 'a) op = "'s \<Rightarrow> (prov_error + 'a) \<times> 's"

definition ret :: "'a \<Rightarrow> ('s, 'a) op" where "ret a s = (Inr a, s)"
definition fail :: "prov_error \<Rightarrow> ('s, 'a) op" where "fail e s = (Inl e, s)"

definition bind_op :: "('s, 'a) op \<Rightarrow> ('a \<Rightarrow> ('s, 'b) op) \<Rightarrow> ('s, 'b) op" where
  "bind_op m f s = (case m s of (Inl e, s') \<Rightarrow> (Inl e, s') | (Inr a, s') \<Rightarrow> f a s')"

text \<open>An operation whose error is an ordinary result.\<close>

definition attempt_op :: "('s, 'a) op \<Rightarrow> ((prov_error + 'a) \<Rightarrow> ('s, 'b) op) \<Rightarrow> ('s, 'b) op" where
  "attempt_op m f s = (case m s of (r, s') \<Rightarrow> f r s')"

definition wrap_op :: "string \<Rightarrow> ('s, 'a) op \<Rightarrow> ('s, 'a) op" where
  "wrap_op w m s = (case m s of (Inl e, s') \<Rightarrow> (Inl (Wrapped w e), s') | (Inr a, s') \<Rightarrow> (Inr a, s'))"

definition lift_call :: "('s, 'a) call \<Rightarrow> ('s, 'a) op" where
  "lift_call c s = (case c s of (Inl m, s') \<Rightarrow> (Inl (ApiError m), s') | (Inr a, s') \<Rightarrow> (Inr a, s'))"

definition of_option :: "prov_error \<Rightarrow> 'a option \<Rightarrow> ('s, 'a) op" where
  "of_option e x = (case x of None \<Rightarrow> fail e | Some a \<Rightarrow> ret a)"

section \<open>Waiting loops\<close>

datatype wait_error = ObserveFailed string | RetryFailed string | DeadlineReached bool bool

text \<open>One repetition of the request, if it is due: an error that ends the loop, and whether a
  repetition is still pending.\<close>

definition retry_step :: "('s, unit) call \<Rightarrow> bool \<Rightarrow> bool \<Rightarrow> 's \<Rightarrow> string option \<times> bool \<times> 's" where
  "retry_step retry due pending s =
     (if \<not> due then (None, pending, s)
      else (case retry s of
              (Inr _, s) \<Rightarrow> (None, False, s)
            | (Inl e, s) \<Rightarrow> if is_hotplug_state_message e then (None, pending, s) else (Some e, pending, s)))"

text \<open>The loop of \<open>waitForAttachState\<close> and \<open>waitForDetachState\<close>: observe, stop when done, repeat the
  request while a repetition is pending and possible, then wait for the ticker or the
  deadline.  The result is \<open>None\<close> when the fuel is used up, otherwise the error, if any.\<close>

fun wait_loop ::
  "nat \<Rightarrow> ('s, bool \<times> bool) call \<Rightarrow> ('s, unit) call \<Rightarrow> ('s \<Rightarrow> bool \<times> 's) \<Rightarrow>
   (bool \<Rightarrow> bool \<Rightarrow> bool) \<Rightarrow> (bool \<Rightarrow> bool \<Rightarrow> bool) \<Rightarrow> bool \<Rightarrow> 's \<Rightarrow> wait_error option option \<times> 's" where
  "wait_loop 0 observe retry tick finished again pending s = (None, s)"
| "wait_loop (Suc n) observe retry tick finished again pending s =
     (case observe s of
        (Inl e, s) \<Rightarrow> (Some (Some (ObserveFailed e)), s)
      | (Inr (attached, ready), s) \<Rightarrow>
          if finished attached ready then (Some None, s)
          else (case retry_step retry (pending \<and> again attached ready) pending s of
                  (Some e, _, s) \<Rightarrow> (Some (Some (RetryFailed e)), s)
                | (None, pending, s) \<Rightarrow>
                    (case tick s of
                       (True, s) \<Rightarrow> (Some (Some (DeadlineReached attached ready)), s)
                     | (False, s) \<Rightarrow> wait_loop n observe retry tick finished again pending s)))"

definition attach_finished :: "bool \<Rightarrow> bool \<Rightarrow> bool" where "attach_finished attached ready \<longleftrightarrow> attached \<and> ready"
definition attach_again :: "bool \<Rightarrow> bool \<Rightarrow> bool" where "attach_again attached ready \<longleftrightarrow> ready \<and> \<not> attached"
definition detach_finished :: "bool \<Rightarrow> bool \<Rightarrow> bool" where "detach_finished attached ready \<longleftrightarrow> \<not> attached"
definition detach_again :: "bool \<Rightarrow> bool \<Rightarrow> bool" where "detach_again attached ready \<longleftrightarrow> ready \<and> attached"

definition wait_for_attach_state ::
  "nat \<Rightarrow> ('s, bool \<times> bool) call \<Rightarrow> ('s, unit) call \<Rightarrow> ('s \<Rightarrow> bool \<times> 's) \<Rightarrow> bool \<Rightarrow> 's \<Rightarrow> wait_error option option \<times> 's" where
  "wait_for_attach_state fuel observe retry tick pending s =
     wait_loop fuel observe retry tick attach_finished attach_again pending s"

definition wait_for_detach_state ::
  "nat \<Rightarrow> ('s, bool \<times> bool) call \<Rightarrow> ('s, unit) call \<Rightarrow> ('s \<Rightarrow> bool \<times> 's) \<Rightarrow> bool \<Rightarrow> 's \<Rightarrow> wait_error option option \<times> 's" where
  "wait_for_detach_state fuel observe retry tick pending s =
     wait_loop fuel observe retry tick detach_finished detach_again pending s"

text \<open>The error a waiting loop returns to its caller.\<close>

definition wait_timeout :: "duration \<Rightarrow> duration" where
  "wait_timeout t = (if t \<le> 0 then 60 * second else t)"

definition wait_result :: "string \<Rightarrow> string \<Rightarrow> string \<Rightarrow> duration \<Rightarrow> wait_error option option \<Rightarrow> prov_error option" where
  "wait_result operation volume node timeout r =
     (case r of
        None \<Rightarrow> Some NoReturn
      | Some None \<Rightarrow> None
      | Some (Some (ObserveFailed e)) \<Rightarrow> Some (Wrapped (''failed while waiting for '' @ operation @ '' of volume '' @ volume @ '' on node '' @ node) (ApiError e))
      | Some (Some (RetryFailed e)) \<Rightarrow> Some (Wrapped (''failed to retry '' @ operation @ '' of volume '' @ volume @ '' on node '' @ node) (ApiError e))
      | Some (Some (DeadlineReached attached ready)) \<Rightarrow> Some (HotplugTimeout operation volume node (wait_timeout timeout) attached ready))"

text \<open>\<open>waitForResourceStatus\<close> waits before it checks.  A check that is satisfied may leave a value
  behind, which is the result of the loop.\<close>

fun wait_for_resource :: "nat \<Rightarrow> ('s, 'a option) op \<Rightarrow> ('s \<Rightarrow> bool \<times> 's) \<Rightarrow> ('s, 'a) op" where
  "wait_for_resource 0 check tick s = (Inl NoReturn, s)"
| "wait_for_resource (Suc n) check tick s =
     (case tick s of
        (True, s) \<Rightarrow> (Inl (Plain ''timeout waiting for volume to be ready''), s)
      | (False, s) \<Rightarrow>
          (case check s of
             (Inl e, s) \<Rightarrow> (Inl (Wrapped ''error checking volume readiness'' e), s)
           | (Inr (Some a), s) \<Rightarrow> (Inr a, s)
           | (Inr None, s) \<Rightarrow> wait_for_resource n check tick s))"

definition done_when :: "('s, bool) op \<Rightarrow> ('s, unit option) op" where
  "done_when m = bind_op m (\<lambda>b. ret (if b then Some () else None))"

section \<open>Lookups\<close>

definition node_exists :: "'s one_api \<Rightarrow> string \<Rightarrow> ('s, int) op" where
  "node_exists api node s =
     (case resolve_node_vm_id node (api_vm_by_name api node) (api_vms api) s of
        ((Inl e, _), s) \<Rightarrow> (Inl (Wrapped ''Failed to fetch VM'' (LookupError e)), s)
      | ((Inr i, _), s) \<Rightarrow> (Inr i, s))"

text \<open>The number of the image and its effective size.\<close>

definition image_effective_size :: "image_info \<Rightarrow> prov_error + int" where
  "image_effective_size im =
     (case csi_requested_size im of
        Inl bad \<Rightarrow> Inl (Plain ''invalid CSI requested size metadata'')
      | Inr requested \<Rightarrow>
          if requested \<le> 0 \<and> has_csi_expansion_marker im then Inl (Plain ''incomplete CSI expansion metadata'')
          else Inr (effective_volume_size (int64 (im_size_mb im * mib)) requested))"

definition volume_exists :: "'s one_api \<Rightarrow> string \<Rightarrow> ('s, int \<times> int) op" where
  "volume_exists api volume =
     bind_op (wrap_op ''failed to get volume by name'' (lift_call (api_image_by_name api volume))) (\<lambda>i.
     bind_op (wrap_op ''failed to get volume info'' (lift_call (api_image_info api i))) (\<lambda>im.
       (case image_effective_size im of Inl e \<Rightarrow> fail e | Inr bytes \<Rightarrow> ret (i, bytes))))"

definition resolve_volume_size :: "'s one_api \<Rightarrow> string \<Rightarrow> ('s, int) op" where
  "resolve_volume_size api volume =
     bind_op (volume_exists api volume) (\<lambda>(i, bytes).
       if i = -1 then fail (Plain ''volume not found'')
       else if 0 < bytes then ret bytes else fail (Plain ''volume size is unavailable''))"

definition volume_ready :: "'s one_api \<Rightarrow> int \<Rightarrow> ('s, bool) op" where
  "volume_ready api i =
     bind_op (wrap_op ''failed to get Disk info'' (lift_call (api_image_info api i))) (\<lambda>im.
       case im_state im of None \<Rightarrow> fail (Plain ''failed to get Disk state'') | Some st \<Rightarrow> ret (st = ImageReady))"

text \<open>A volume that can still be inspected is an error, not an answer to wait for.\<close>

definition volume_deleted :: "'s one_api \<Rightarrow> int \<Rightarrow> ('s, bool) op" where
  "volume_deleted api i =
     attempt_op (lift_call (api_image_info api i)) (\<lambda>r.
       case r of Inl _ \<Rightarrow> ret True | Inr _ \<Rightarrow> fail (Plain ''volume still exists''))"

definition node_ready_call :: "'s one_api \<Rightarrow> int \<Rightarrow> ('s, bool) call" where
  "node_ready_call api vm s =
     (case api_vm_info api vm s of
        (Inl e, s) \<Rightarrow> (Inl (''failed to get VM info: '' @ e), s)
      | (Inr v, s) \<Rightarrow>
          (case vm_running v of None \<Rightarrow> (Inl ''failed to get VM state'', s) | Some r \<Rightarrow> (Inr r, s)))"

definition node_ready :: "'s one_api \<Rightarrow> string \<Rightarrow> ('s, bool) op" where
  "node_ready api node = bind_op (node_exists api node) (\<lambda>vm. lift_call (node_ready_call api vm))"

definition target_of_volume :: "int \<Rightarrow> vm_info \<Rightarrow> prov_error + string" where
  "target_of_volume volume v =
     (case find (\<lambda>d. dk_image d = Some volume) (vm_disks v) of
        None \<Rightarrow> Inl (Plain ''volume not found on node'')
      | Some d \<Rightarrow> (case dk_target d of None \<Rightarrow> Inl (Plain ''failed to get target'') | Some t \<Rightarrow> Inr t))"

definition get_volume_in_node :: "'s one_api \<Rightarrow> int \<Rightarrow> int \<Rightarrow> ('s, string) op" where
  "get_volume_in_node api volume vm =
     bind_op (wrap_op ''failed to get VM info'' (lift_call (api_vm_info api vm))) (\<lambda>v.
       case target_of_volume volume v of Inl e \<Rightarrow> fail e | Inr t \<Rightarrow> ret t)"

text \<open>What the waiting loops observe: whether the volume has a target on the node, and whether
  the node is running.\<close>

definition observe_attachment :: "'s one_api \<Rightarrow> int \<Rightarrow> int \<Rightarrow> ('s, bool \<times> bool) call" where
  "observe_attachment api volume vm s =
     (case get_volume_in_node api volume vm s of
        (r, s) \<Rightarrow>
          (case node_ready_call api vm s of
             (Inl e, s) \<Rightarrow> (Inl e, s)
           | (Inr ready, s) \<Rightarrow> (Inr (case r of Inl _ \<Rightarrow> False | Inr _ \<Rightarrow> True, ready), s)))"

section \<open>Provisioning\<close>

record create_result =
  cr_datastore :: datastore
  cr_capacity :: int
  cr_fallback :: bool
  cr_attempted :: "int list"

definition resolve_provisioning_datastores ::
  "'f float_ops \<Rightarrow> 's one_api \<Rightarrow> selection_config \<Rightarrow> selection_runtime \<times> 's \<Rightarrow>
   (prov_error + datastore list) \<times> selection_runtime \<times> 's" where
  "resolve_provisioning_datastores fl api sel rs =
     (let (r, s) = rs
      in case api_datastores api s of
           (Inl e, s) \<Rightarrow> (Inl (Wrapped ''failed to get datastores info'' (ApiError e)), r, s)
         | (Inr pool, s) \<Rightarrow>
             (case resolve_datastores pool sel of
                Inl e \<Rightarrow> (Inl (DsError e), r, s)
              | Inr ds \<Rightarrow>
                  (case order_datastores fl (api_now api s) r ds (sel_policy sel) of
                     (Inl e, r) \<Rightarrow> (Inl (DsError e), r, s)
                   | (Inr ds, r) \<Rightarrow> (Inr ds, r, s))))"

text \<open>The loop over the candidates, with the call that makes the image on a datastore: the
  datastore and the image it succeeded with, the datastore and message of an error that
  ends it, or the datastores that were short of space.\<close>

datatype provision_outcome = Provisioned datastore int | ProvisionFailed datastore string | ShortOfSpace "int list"

fun provision ::
  "(datastore \<Rightarrow> ('s, int) call) \<Rightarrow> ('s \<Rightarrow> go_time) \<Rightarrow> int \<Rightarrow> int list \<Rightarrow> int list \<Rightarrow> datastore list \<Rightarrow>
   selection_runtime \<times> 's \<Rightarrow> (provision_outcome \<times> int list) \<times> selection_runtime \<times> 's" where
  "provision mk now needed attempted short [] (r, s) = ((ShortOfSpace short, attempted), r, s)"
| "provision mk now needed attempted short (d # ds) (r, s) =
     (let attempted = attempted @ [ds_id d]
      in if ds_free d < needed
         then provision mk now needed attempted (short @ [ds_id d]) ds (record_result (now s) (ds_id d) False r, s)
         else (let r = begin_attempt (ds_id d) r; (res, s) = mk d s; r = finish_attempt (ds_id d) r
               in case res of
                    Inl e \<Rightarrow>
                      (let r = record_result (now s) (ds_id d) False r
                       in if is_insufficient_capacity e
                          then provision mk now needed attempted (short @ [ds_id d]) ds (r, s)
                          else ((ProvisionFailed d e, attempted), r, s))
                  | Inr i \<Rightarrow> ((Provisioned d i, attempted), record_result (now s) (ds_id d) True r, s)))"

definition new_image_request :: "string \<Rightarrow> int \<Rightarrow> string \<Rightarrow> bool \<Rightarrow> string \<Rightarrow> str_map \<Rightarrow> image_request" where
  "new_image_request name mb owner immutable fs params =
     \<lparr>ir_name = name, ir_size_mb = mb, ir_owner = owner, ir_shareable = immutable, ir_fs = fs,
      ir_dev_prefix = (case params ''devPrefix'' of None \<Rightarrow> [] | Some p \<Rightarrow> p)\<rparr>"

definition provisioned_result ::
  "nat \<Rightarrow> 's one_api \<Rightarrow> string \<Rightarrow> string \<Rightarrow> int \<Rightarrow> (provision_outcome \<times> int list) \<times> selection_runtime \<times> 's \<Rightarrow>
   (prov_error + create_result) \<times> selection_runtime \<times> 's" where
  "provisioned_result fuel api failing waiting capacity p =
     (case p of
        ((ShortOfSpace short, attempted), r, s) \<Rightarrow> (Inl (NoCapacity short), r, s)
      | ((ProvisionFailed d e, attempted), r, s) \<Rightarrow> (Inl (Wrapped (failing @ itoa (ds_id d)) (ApiError e)), r, s)
      | ((Provisioned d i, attempted), r, s) \<Rightarrow>
          (case wait_for_resource fuel (done_when (volume_ready api i)) (api_tick api) s of
             (Inl e, s) \<Rightarrow> (Inl (Wrapped waiting e), r, s)
           | (Inr _, s) \<Rightarrow>
               (Inr \<lparr>cr_datastore = d, cr_capacity = capacity, cr_fallback = (length attempted > 1), cr_attempted = attempted\<rparr>, r, s)))"

definition create_volume ::
  "nat \<Rightarrow> 'f float_ops \<Rightarrow> 's one_api \<Rightarrow> string \<Rightarrow> int \<Rightarrow> string \<Rightarrow> bool \<Rightarrow> string \<Rightarrow> str_map \<Rightarrow> selection_config \<Rightarrow>
   selection_runtime \<times> 's \<Rightarrow> (prov_error + create_result) \<times> selection_runtime \<times> 's" where
  "create_volume fuel fl api name bytes owner immutable fs params sel rs =
     (if name = [] then (Inl (Plain ''volume name cannot be empty''), rs)
      else if bytes \<le> 0 then (Inl (Plain ''invalid volume size: must be greater than 0''), rs)
      else if go_div bytes mib \<le> 0 then (Inl (Plain ''invalid volume size: must be greater than 0 MB''), rs)
      else (case resolve_provisioning_datastores fl api sel rs of
              (Inl e, rs) \<Rightarrow> (Inl e, rs)
            | (Inr candidates, rs) \<Rightarrow>
                provisioned_result fuel api ''failed to create volume on datastore '' ''failed to wait for volume readiness'' bytes
                  (provision (\<lambda>d. api_image_create api (new_image_request name (go_div bytes mib) owner immutable fs params) (ds_id d))
                     (api_now api) bytes [] [] candidates rs)))"

definition clone_volume ::
  "nat \<Rightarrow> 'f float_ops \<Rightarrow> 's one_api \<Rightarrow> string \<Rightarrow> string \<Rightarrow> selection_config \<Rightarrow>
   selection_runtime \<times> 's \<Rightarrow> (prov_error + create_result) \<times> selection_runtime \<times> 's" where
  "clone_volume fuel fl api name source sel rs =
     (let (r, s) = rs
      in if trim_space name = [] then (Inl (Plain ''clone name cannot be empty''), rs)
         else if trim_space source = [] then (Inl (Plain ''source volume cannot be empty''), rs)
         else (case volume_exists api source s of
                 (Inl e, s) \<Rightarrow> (Inl (Wrapped ''failed to resolve source volume'' e), r, s)
               | (Inr (i, _), s) \<Rightarrow>
                   if i = -1 then (Inl (Plain ''source volume was not found''), r, s)
                   else (case api_image_info api i s of
                           (Inl e, s) \<Rightarrow> (Inl (Wrapped ''failed to inspect source volume'' (ApiError e)), r, s)
                         | (Inr im, s) \<Rightarrow>
                             (case resolve_provisioning_datastores fl api sel (r, s) of
                                (Inl e, rs) \<Rightarrow> (Inl e, rs)
                              | (Inr candidates, rs) \<Rightarrow>
                                  (let bytes = int64 (im_size_mb im * mib)
                                   in provisioned_result fuel api ''failed to clone volume into datastore '' ''failed waiting for clone to become ready'' bytes
                                        (provision (\<lambda>d. api_image_clone api i name (ds_id d)) (api_now api) bytes [] [] candidates rs))))))"

definition get_capacity ::
  "'f float_ops \<Rightarrow> 's one_api \<Rightarrow> selection_config \<Rightarrow> selection_runtime \<times> 's \<Rightarrow> (prov_error + int) \<times> selection_runtime \<times> 's" where
  "get_capacity fl api sel rs =
     (case resolve_provisioning_datastores fl api sel rs of
        (Inl e, rs) \<Rightarrow> (Inl e, rs) | (Inr ds, rs) \<Rightarrow> (Inr (sum_datastore_capacity ds), rs))"

definition delete_volume :: "nat \<Rightarrow> 's one_api \<Rightarrow> string \<Rightarrow> ('s, unit) op" where
  "delete_volume fuel api volume =
     attempt_op (volume_exists api volume) (\<lambda>r.
       case r of
         Inl _ \<Rightarrow> ret ()
       | Inr (i, _) \<Rightarrow>
           if i = -1 then ret ()
           else attempt_op (lift_call (api_image_info api i)) (\<lambda>r.
             if (case r of Inl _ \<Rightarrow> False | Inr im \<Rightarrow> im_state im = Some ImageUsed)
             then fail (Plain ''cannot delete volume, it is currently in use'')
             else attempt_op (lift_call (api_image_delete api i)) (\<lambda>_.
               wrap_op ''failed to wait for volume deletion'' (wait_for_resource fuel (done_when (volume_deleted api i)) (api_tick api)))))"

section \<open>Lemmas on the waiting loops\<close>

text \<open>A clock bound: every tick uses up some of it and nothing else adds to it.\<close>

definition clock_bound :: "('s \<Rightarrow> nat) \<Rightarrow> ('s \<Rightarrow> bool \<times> 's) \<Rightarrow> bool" where
  "clock_bound left tick \<longleftrightarrow>
     (\<forall>s s'. (tick s = (False, s') \<longrightarrow> left s' < left s) \<and> (tick s = (True, s') \<longrightarrow> left s' \<le> left s))"

definition keeps_clock :: "('s \<Rightarrow> nat) \<Rightarrow> ('s \<Rightarrow> 'a \<times> 's) \<Rightarrow> bool" where
  "keeps_clock left m \<longleftrightarrow> (\<forall>s. left (snd (m s)) \<le> left s)"

lemma keeps_clockD: "keeps_clock left m \<Longrightarrow> m s = (a, s') \<Longrightarrow> left s' \<le> left s"
  unfolding keeps_clock_def by (metis snd_conv)

lemma clock_boundD: "clock_bound left tick \<Longrightarrow> tick s = (False, s') \<Longrightarrow> left s' < left s"
  by (simp add: clock_bound_def)

lemma retry_step_keeps_clock:
  assumes "keeps_clock left retry" "retry_step retry due pending s = (e, pending', s')"
  shows "left s' \<le> left s"
proof (cases due)
  case True
  then have "s' = snd (retry s)" using assms(2) by (auto simp: retry_step_def split: prod.splits sum.splits if_splits)
  then show ?thesis using assms(1) by (simp add: keeps_clock_def)
qed (use assms(2) in \<open>simp add: retry_step_def\<close>)

lemma wait_loop_returns:
  assumes "clock_bound left tick" "keeps_clock left observe" "keeps_clock left retry" "left s < n"
  shows "fst (wait_loop n observe retry tick finished again pending s) \<noteq> None"
  using assms(4)
proof (induction n arbitrary: pending s)
  case (Suc n)
  have next_round: "fst (wait_loop n observe retry tick finished again p' s3) \<noteq> None"
    if "observe s = (a, s1)" "retry_step retry due p s1 = (e, p', s2)" "tick s2 = (False, s3)" for a s1 due p e p' s2 s3
    using keeps_clockD [OF assms(2) that(1)] retry_step_keeps_clock [OF assms(3) that(2)] clock_boundD [OF assms(1) that(3)] Suc.prems
    by (intro Suc.IH) linarith
  show ?case
    by (auto simp del: not_None_eq split: prod.splits sum.splits option.splits bool.splits dest: next_round)
qed simp

lemma wait_loop_finished:
  assumes "wait_loop n observe retry tick finished again pending s = (Some None, s')"
  shows "\<exists>s0 attached ready. observe s0 = (Inr (attached, ready), s') \<and> finished attached ready"
  using assms
  by (induction n arbitrary: pending s) (auto split: prod.splits sum.splits option.splits bool.splits if_splits)

section \<open>Lemmas on provisioning\<close>

text \<open>A datastore was passed over: it was short of space, or the API said so.\<close>

definition passed_over :: "(datastore \<Rightarrow> ('s, int) call) \<Rightarrow> int \<Rightarrow> datastore \<Rightarrow> bool" where
  "passed_over mk needed d \<longleftrightarrow>
     ds_free d < needed \<or> (\<exists>s e s'. mk d s = (Inl e, s') \<and> is_insufficient_capacity e)"

text \<open>What the provisioning loop may return on the candidates \<open>ds\<close>.\<close>

fun provision_spec ::
  "(datastore \<Rightarrow> ('s, int) call) \<Rightarrow> int \<Rightarrow> datastore list \<Rightarrow> provision_outcome \<Rightarrow> int list \<Rightarrow> 's \<Rightarrow> bool" where
  "provision_spec mk needed ds (Provisioned d i) ids s' \<longleftrightarrow>
     (\<exists>pre post s. ds = pre @ d # post \<and> ids = map ds_id pre @ [ds_id d] \<and> needed \<le> ds_free d \<and>
        mk d s = (Inr i, s') \<and> list_all (passed_over mk needed) pre)"
| "provision_spec mk needed ds (ProvisionFailed d e) ids s' \<longleftrightarrow>
     (\<exists>pre post s. ds = pre @ d # post \<and> ids = map ds_id pre @ [ds_id d] \<and> needed \<le> ds_free d \<and>
        mk d s = (Inl e, s') \<and> \<not> is_insufficient_capacity e \<and> list_all (passed_over mk needed) pre)"
| "provision_spec mk needed ds (ShortOfSpace short) ids s' \<longleftrightarrow>
     ids = map ds_id ds \<and> short = map ds_id ds \<and> list_all (passed_over mk needed) ds"

lemma in_flight_record_result [simp]: "sr_in_flight (record_result now i ok r) = sr_in_flight r"
  by (simp add: record_result_def prune_failures_def Let_def)

lemma in_flight_attempt:
  "0 \<le> sr_in_flight r i \<Longrightarrow> sr_in_flight (finish_attempt i (begin_attempt i r)) = sr_in_flight r"
  by (auto simp: finish_attempt_def begin_attempt_def)

text \<open>The outcome, with the accumulated lists split off.\<close>

fun prepend_short :: "int list \<Rightarrow> provision_outcome \<Rightarrow> provision_outcome" where
  "prepend_short short (ShortOfSpace ids) = ShortOfSpace (short @ ids)"
| "prepend_short short (Provisioned d i) = Provisioned d i"
| "prepend_short short (ProvisionFailed d e) = ProvisionFailed d e"

lemma prepend_short_append: "prepend_short (a @ b) x = prepend_short a (prepend_short b x)"
  by (cases x) auto

lemma prepend_short_Nil [simp]: "prepend_short [] x = x"
  by (cases x) auto

lemma provision_spec_skip:
  assumes "provision_spec mk needed ds out ids s'" "passed_over mk needed d"
  shows "provision_spec mk needed (d # ds) (prepend_short [ds_id d] out) (ds_id d # ids) s'"
  using assms
  by (cases out) (fastforce intro: exI [of _ "d # _"])+

lemma provision_meets_spec:
  assumes "provision mk now needed attempted short ds (r, s) = ((out, ids), r', s')" "\<forall>i. 0 \<le> sr_in_flight r i"
  shows "sr_in_flight r' = sr_in_flight r \<and>
    (\<exists>out' ids'. out = prepend_short short out' \<and> ids = attempted @ ids' \<and> provision_spec mk needed ds out' ids' s')"
  using assms
proof (induction ds arbitrary: attempted short r s)
  case Nil
  then show ?case by (auto intro: exI [of _ "ShortOfSpace []"])
next
  case (Cons d ds)
  have skip: ?case if go: "provision mk now needed (attempted @ [ds_id d]) (short @ [ds_id d]) ds (r1, s1) = ((out, ids), r', s')"
    and flight: "sr_in_flight r1 = sr_in_flight r" and over: "passed_over mk needed d" for r1 s1
  proof -
    obtain out' ids' where ih: "sr_in_flight r' = sr_in_flight r1" "out = prepend_short (short @ [ds_id d]) out'"
        "ids = (attempted @ [ds_id d]) @ ids'" "provision_spec mk needed ds out' ids' s'"
      using Cons.IH [OF go] Cons.prems(2) flight by auto
    show ?thesis
      using ih(1-3) flight provision_spec_skip [OF ih(4) over] by (auto simp: prepend_short_append)
  qed
  define r1 where "r1 = finish_attempt (ds_id d) (begin_attempt (ds_id d) r)"
  have r1: "sr_in_flight r1 = sr_in_flight r" using Cons.prems(2) by (simp add: r1_def in_flight_attempt)
  show ?case
  proof (cases "ds_free d < needed")
    case True
    then show ?thesis using Cons.prems(1) by (intro skip [of "record_result (now s) (ds_id d) False r" s]) (auto simp: passed_over_def)
  next
    case room: False
    show ?thesis
    proof (cases "mk d s")
      case (Pair res s1)
      show ?thesis
      proof (cases res)
        case (Inl e)
        show ?thesis
        proof (cases "is_insufficient_capacity e")
          case True
          then show ?thesis using Cons.prems(1) room Pair Inl r1
            by (intro skip [of "record_result (now s1) (ds_id d) False r1" s1]) (auto simp: passed_over_def Let_def r1_def)
        next
          case False
          then have "out = ProvisionFailed d e" "ids = attempted @ [ds_id d]" "s' = s1" "sr_in_flight r' = sr_in_flight r1"
            using Cons.prems(1) room Pair Inl by (auto simp: Let_def r1_def)
          then show ?thesis using False room Pair Inl r1
            by (intro conjI exI [of _ "ProvisionFailed d e"] exI [of _ "[ds_id d]"]) (auto intro!: exI [of _ "[]"])
        qed
      next
        case (Inr i)
        then have "out = Provisioned d i" "ids = attempted @ [ds_id d]" "s' = s1" "sr_in_flight r' = sr_in_flight r1"
          using Cons.prems(1) room Pair by (auto simp: Let_def r1_def)
        then show ?thesis using room Pair Inr r1
          by (intro conjI exI [of _ "Provisioned d i"] exI [of _ "[ds_id d]"]) (auto intro!: exI [of _ "[]"])
      qed
    qed
  qed
qed

lemma in_flight_resolve:
  "resolve_provisioning_datastores fl api sel (r, s) = (res, r', s') \<Longrightarrow> sr_in_flight r' = sr_in_flight r"
  by (auto simp: resolve_provisioning_datastores_def order_datastores_def autopilot_sort_def runtime_snapshot_def prune_failures_def Let_def
      split: prod.splits sum.splits selection_policy.splits if_splits)

section \<open>Properties\<close>

text \<open>C12. Waiting for a hotplug operation: when each tick uses up some of a bounded clock and no
  call adds to it, the loops waiting for an attach and for a detach return, whatever they
  observe; they return without error only if their last observation was the volume attached
  to a running machine, respectively the volume absent.\<close>

theorem hotplug_wait_returns:
  assumes "clock_bound left tick" "keeps_clock left observe" "keeps_clock left retry" "left s < fuel"
  shows "\<exists>r s' r' s''.
    wait_for_attach_state fuel observe retry tick pending s = (Some r, s') \<and>
    (r = None \<longrightarrow> (\<exists>s0. observe s0 = (Inr (True, True), s'))) \<and>
    wait_for_detach_state fuel observe retry tick pending s = (Some r', s'') \<and>
    (r' = None \<longrightarrow> (\<exists>s0 ready. observe s0 = (Inr (False, ready), s'')))"
proof -
  note total = wait_loop_returns [OF assms]
  obtain r s' where attach: "wait_for_attach_state fuel observe retry tick pending s = (Some r, s')"
    using total [of attach_finished attach_again pending] unfolding wait_for_attach_state_def by (metis option.exhaust prod.collapse)
  obtain r' s'' where detach: "wait_for_detach_state fuel observe retry tick pending s = (Some r', s'')"
    using total [of detach_finished detach_again pending] unfolding wait_for_detach_state_def by (metis option.exhaust prod.collapse)
  have "\<exists>s0. observe s0 = (Inr (True, True), s')" if "r = None"
    using wait_loop_finished [OF attach [unfolded wait_for_attach_state_def that]] by (auto simp: attach_finished_def)
  moreover have "\<exists>s0 ready. observe s0 = (Inr (False, ready), s'')" if "r' = None"
    using wait_loop_finished [OF detach [unfolded wait_for_detach_state_def that]] by (auto simp: detach_finished_def) blast
  ultimately show ?thesis using attach detach by blast
qed

text \<open>A machine on which the disk shows up at the third observation, and five ticks of time.\<close>

definition sample_observe :: "(nat, bool \<times> bool) call" where "sample_observe s = (Inr (s < 4, True), s)"
definition sample_retry :: "(nat, unit) call" where "sample_retry s = (Inl ''wrong state HOTPLUG'', s)"
definition sample_tick :: "nat \<Rightarrow> bool \<times> nat" where "sample_tick s = (if s = 0 then (True, 0) else (False, s - 1))"

theorem hotplug_wait_returns_witness:
  "wait_for_attach_state 6 sample_observe sample_retry sample_tick True 5 = (Some None, 3) \<and>
   wait_for_detach_state 6 sample_observe sample_retry sample_tick True 5 = (Some None, 5) \<and>
   (\<exists>r s'. wait_for_attach_state 6 sample_observe sample_retry sample_tick True 5 = (Some r, s'))"
proof -
  have "clock_bound id sample_tick" "keeps_clock id sample_observe" "keeps_clock id sample_retry"
    by (auto simp: clock_bound_def keeps_clock_def sample_tick_def sample_observe_def sample_retry_def)
  moreover have "wait_for_attach_state 6 sample_observe sample_retry sample_tick True 5 = (Some None, 3)"
    "wait_for_detach_state 6 sample_observe sample_retry sample_tick True 5 = (Some None, 5)" by code_simp+
  ultimately show ?thesis using hotplug_wait_returns [of id sample_tick sample_observe sample_retry 5 6 True] by auto
qed


text \<open>A small cloud: the first datastore refuses new images, the second takes them.\<close>

definition sample_image :: image_info where
  "sample_image = \<lparr>im_id = 7, im_name = ''pvc'', im_size_mb = 2, im_datastore = Some 100, im_state = Some ImageReady, im_state_name = Some ''READY'', im_state_raw = 1, im_running = 0,
     im_strs = (\<lambda>_. []), im_str = (\<lambda>_. None), im_snapshots = [(4, 100), (5, 200), (6, 300)], im_vms = []\<rparr>"

definition sample_api :: "nat one_api" where
  "sample_api = \<lparr>
     api_image_by_name = (\<lambda>name s. (if name = ''pvc'' then Inr 7 else Inl ''resource not found'', s)),
     api_image_info = (\<lambda>i s. (if i = 7 then Inr sample_image else Inl ''no such image'', s)),
     api_image_create = (\<lambda>r d s. (if d = 1 then Inl ''Not enough space in datastore'' else Inr 7, s)),
     api_image_clone = (\<lambda>i name d s. (Inr 7, s)), api_image_delete = (\<lambda>i s. (Inr (), s)), api_image_update = (\<lambda>i m s. (Inr (), s)),
     api_snapshot_create = (\<lambda>i n s. (Inr 4, s)), api_snapshot_delete = (\<lambda>i n s. (Inr (), s)), api_images = (\<lambda>s. (Inr [sample_image], s)), api_images_page = (\<lambda>a b s. (Inr [sample_image], s)),
     api_vm_by_name = (\<lambda>n s. (Inr 3, s)), api_vms = (\<lambda>s. (Inr [sample_vm], s)), api_vm_info = (\<lambda>i s. (Inr sample_vm, s)),
     api_datastores = (\<lambda>s. (Inr [sample_schema 1 ''default'', sample_schema 100 ''csi''], s)),
     api_disk_attach = (\<lambda>v d s. (Inr (), s)), api_disk_detach = (\<lambda>v d s. (Inr (), s)), api_disk_resize = (\<lambda>v d m s. (Inr (), s)),
     api_now = (\<lambda>s. 5), api_tick = sample_tick\<rparr>"

definition sample_selection :: selection_config where
  "sample_selection = \<lparr>sel_identifiers = [''1'', ''100''], sel_policy = ''ordered'', sel_types = []\<rparr>"


end
