(* ===== verification/Disk_Operations.thy ===== *)
theory Disk_Operations
  imports Disk_Provider
begin

text \<open>
  The remaining operations of the persistent disk provider
  (\<open>opennebula/persistentdisk.go\<close>): snapshots, expansion, the inspection of attachments,
  attach and detach.  The lemmas show that the operations return, that an expansion is
  durable, and that the pages of a snapshot listing make up the listing.
\<close>

section \<open>Snapshots\<close>

record volume_snapshot =
  vs_id :: string
  vs_source :: string
  vs_created :: go_time
  vs_bytes :: int
  vs_ready :: bool

text \<open>Seconds since 1970 as a time.\<close>

definition unix_time :: "int \<Rightarrow> go_time" where "unix_time n = (n + 62135596800) * second"

definition image_snapshot_by_id :: "image_info \<Rightarrow> int \<Rightarrow> (int \<times> int) option" where
  "image_snapshot_by_id im n = find (\<lambda>sn. fst sn = n) (im_snapshots im)"

definition convert_image_snapshot :: "image_info \<Rightarrow> int \<times> int \<Rightarrow> volume_snapshot" where
  "convert_image_snapshot im sn =
     \<lparr>vs_id = encode_volume_snapshot_id (im_id im) (fst sn), vs_source = im_name im, vs_created = unix_time (snd sn),
      vs_bytes = int64 (im_size_mb im * mib), vs_ready = True\<rparr>"

definition convert_image_snapshots :: "image_info \<Rightarrow> volume_snapshot list" where
  "convert_image_snapshots im = map (convert_image_snapshot im) (im_snapshots im)"

text \<open>An existing volume, or the given error around what went wrong.\<close>

definition source_volume :: "'s one_api \<Rightarrow> string \<Rightarrow> ('s, int \<times> int) op" where
  "source_volume api volume =
     bind_op (wrap_op ''failed to resolve source volume'' (volume_exists api volume)) (\<lambda>(i, bytes).
       if i = -1 then fail (Plain ''source volume was not found'') else ret (i, bytes))"

definition create_snapshot :: "'s one_api \<Rightarrow> string \<Rightarrow> string \<Rightarrow> ('s, volume_snapshot) op" where
  "create_snapshot api source name =
     (if trim_space source = [] then fail (Plain ''source volume cannot be empty'')
      else bind_op (source_volume api source) (\<lambda>(i, bytes).
           bind_op (wrap_op ''failed to create snapshot for volume''
                      (lift_call (api_snapshot_create api i (if trim_space name = [] then source @ ''-snapshot'' else name)))) (\<lambda>n.
           bind_op (wrap_op ''failed to inspect snapshot metadata for volume'' (lift_call (api_image_info api i))) (\<lambda>im.
           bind_op (of_option (Plain ''snapshot was not found in image'') (image_snapshot_by_id im n)) (\<lambda>sn.
             ret \<lparr>vs_id = encode_volume_snapshot_id i n, vs_source = source, vs_created = unix_time (snd sn),
                  vs_bytes = bytes, vs_ready = True\<rparr>)))))"

definition delete_snapshot :: "'s one_api \<Rightarrow> string \<Rightarrow> ('s, unit) op" where
  "delete_snapshot api sid s =
     (case decode_volume_snapshot_id sid of
        Inl e \<Rightarrow> (Inl (IdError e), s)
      | Inr (i, n) \<Rightarrow>
          (case api_snapshot_delete api i n s of
             (Inr _, s) \<Rightarrow> (Inr (), s)
           | (Inl e, s) \<Rightarrow> if contains_sub (to_lower e) ''not found'' then (Inr (), s) else (Inl (ApiError e), s)))"

definition matching_snapshots :: "'s one_api \<Rightarrow> string \<Rightarrow> string \<Rightarrow> ('s, volume_snapshot list) op" where
  "matching_snapshots api sid source =
     (if trim_space sid \<noteq> []
      then (case decode_volume_snapshot_id sid of
              Inl e \<Rightarrow> fail (IdError e)
            | Inr (i, n) \<Rightarrow>
                bind_op (wrap_op ''failed to inspect image while listing snapshot'' (lift_call (api_image_info api i))) (\<lambda>im.
                bind_op (of_option (Plain ''snapshot was not found in image'') (image_snapshot_by_id im n)) (\<lambda>sn.
                  ret [convert_image_snapshot im sn])))
      else if trim_space source \<noteq> []
      then bind_op (source_volume api source) (\<lambda>(i, _).
           bind_op (wrap_op ''failed to inspect source volume'' (lift_call (api_image_info api i))) (\<lambda>im.
             ret (convert_image_snapshots im)))
      else bind_op (wrap_op ''failed to list images while enumerating snapshots'' (lift_call (api_images api))) (\<lambda>ims.
             ret (concat (map convert_image_snapshots ims))))"

text \<open>One page of a listing, and the token of the next page.\<close>

definition listing_page :: "'a list \<Rightarrow> int \<Rightarrow> string \<Rightarrow> prov_error + 'a list \<times> string" where
  "listing_page xs max_entries token =
     (let start = (if trim_space token = [] then Some 0
                   else (case atoi token of None \<Rightarrow> None | Some v \<Rightarrow> if v < 0 then None else Some v))
      in case start of
           None \<Rightarrow> Inl (Plain ''invalid starting token'')
         | Some start \<Rightarrow>
             if int (length xs) < start then Inl (Plain ''starting token is out of range'')
             else if 0 < max_entries \<and> start + max_entries < int (length xs)
             then Inr (take (nat max_entries) (drop (nat start) xs), itoa (start + max_entries))
             else Inr (drop (nat start) xs, []))"

definition list_snapshots :: "'s one_api \<Rightarrow> string \<Rightarrow> string \<Rightarrow> int \<Rightarrow> string \<Rightarrow> ('s, volume_snapshot list \<times> string) op" where
  "list_snapshots api sid source max_entries token =
     bind_op (matching_snapshots api sid source) (\<lambda>xs.
       case listing_page xs max_entries token of Inl e \<Rightarrow> fail e | Inr p \<Rightarrow> ret p)"

definition list_volumes :: "'s one_api \<Rightarrow> string \<Rightarrow> int \<Rightarrow> string \<Rightarrow> ('s, string list) op" where
  "list_volumes api owner max_entries token =
     (case (if token = [] then Some (-1)
            else (case atoi token of None \<Rightarrow> None | Some v \<Rightarrow> if v < 0 then None else Some (- v))) of
        None \<Rightarrow> fail (Plain ''invalid starting token'')
      | Some offset \<Rightarrow>
          if max_entries < 0 then fail (Plain ''maxEntries must be non-negative'')
          else bind_op (wrap_op ''failed to list volumes''
                          (lift_call (api_images_page api offset (if 0 < max_entries then max_entries else -1)))) (\<lambda>ims.
                 ret (map im_name (filter (\<lambda>im. im_str im ''OWNER'' = Some owner) ims))))"

section \<open>Attached disks\<close>

type_synonym attached_disk = "int \<times> int \<times> int"

text \<open>The scan for the one disk of a volume: machine, disk number and size.\<close>

fun scan_disks :: "int \<Rightarrow> int \<Rightarrow> attached_disk option \<Rightarrow> vm_disk list \<Rightarrow> prov_error + attached_disk option" where
  "scan_disks volume vm found [] = Inr found"
| "scan_disks volume vm found (d # ds) =
     (if dk_image d \<noteq> Some volume then scan_disks volume vm found ds
      else (case dk_id d of
              None \<Rightarrow> Inl (Plain ''failed to determine disk ID'')
            | Some raw \<Rightarrow>
                (case atoi raw of
                   None \<Rightarrow> Inl (Plain ''invalid disk ID'')
                 | Some i \<Rightarrow>
                     if found \<noteq> None then Inl (ConfigError ''volume is attached to multiple virtual machines'')
                     else (case disk_size_bytes d of
                             None \<Rightarrow> Inl (Plain ''failed to determine attached size'')
                           | Some bytes \<Rightarrow> scan_disks volume vm (Some (vm, i, bytes)) ds))))"

fun scan_vms :: "int \<Rightarrow> attached_disk option \<Rightarrow> vm_info list \<Rightarrow> prov_error + attached_disk option" where
  "scan_vms volume found [] = Inr found"
| "scan_vms volume found (v # vs) =
     (case scan_disks volume (vm_id v) found (vm_disks v) of Inl e \<Rightarrow> Inl e | Inr found \<Rightarrow> scan_vms volume found vs)"

definition find_attached_disk :: "'s one_api \<Rightarrow> int \<Rightarrow> ('s, attached_disk option) op" where
  "find_attached_disk api volume =
     bind_op (wrap_op ''failed to get vm info while locating attached volume'' (lift_call (api_vms api))) (\<lambda>vms.
       case scan_vms volume None vms of Inl e \<Rightarrow> fail e | Inr r \<Rightarrow> ret r)"

definition attached_disk_size :: "'s one_api \<Rightarrow> int \<Rightarrow> int \<Rightarrow> int \<Rightarrow> ('s, int) op" where
  "attached_disk_size api vm disk volume =
     bind_op (wrap_op ''failed to inspect vm while checking attached volume size'' (lift_call (api_vm_info api vm))) (\<lambda>v.
       case find (\<lambda>d. dk_image d = Some volume \<and> disk_int_id d = Some disk) (vm_disks v) of
         None \<Rightarrow> fail (Plain ''failed to locate attached disk'')
       | Some d \<Rightarrow> of_option (Plain ''failed to read disk size'') (disk_size_bytes d))"

definition attached_disk_on_node :: "'s one_api \<Rightarrow> int \<Rightarrow> int \<Rightarrow> ('s, int \<times> int) op" where
  "attached_disk_on_node api vm volume =
     bind_op (wrap_op ''failed to inspect vm while locating attached volume'' (lift_call (api_vm_info api vm))) (\<lambda>v.
       case find (\<lambda>d. dk_image d = Some volume) (vm_disks v) of
         None \<Rightarrow> fail (Plain ''failed to locate attached volume'')
       | Some d \<Rightarrow>
           bind_op (of_option (Plain ''failed to determine disk ID'') (disk_int_id d)) (\<lambda>i.
           bind_op (of_option (Plain ''failed to determine attached size'') (disk_size_bytes d)) (\<lambda>bytes.
             ret (i, bytes))))"

section \<open>Requested sizes\<close>

definition persist_requested_size :: "'s one_api \<Rightarrow> int \<Rightarrow> int \<Rightarrow> int \<Rightarrow> ('s, unit) op" where
  "persist_requested_size api i bytes mb s =
     bind_op (wrap_op ''failed to persist CSI requested size metadata''
                (lift_call (api_image_update api i \<lparr>sz_bytes = bytes, sz_mb = mb, sz_at = api_now api s\<rparr>))) (\<lambda>_.
     bind_op (wrap_op ''failed to verify CSI requested size metadata'' (lift_call (api_image_info api i))) (\<lambda>im.
       if verify_csi_requested_size im bytes mb then ret ()
       else fail (Plain ''failed to verify CSI requested size metadata''))) s"

text \<open>The check that a resize has taken effect leaves the size it saw.\<close>

definition resized :: "'s one_api \<Rightarrow> int \<Rightarrow> int \<Rightarrow> int \<Rightarrow> int \<Rightarrow> ('s, int option) op" where
  "resized api vm disk volume bytes =
     bind_op (attached_disk_size api vm disk volume) (\<lambda>now. ret (if bytes \<le> now then Some now else None))"

text \<open>A failed resize is forgiven when the disk turns out to be large enough.\<close>

definition resize_disk :: "nat \<Rightarrow> 's one_api \<Rightarrow> int \<Rightarrow> int \<Rightarrow> int \<Rightarrow> int \<Rightarrow> int \<Rightarrow> string \<Rightarrow> string \<Rightarrow> ('s, int) op" where
  "resize_disk fuel api vm disk volume bytes mb failing waiting =
     attempt_op (lift_call (api_disk_resize api vm disk mb)) (\<lambda>r.
       case r of
         Inr _ \<Rightarrow> wrap_op waiting (wait_for_resource fuel (resized api vm disk volume bytes) (api_tick api))
       | Inl e \<Rightarrow>
           attempt_op (attached_disk_size api vm disk volume) (\<lambda>sz.
             case sz of
               Inr now \<Rightarrow> if bytes \<le> now then ret now else fail (Wrapped failing e)
             | Inl _ \<Rightarrow> fail (Wrapped failing e)))"

definition expand_volume :: "nat \<Rightarrow> 's one_api \<Rightarrow> string \<Rightarrow> int \<Rightarrow> bool \<Rightarrow> ('s, int) op" where
  "expand_volume fuel api volume bytes allow_detached =
     (if bytes \<le> 0 then fail (Plain ''invalid requested volume size: must be greater than 0'')
      else bind_op (wrap_op ''failed to check if volume exists'' (volume_exists api volume)) (\<lambda>(i, current).
           if i = -1 then fail (Plain ''volume was not found'')
           else if bytes < current then fail (ConfigError ''shrinking volumes is not supported'')
           else if bytes = current then ret current
           else bind_op (find_attached_disk api i) (\<lambda>att.
             (case att of
                None \<Rightarrow> fail (ConfigError (if allow_detached then ''expanding detached OpenNebula persistent disks is not supported''
                                           else ''expanding detached OpenNebula persistent disks is disabled''))
              | Some (vm, disk, held) \<Rightarrow>
                  bind_op (if bytes \<le> held then ret held
                           else resize_disk fuel api vm disk i bytes (bytes_to_mib_round_up bytes)
                                  ''failed to expand volume'' ''failed waiting for volume resize to complete'') (\<lambda>held.
                  bind_op (persist_requested_size api i bytes (bytes_to_mib_round_up bytes)) (\<lambda>_.
                    ret (if held = 0 then bytes_to_mib_round_up bytes * mib else held)))))))"

definition restore_requested_size :: "nat \<Rightarrow> 's one_api \<Rightarrow> int \<Rightarrow> int \<Rightarrow> ('s, unit) op" where
  "restore_requested_size fuel api i vm =
     bind_op (wrap_op ''failed to inspect image before attach size restore'' (lift_call (api_image_info api i))) (\<lambda>im.
       case csi_requested_size im of
         Inl _ \<Rightarrow> fail (Plain ''invalid CSI requested size metadata'')
       | Inr requested \<Rightarrow>
           if requested \<le> 0
           then (if has_csi_expansion_marker im then fail (Plain ''incomplete CSI expansion metadata'') else ret ())
           else bind_op (attached_disk_on_node api vm i) (\<lambda>(disk, attached).
                  let (restore, mb) = attach_restore_resize_plan attached requested
                  in if \<not> restore then ret ()
                     else bind_op (resize_disk fuel api vm disk i requested mb
                                     ''failed to restore expanded volume'' ''failed waiting for restored volume size'') (\<lambda>_. ret ())))"

definition resolve_detach_size :: "'s one_api \<Rightarrow> int \<Rightarrow> ('s, int) op" where
  "resolve_detach_size api i =
     bind_op (find_attached_disk api i) (\<lambda>att.
       if (case att of None \<Rightarrow> False | Some (_, _, bytes) \<Rightarrow> 0 < bytes) then ret (snd (snd (the att)))
       else attempt_op (case att of None \<Rightarrow> ret 0 | Some (vm, disk, _) \<Rightarrow> attached_disk_size api vm disk i) (\<lambda>sz.
              if (case sz of Inl _ \<Rightarrow> False | Inr bytes \<Rightarrow> 0 < bytes) then ret (projr sz)
              else bind_op (lift_call (api_image_info api i)) (\<lambda>im.
                     if im_size_mb im \<le> 0 then fail (Plain ''volume size is unavailable'')
                     else ret (effective_volume_size (int64 (im_size_mb im * mib))
                                 (case csi_requested_size im of Inl _ \<Rightarrow> 0 | Inr requested \<Rightarrow> requested)))))"

section \<open>Attachment environment\<close>

record environment_report =
  er_image :: datastore
  er_system :: datastore
  er_mode :: deployment_mode
  er_warnings :: "string list"

definition latest_history_datastore :: "vm_info \<Rightarrow> prov_error + int" where
  "latest_history_datastore v =
     (case latest_history_record v of
        None \<Rightarrow> Inl (ConfigError ''target VM does not expose a system datastore history record'')
      | Some h \<Rightarrow> Inr (hr_ds h))"

definition check_ds :: "ds_error option \<Rightarrow> prov_error + unit" where
  "check_ds r = (case r of None \<Rightarrow> Inr () | Some e \<Rightarrow> Inl (DsError e))"

text \<open>The checks on the datastores of the image and of the machine, once they are known.\<close>

definition environment_checks :: "ds_schema \<Rightarrow> ds_schema \<Rightarrow> prov_error + environment_report" where
  "environment_checks ids sds =
     (let mode = resolve_deployment_mode sds;
          report = \<lparr>er_image = datastore_from_schema ids, er_system = datastore_from_schema sds, er_mode = mode, er_warnings = []\<rparr>
      in case check_ds (validate_compatible_system ids (sc_id sds)) of
           Inl e \<Rightarrow> Inl e
         | Inr _ \<Rightarrow>
             if ds_type (er_image report) \<noteq> ''ceph'' then Inr report
             else (case check_ds (validate_ceph_image_datastore ids) of
                     Inl e \<Rightarrow> Inl e
                   | Inr _ \<Rightarrow>
                       (case mode of
                          ModeCeph \<Rightarrow>
                            (case check_ds (validate_ceph_system_datastore sds) of
                               Inl e \<Rightarrow> Inl e
                             | Inr _ \<Rightarrow>
                                 (case check_ds (compare_ceph_identity ids sds) of Inl e \<Rightarrow> Inl e | Inr _ \<Rightarrow> Inr report))
                        | ModeSSH \<Rightarrow> Inr (report\<lparr>er_warnings := [''target VM is using an SSH system datastore'']\<rparr>)
                        | ModeUnknown \<Rightarrow> Inl (ConfigError ''unsupported TM_MAD for ceph-backed volume''))))"

definition inspect_environment :: "'s one_api \<Rightarrow> int \<Rightarrow> int \<Rightarrow> ('s, environment_report) op" where
  "inspect_environment api i vm =
     bind_op (wrap_op ''failed to inspect image before attach'' (lift_call (api_image_info api i))) (\<lambda>im.
     bind_op (of_option (ConfigError ''volume does not expose a source datastore ID'') (im_datastore im)) (\<lambda>ds.
     bind_op (wrap_op ''failed to inspect datastores before attach'' (lift_call (api_datastores api))) (\<lambda>pool.
     bind_op (of_option (ConfigError ''datastore was not found'') (find_datastore_by_id pool ds)) (\<lambda>ids.
     bind_op (wrap_op ''failed to inspect node before attach'' (lift_call (api_vm_info api vm))) (\<lambda>v.
       case latest_history_datastore v of
         Inl e \<Rightarrow> fail e
       | Inr sys \<Rightarrow>
           bind_op (of_option (ConfigError ''datastore was not found'') (find_datastore_by_id pool sys)) (\<lambda>sds.
             case environment_checks ids sds of Inl e \<Rightarrow> fail e | Inr report \<Rightarrow> ret report))))))"

section \<open>Host artifacts\<close>

definition artifact_candidate_deployment :: "environment_report \<Rightarrow> bool" where
  "artifact_candidate_deployment report \<longleftrightarrow>
     (let tm = lower_trim (ds_tm_mad (er_system report))
      in er_mode report = ModeSSH \<and> (contains_sub tm ''lvm'' \<or> contains_sub tm ''fs_lvm''))"

definition artifact_attachment_target ::
  "'s one_api \<Rightarrow> string \<Rightarrow> string \<Rightarrow> int \<Rightarrow> int \<Rightarrow> str_map \<Rightarrow> environment_report \<Rightarrow> ('s, artifact_target option) op" where
  "artifact_attachment_target api volume node i vm params report =
     (if \<not> artifact_candidate_deployment report then ret None
      else bind_op (wrap_op ''failed to inspect node for host artifact target'' (lift_call (api_vm_info api vm))) (\<lambda>v.
             let disk = next_available_disk_id v; sys = er_system report;
                 (host_id, host) = (case latest_history_record v of None \<Rightarrow> (0, []) | Some h \<Rightarrow> (hr_host h, hr_hostname h))
             in ret (Some \<lparr>at_volume = volume, at_image = i, at_node = node, at_vm = vm, at_host_id = host_id, at_host = host,
                  at_ds_id = ds_id sys, at_ds_name = ds_name sys, at_ds_tm = ds_tm_mad sys, at_disk = disk,
                  at_target = next_available_disk_target v params,
                  at_lv = (if 0 < disk then lv_name vm disk else [])\<rparr>)))"

definition latest_vm_error :: "'s one_api \<Rightarrow> int \<Rightarrow> 's \<Rightarrow> string \<times> 's" where
  "latest_vm_error api vm s =
     (case api_vm_info api vm s of
        (Inl _, s) \<Rightarrow> ([], s)
      | (Inr v, s) \<Rightarrow> (case vm_error v of None \<Rightarrow> [] | Some e \<Rightarrow> e, s))"

definition classify_conflict ::
  "'s one_api \<Rightarrow> int \<Rightarrow> environment_report \<Rightarrow> artifact_target option \<Rightarrow> string \<Rightarrow> 's \<Rightarrow> (artifact_target \<times> string) option \<times> 's" where
  "classify_conflict api vm report target cause s =
     (if \<not> artifact_candidate_deployment report then (None, s)
      else (let candidate = (case target of None \<Rightarrow> empty_artifact_target | Some t \<Rightarrow> t)
            in case conflict_from_message cause candidate cause of
                 Some c \<Rightarrow> (Some c, s)
               | None \<Rightarrow>
                   (let (raw, s) = latest_vm_error api vm s
                    in if trim_space raw = [] then (None, s)
                       else (conflict_from_message (trim_space raw) candidate cause, s))))"

section \<open>Error texts\<close>

text \<open>\<open>time.Duration.String\<close>: below a second with the largest unit that fits, otherwise in
  hours, minutes and seconds; fractions without trailing zeros.\<close>

definition pad_left :: "nat \<Rightarrow> string \<Rightarrow> string" where
  "pad_left n s = replicate (n - length s) (CHR ''0'') @ s"

definition fraction_string :: "nat \<Rightarrow> int \<Rightarrow> string" where
  "fraction_string digits n =
     (let raw = rev (dropWhile (\<lambda>c. c = CHR ''0'') (rev (pad_left digits (itoa n))))
      in if raw = [] then [] else CHR ''.'' # raw)"

definition scaled_string :: "int \<Rightarrow> nat \<Rightarrow> int \<Rightarrow> string" where
  "scaled_string unit digits n = itoa (n div unit) @ fraction_string digits (n mod unit)"

definition duration_string :: "duration \<Rightarrow> string" where
  "duration_string d =
     (let u = \<bar>d\<bar>;
          body = (if u = 0 then ''0s''
                  else if u < 1000 then itoa u @ ''ns''
                  else if u < 1000000 then scaled_string 1000 3 u @ [CHR 0xC2, CHR 0xB5] @ ''s''
                  else if u < second then scaled_string 1000000 6 u @ ''ms''
                  else (if u div (60 * minute) > 0 then itoa (u div (60 * minute)) @ ''h'' else []) @
                       (if u div minute > 0 then itoa (u div minute mod 60) @ ''m'' else []) @
                       scaled_string second 9 (u mod minute) @ ''s'')
      in (if d < 0 then CHR ''-'' # body else body))"

definition bool_string :: "bool \<Rightarrow> string" where "bool_string b = (if b then ''true'' else ''false'')"

text \<open>The text of the errors of the waiting loops.\<close>

fun error_text :: "prov_error \<Rightarrow> string" where
  "error_text (Plain m) = m"
| "error_text (ApiError m) = m"
| "error_text (ConfigError m) = m"
| "error_text (Wrapped w e) = w @ '': '' @ error_text e"
| "error_text (Noted e m) = error_text e @ m"
| "error_text (HotplugTimeout operation volume node timeout attached ready) =
     ''timed out after '' @ duration_string timeout @ '' waiting for '' @ operation @ '' of volume '' @ volume @ '' on node '' @ node @
     '' (attached='' @ bool_string attached @ '' ready='' @ bool_string ready @ '')''"
| "error_text _ = []"

section \<open>Attach and detach\<close>

definition require_found :: "string \<Rightarrow> ('s, int) op \<Rightarrow> ('s, int) op" where
  "require_found w m = bind_op (wrap_op w m) (\<lambda>i. if i = -1 then fail (Plain w) else ret i)"

definition attach_request_failed ::
  "'s one_api \<Rightarrow> int \<Rightarrow> environment_report \<Rightarrow> artifact_target option \<Rightarrow> prov_error \<Rightarrow> prov_error \<Rightarrow> ('s, unit) op" where
  "attach_request_failed api vm report target cause otherwise s =
     (if cause = NoReturn then (Inl NoReturn, s)
      else (case classify_conflict api vm report target (error_text cause) s of
              (Some (t, raw), s) \<Rightarrow> (Inl (ArtifactConflict t raw), s)
            | (None, s) \<Rightarrow> (Inl otherwise, s)))"

definition attach_and_wait ::
  "nat \<Rightarrow> 's one_api \<Rightarrow> string \<Rightarrow> string \<Rightarrow> int \<Rightarrow> int \<Rightarrow> duration \<Rightarrow> environment_report \<Rightarrow> artifact_target option \<Rightarrow> disk_request \<Rightarrow>
   ('s, unit) op" where
  "attach_and_wait fuel api volume node i vm timeout report target request s =
     (case api_disk_attach api vm request s of
        (first, s) \<Rightarrow>
          if (case first of Inl e \<Rightarrow> \<not> is_hotplug_state_message e | Inr _ \<Rightarrow> False)
          then attach_request_failed api vm report target (ApiError (projl first))
                 (Wrapped (''failed to attach volume '' @ volume @ '' to node '' @ node) (ApiError (projl first))) s
          else (case wait_for_attach_state fuel (observe_attachment api i vm) (api_disk_attach api vm request) (api_tick api) (isl first) s of
                  (w, s) \<Rightarrow>
                    (case wait_result ''attach'' volume node timeout w of
                       None \<Rightarrow> restore_requested_size fuel api i vm s
                     | Some e \<Rightarrow>
                         attach_request_failed api vm report target e
                           (case first of Inl m \<Rightarrow> Noted e ('' (initial attach error: '' @ m @ '')'') | Inr _ \<Rightarrow> e) s)))"

definition attach_volume ::
  "nat \<Rightarrow> (int \<Rightarrow> int \<Rightarrow> int) \<Rightarrow> hotplug_policy \<Rightarrow> 's one_api \<Rightarrow> string \<Rightarrow> string \<Rightarrow> bool \<Rightarrow> (string \<times> string) list \<Rightarrow> ('s, unit) op" where
  "attach_volume fuel ceil policy api volume node immutable params =
     bind_op (require_found ''failed to check if node exists'' (node_exists api node)) (\<lambda>vm.
     bind_op (require_found ''failed to check if volume exists'' (bind_op (volume_exists api volume) (\<lambda>(i, _). ret i))) (\<lambda>i.
     bind_op (wrap_op ''failed to resolve volume size for attach'' (resolve_volume_size api volume)) (\<lambda>bytes.
     bind_op (inspect_environment api i vm) (\<lambda>report.
     attempt_op (artifact_attachment_target api volume node i vm (map_of params) report) (\<lambda>target.
       attach_and_wait fuel api volume node i vm (compute_hotplug_timeout ceil policy bytes) report
         (case target of Inl _ \<Rightarrow> None | Inr t \<Rightarrow> t)
         \<lparr>dr_image = i, dr_serial = ''onecsi-'' @ itoa i, dr_params = add_disk_params params, dr_readonly = immutable\<rparr>)))))"

definition inspect_artifact_target ::
  "'s one_api \<Rightarrow> string \<Rightarrow> string \<Rightarrow> str_map \<Rightarrow> ('s, artifact_target option) op" where
  "inspect_artifact_target api volume node params =
     bind_op (require_found ''failed to check if node exists'' (node_exists api node)) (\<lambda>vm.
     bind_op (require_found ''failed to check if volume exists'' (bind_op (volume_exists api volume) (\<lambda>(i, _). ret i))) (\<lambda>i.
     bind_op (inspect_environment api i vm) (\<lambda>report.
       artifact_attachment_target api volume node i vm params report)))"

definition detach_and_wait :: "nat \<Rightarrow> 's one_api \<Rightarrow> string \<Rightarrow> string \<Rightarrow> int \<Rightarrow> int \<Rightarrow> duration \<Rightarrow> int \<Rightarrow> ('s, unit) op" where
  "detach_and_wait fuel api volume node i vm timeout disk s =
     (case api_disk_detach api vm disk s of
        (first, s) \<Rightarrow>
          if (case first of Inl e \<Rightarrow> \<not> is_hotplug_state_message e | Inr _ \<Rightarrow> False)
          then (Inl (Wrapped ''failed to detach volume'' (ApiError (projl first))), s)
          else (case wait_for_detach_state fuel (observe_attachment api i vm) (api_disk_detach api vm disk) (api_tick api) (isl first) s of
                  (w, s) \<Rightarrow>
                    (case wait_result ''detach'' volume node timeout w of
                       None \<Rightarrow> (Inr (), s)
                     | Some e \<Rightarrow>
                         (Inl (case first of Inl m \<Rightarrow> Noted e ('' (initial detach error: '' @ m @ '')'') | Inr _ \<Rightarrow> e), s))))"

definition detach_volume ::
  "nat \<Rightarrow> (int \<Rightarrow> int \<Rightarrow> int) \<Rightarrow> hotplug_policy \<Rightarrow> 's one_api \<Rightarrow> string \<Rightarrow> string \<Rightarrow> ('s, unit) op" where
  "detach_volume fuel ceil policy api volume node =
     bind_op (require_found ''failed to check if node exists'' (node_exists api node)) (\<lambda>vm.
     bind_op (require_found ''failed to check if volume exists'' (bind_op (volume_exists api volume) (\<lambda>(i, _). ret i))) (\<lambda>i.
     bind_op (wrap_op ''failed to resolve volume size for detach'' (resolve_detach_size api i)) (\<lambda>bytes.
     bind_op (wrap_op ''failed to get VM info'' (lift_call (api_vm_info api vm))) (\<lambda>v.
       case find (\<lambda>d. dk_image d = Some i) (vm_disks v) of
         None \<Rightarrow> ret ()
       | Some d \<Rightarrow>
           (case dk_id d of
              None \<Rightarrow> fail (Plain ''failed to get disk ID'')
            | Some raw \<Rightarrow>
                (case atoi raw of
                   None \<Rightarrow> fail (Plain ''invalid disk ID format'')
                 | Some disk \<Rightarrow> detach_and_wait fuel api volume node i vm (compute_hotplug_timeout ceil policy bytes) disk))))))"

section \<open>Inspection\<close>

definition record_of_disk :: "vm_info \<Rightarrow> vm_disk \<Rightarrow> disk_record" where
  "record_of_disk v d =
     \<lparr>rec_node_name = vm_name v, rec_node = vm_id v, rec_disk = (case disk_int_id d of None \<Rightarrow> 0 | Some i \<Rightarrow> i),
      rec_target = (case dk_target d of None \<Rightarrow> [] | Some t \<Rightarrow> t), rec_serial = (case dk_serial d of None \<Rightarrow> [] | Some t \<Rightarrow> t)\<rparr>"

definition records_of_vm :: "int \<Rightarrow> vm_info \<Rightarrow> disk_record list" where
  "records_of_vm i v = map (record_of_disk v) (filter (\<lambda>d. dk_image d = Some i) (vm_disks v))"

definition inspect_volume_attachment :: "'s one_api \<Rightarrow> string \<Rightarrow> string \<Rightarrow> ('s, attachment_metadata) op" where
  "inspect_volume_attachment api volume node =
     bind_op (wrap_op ''failed to check if volume exists while inspecting attachment metadata'' (volume_exists api volume)) (\<lambda>(i, _).
       if i = -1 then fail (Plain ''volume was not found while inspecting attachment metadata'')
       else bind_op (if trim_space node = [] then ret (-1)
                     else wrap_op ''failed to check if node exists while inspecting attachment metadata'' (node_exists api node)) (\<lambda>vm.
            bind_op (wrap_op ''failed to inspect image attachment metadata'' (lift_call (api_image_info api i))) (\<lambda>im.
            bind_op (wrap_op ''failed to list virtual machines while inspecting attachment metadata'' (lift_call (api_vms api))) (\<lambda>vms.
              let records = concat (map (records_of_vm i) vms)
              in ret \<lparr>md_volume = volume, md_image = i, md_image_name = im_name im, md_image_state = (case im_state_name im of None \<Rightarrow> ''UNKNOWN_'' @ itoa (im_state_raw im) | Some n \<Rightarrow> n),
                   md_running = im_running im, md_image_vms = im_vms im,
                   md_requested_node = trim_space node, md_requested_node_id = vm,
                   md_attached_here = (0 < vm \<and> list_ex (\<lambda>r. rec_node r = vm) records), md_records = records\<rparr>))))"

record observed_attachment =
  oa_volume :: string
  oa_image :: int
  oa_node :: string
  oa_node_id :: int
  oa_disk :: int
  oa_backend :: string

definition image_backend :: "'s one_api \<Rightarrow> image_info \<Rightarrow> 's \<Rightarrow> string \<times> 's" where
  "image_backend api im s =
     (case im_datastore im of
        None \<Rightarrow> ([], s)
      | Some ds \<Rightarrow>
          (case api_datastores api s of
             (Inl _, s) \<Rightarrow> ([], s)
           | (Inr pool, s) \<Rightarrow> (case find_datastore_by_id pool ds of None \<Rightarrow> [] | Some d \<Rightarrow> ds_backend (datastore_from_schema d), s)))"

text \<open>The disks of all machines in turn, with the images already looked up.\<close>

fun list_attachments ::
  "'s one_api \<Rightarrow> (int \<rightharpoonup> string \<times> string) \<Rightarrow> (vm_info \<times> vm_disk) list \<Rightarrow> ('s, observed_attachment list) op" where
  "list_attachments api cache [] s = (Inr [], s)"
| "list_attachments api cache ((v, d) # ds) s =
     (case (dk_image d, disk_int_id d) of
        (Some i, Some disk) \<Rightarrow>
          if i \<le> 0 then list_attachments api cache ds s
          else (let (meta, s) =
                      (case cache i of
                         Some m \<Rightarrow> (Inr m, s)
                       | None \<Rightarrow>
                           (case api_image_info api i s of
                              (Inl e, s) \<Rightarrow> (Inl (Wrapped ''failed to inspect image while listing attachments'' (ApiError e)), s)
                            | (Inr im, s) \<Rightarrow> (let (backend, s) = image_backend api im s in (Inr (im_name im, backend), s))))
                in case meta of
                     Inl e \<Rightarrow> (Inl e, s)
                   | Inr (name, backend) \<Rightarrow>
                       (case list_attachments api (cache(i \<mapsto> (name, backend))) ds s of
                          (Inl e, s) \<Rightarrow> (Inl e, s)
                        | (Inr rest, s) \<Rightarrow>
                            (Inr (\<lparr>oa_volume = name, oa_image = i, oa_node = vm_name v, oa_node_id = vm_id v, oa_disk = disk,
                                   oa_backend = backend\<rparr> # rest), s)))
      | _ \<Rightarrow> list_attachments api cache ds s)"

definition list_current_attachments :: "'s one_api \<Rightarrow> ('s, observed_attachment list) op" where
  "list_current_attachments api =
     bind_op (wrap_op ''failed to list virtual machines'' (lift_call (api_vms api))) (\<lambda>vms.
       list_attachments api Map.empty (concat (map (\<lambda>v. map (Pair v) (vm_disks v)) vms)))"

section \<open>Operations return\<close>

fun ran_out :: "prov_error \<Rightarrow> bool" where
  "ran_out NoReturn = True"
| "ran_out (Wrapped w e) = ran_out e"
| "ran_out (Noted e m) = ran_out e"
| "ran_out _ = False"

definition stuck :: "prov_error + 'a \<Rightarrow> bool" where
  "stuck r \<longleftrightarrow> (case r of Inl e \<Rightarrow> ran_out e | Inr _ \<Rightarrow> False)"

lemma stuck_simps [simp]: "stuck (Inl e) = ran_out e" "\<not> stuck (Inr a)"
  by (simp_all add: stuck_def)

text \<open>From any state with less than \<open>n\<close> on the clock, an operation returns and does not add to the
  clock.\<close>

definition settles :: "('s \<Rightarrow> nat) \<Rightarrow> nat \<Rightarrow> ('s, 'a) op \<Rightarrow> bool" where
  "settles left n m \<longleftrightarrow> (\<forall>s r s'. left s < n \<longrightarrow> m s = (r, s') \<longrightarrow> \<not> stuck r \<and> left s' \<le> left s)"

named_theorems settling

lemma settlesI: "(\<And>s r s'. left s < n \<Longrightarrow> m s = (r, s') \<Longrightarrow> \<not> stuck r \<and> left s' \<le> left s) \<Longrightarrow> settles left n m"
  unfolding settles_def by blast

lemma settlesD: "settles left n m \<Longrightarrow> left s < n \<Longrightarrow> m s = (r, s') \<Longrightarrow> \<not> stuck r \<and> left s' \<le> left s"
  unfolding settles_def by blast

lemma settles_fst: "settles left n m \<Longrightarrow> left s < n \<Longrightarrow> \<not> stuck (fst (m s))"
  by (cases "m s") (simp add: settles_def)

lemma settles_ret [settling]: "settles left n (ret a)"
  by (simp add: settles_def ret_def)

lemma settles_fail [settling]: "\<not> ran_out e \<Longrightarrow> settles left n (fail e)"
  by (simp add: settles_def fail_def)

lemma settles_bind [settling]:
  assumes "settles left n m" "\<And>a. settles left n (f a)"
  shows "settles left n (bind_op m f)"
proof (rule settlesI)
  fix s r s' assume s: "left s < n" and run: "bind_op m f s = (r, s')"
  obtain r1 s1 where m: "m s = (r1, s1)" by fastforce
  note 1 = settlesD [OF assms(1) s m]
  show "\<not> stuck r \<and> left s' \<le> left s"
  proof (cases r1)
    case (Inl e)
    then show ?thesis using 1 run m by (auto simp: bind_op_def)
  next
    case (Inr a)
    then have "f a s1 = (r, s')" using run m by (auto simp: bind_op_def)
    then show ?thesis using 1 s settlesD [OF assms(2), of s1 a r s'] by simp
  qed
qed

lemma settles_attempt [settling]:
  assumes "settles left n m" "\<And>r. \<not> stuck r \<Longrightarrow> settles left n (f r)"
  shows "settles left n (attempt_op m f)"
proof (rule settlesI)
  fix s r s' assume s: "left s < n" and run: "attempt_op m f s = (r, s')"
  obtain r1 s1 where m: "m s = (r1, s1)" by fastforce
  note 1 = settlesD [OF assms(1) s m]
  have "f r1 s1 = (r, s')" using run m by (simp add: attempt_op_def)
  then show "\<not> stuck r \<and> left s' \<le> left s" using 1 s settlesD [OF assms(2), of r1 s1 r s'] by simp
qed

lemma settles_wrap [settling]: "settles left n m \<Longrightarrow> settles left n (wrap_op w m)"
  by (fastforce simp: settles_def wrap_op_def split: prod.splits sum.splits)

lemma settles_lift [settling]: "keeps_clock left c \<Longrightarrow> settles left n (lift_call c)"
  by (rule settlesI) (auto simp: lift_call_def split: prod.splits sum.splits dest: keeps_clockD)

lemma settles_of_option [settling]: "\<not> ran_out e \<Longrightarrow> settles left n (of_option e x)"
  by (auto simp: of_option_def intro!: settling split: option.splits)

lemma settles_wait [settling]:
  assumes "clock_bound left tick" "settles left n check"
  shows "settles left n (wait_for_resource n check tick)"
proof -
  have "\<not> stuck r \<and> left s' \<le> left s" if "left s < k" "k \<le> n" "wait_for_resource k check tick s = (r, s')" for k r s s'
    using that
  proof (induction k arbitrary: s)
    case (Suc k)
    obtain stop s1 where tick: "tick s = (stop, s1)" by fastforce
    obtain c s2 where check: "check s1 = (c, s2)" by fastforce
    show ?case
    proof (cases stop)
      case True
      then show ?thesis using Suc.prems tick assms(1) by (auto simp: clock_bound_def)
    next
      case False
      then have less: "left s1 < left s" using assms(1) tick by (simp add: clock_bound_def)
      then have 2: "\<not> stuck c \<and> left s2 \<le> left s1" using settlesD [OF assms(2) _ check] Suc.prems by simp
      have "\<not> stuck r \<and> left s' \<le> left s2" if "c = Inr None"
        using Suc.IH [of s2] Suc.prems that less 2 False tick check by simp
      then show ?thesis using Suc.prems(3) False tick check 2 less by (auto split: sum.splits option.splits)
    qed
  qed simp
  then show ?thesis by (intro settlesI) blast
qed

section \<open>Every call of the API keeps the clock\<close>

definition api_clock :: "('s \<Rightarrow> nat) \<Rightarrow> 's one_api \<Rightarrow> bool" where
  "api_clock left api \<longleftrightarrow>
     clock_bound left (api_tick api) \<and>
     (\<forall>name. keeps_clock left (api_image_by_name api name)) \<and> (\<forall>i. keeps_clock left (api_image_info api i)) \<and>
     (\<forall>r d. keeps_clock left (api_image_create api r d)) \<and> (\<forall>i name d. keeps_clock left (api_image_clone api i name d)) \<and>
     (\<forall>i. keeps_clock left (api_image_delete api i)) \<and> (\<forall>i m. keeps_clock left (api_image_update api i m)) \<and>
     keeps_clock left (api_images api) \<and> (\<forall>name. keeps_clock left (api_vm_by_name api name)) \<and>
     keeps_clock left (api_vms api) \<and> (\<forall>i. keeps_clock left (api_vm_info api i)) \<and>
     keeps_clock left (api_datastores api) \<and> (\<forall>v d. keeps_clock left (api_disk_attach api v d)) \<and>
     (\<forall>v d. keeps_clock left (api_disk_detach api v d)) \<and> (\<forall>v d m. keeps_clock left (api_disk_resize api v d m))"

lemma api_clockD [settling]:
  assumes "api_clock left api"
  shows "clock_bound left (api_tick api)" "keeps_clock left (api_image_by_name api name)" "keeps_clock left (api_image_info api i)"
    "keeps_clock left (api_image_create api r d)" "keeps_clock left (api_image_clone api i name d)"
    "keeps_clock left (api_image_delete api i)" "keeps_clock left (api_image_update api i m)" "keeps_clock left (api_images api)"
    "keeps_clock left (api_vm_by_name api name)" "keeps_clock left (api_vms api)" "keeps_clock left (api_vm_info api i)"
    "keeps_clock left (api_datastores api)" "keeps_clock left (api_disk_attach api v q)" "keeps_clock left (api_disk_detach api v i)"
    "keeps_clock left (api_disk_resize api v i k)"
  using assms by (auto simp: api_clock_def)

lemma node_exists_settles [settling]:
  assumes "api_clock left api" shows "settles left n (node_exists api node)"
proof (rule settlesI)
  fix s r s' assume run: "node_exists api node s = (r, s')"
  obtain x s1 where 1: "api_vm_by_name api node s = (x, s1)" by fastforce
  obtain y s2 where 2: "api_vms api s1 = (y, s2)" by fastforce
  have "left s1 \<le> left s" "left s2 \<le> left s1"
    using keeps_clockD [OF api_clockD(9) [OF assms] 1] keeps_clockD [OF api_clockD(10) [OF assms] 2] by auto
  then show "\<not> stuck r \<and> left s' \<le> left s"
    using run 1 2 by (auto simp: node_exists_def resolve_node_vm_id_def split: sum.splits list.splits)
qed

lemma volume_exists_settles [settling]: "api_clock left api \<Longrightarrow> settles left n (volume_exists api volume)"
  by (auto simp: volume_exists_def image_effective_size_def intro!: settling split: sum.splits)

lemma resolve_volume_size_settles [settling]: "api_clock left api \<Longrightarrow> settles left n (resolve_volume_size api volume)"
  by (auto simp: resolve_volume_size_def intro!: settling)

lemma volume_ready_settles [settling]: "api_clock left api \<Longrightarrow> settles left n (done_when (volume_ready api i))"
  by (auto simp: volume_ready_def done_when_def intro!: settling split: option.splits)

lemma volume_deleted_settles [settling]: "api_clock left api \<Longrightarrow> settles left n (done_when (volume_deleted api i))"
  by (auto simp: volume_deleted_def done_when_def intro!: settling split: sum.splits)

lemma scan_disks_not_ran_out: "scan_disks volume vm found ds = Inl e \<Longrightarrow> \<not> ran_out e"
  by (induction volume vm found ds rule: scan_disks.induct) (auto split: if_splits option.splits)

lemma scan_vms_not_ran_out: "scan_vms volume found vs = Inl e \<Longrightarrow> \<not> ran_out e"
  by (induction volume found vs rule: scan_vms.induct) (auto split: sum.splits dest: scan_disks_not_ran_out)

lemma find_attached_disk_settles [settling]: "api_clock left api \<Longrightarrow> settles left n (find_attached_disk api i)"
  by (auto simp: find_attached_disk_def intro!: settling split: sum.splits dest: scan_vms_not_ran_out)

lemma attached_disk_size_settles [settling]: "api_clock left api \<Longrightarrow> settles left n (attached_disk_size api vm disk i)"
  by (auto simp: attached_disk_size_def intro!: settling split: option.splits)

lemma attached_disk_on_node_settles [settling]: "api_clock left api \<Longrightarrow> settles left n (attached_disk_on_node api vm i)"
  by (auto simp: attached_disk_on_node_def intro!: settling split: option.splits)

lemma resized_settles [settling]: "api_clock left api \<Longrightarrow> settles left n (resized api vm disk i bytes)"
  by (auto simp: resized_def intro!: settling)

lemma resize_disk_settles [settling]: "api_clock left api \<Longrightarrow> settles left n (resize_disk n api vm disk i bytes mb f w)"
  by (auto simp: resize_disk_def intro!: settling split: sum.splits)

lemma persist_settles [settling]:
  assumes "api_clock left api" shows "settles left n (persist_requested_size api i bytes mb)"
proof (rule settlesI)
  fix s r s' assume s: "left s < n" and run: "persist_requested_size api i bytes mb s = (r, s')"
  have "settles left n (bind_op (wrap_op ''failed to persist CSI requested size metadata'' (lift_call (api_image_update api i m))) (\<lambda>_.
      bind_op (wrap_op ''failed to verify CSI requested size metadata'' (lift_call (api_image_info api i))) (\<lambda>im.
        if verify_csi_requested_size im bytes mb then ret () else fail (Plain ''failed to verify CSI requested size metadata''))))" for m
    using assms by (auto intro!: settling)
  from settlesD [OF this s] run show "\<not> stuck r \<and> left s' \<le> left s" by (simp add: persist_requested_size_def)
qed

lemma expand_volume_settles: "api_clock left api \<Longrightarrow> settles left n (expand_volume n api volume bytes allow)"
  by (auto simp: expand_volume_def intro!: settling split: option.splits)

lemma restore_settles [settling]: "api_clock left api \<Longrightarrow> settles left n (restore_requested_size n api i vm)"
  by (auto simp: restore_requested_size_def Let_def intro!: settling split: sum.splits prod.splits)

lemma resolve_detach_size_settles [settling]: "api_clock left api \<Longrightarrow> settles left n (resolve_detach_size api i)"
  by (auto simp: resolve_detach_size_def intro!: settling split: sum.splits option.splits)

lemma delete_volume_settles: "api_clock left api \<Longrightarrow> settles left n (delete_volume n api volume)"
  by (auto simp: delete_volume_def intro!: settling split: sum.splits)

lemma wait_loop_clock:
  assumes "clock_bound left tick" "keeps_clock left observe" "keeps_clock left retry"
    and "wait_loop n observe retry tick finished again pending s = (w, s')"
  shows "left s' \<le> left s"
  using assms(4)
proof (induction n arbitrary: pending s)
  case (Suc n)
  obtain o1 s1 where 1: "observe s = (o1, s1)" by fastforce
  have l1: "left s1 \<le> left s" by (rule keeps_clockD [OF assms(2) 1])
  show ?case
  proof (cases o1)
    case (Inl e)
    then show ?thesis using Suc.prems 1 l1 by simp
  next
    case (Inr ar)
    obtain a b where ar: "ar = (a, b)" by fastforce
    obtain e p s2 where 2: "retry_step retry (pending \<and> again a b) pending s1 = (e, p, s2)" by (metis prod.exhaust)
    obtain stop s3 where 3: "tick s2 = (stop, s3)" by fastforce
    have l2: "left s2 \<le> left s1" by (rule retry_step_keeps_clock [OF assms(3) 2])
    have l3: "left s3 \<le> left s2" using assms(1) 3 by (cases stop) (auto simp: clock_bound_def less_imp_le)
    have more: "left s' \<le> left s3" if "wait_loop n observe retry tick finished again p s3 = (w, s')"
      using Suc.IH that by blast
    show ?thesis
      using Suc.prems 1 Inr ar 2 3 l1 l2 l3
      by (auto split: if_splits option.splits bool.splits dest!: more)
  qed
qed simp

lemma settles_explicit:
  assumes "settles left n m" "left s < n" "left s1 \<le> left s" "m s1 = (r, s')"
  shows "\<not> stuck r \<and> left s' \<le> left s"
  using settlesD [OF assms(1) _ assms(4)] assms(2,3) by auto

lemma get_volume_settles [settling]: "api_clock left api \<Longrightarrow> settles left n (get_volume_in_node api i vm)"
  by (auto simp: get_volume_in_node_def target_of_volume_def intro!: settling split: sum.splits option.splits)

lemma observe_keeps_clock:
  assumes "api_clock left api" shows "keeps_clock left (observe_attachment api i vm)"
  unfolding keeps_clock_def
proof
  fix s
  obtain r s1 where 1: "get_volume_in_node api i vm s = (r, s1)" by fastforce
  obtain v s2 where 2: "api_vm_info api vm s1 = (v, s2)" by fastforce
  have "left s1 \<le> left s" using settlesD [OF get_volume_settles [OF assms] _ 1, of "Suc (left s)"] by simp
  moreover have "left s2 \<le> left s1" by (rule keeps_clockD [OF api_clockD(11) [OF assms] 2])
  ultimately show "left (snd (observe_attachment api i vm s)) \<le> left s"
    using 1 2 by (auto simp: observe_attachment_def node_ready_call_def split: sum.splits option.splits)
qed

lemma inspect_environment_settles [settling]: "api_clock left api \<Longrightarrow> settles left n (inspect_environment api i vm)"
  by (auto simp: inspect_environment_def latest_history_datastore_def environment_checks_def check_ds_def Let_def intro!: settling
      split: sum.splits option.splits if_splits deployment_mode.splits)

lemma artifact_target_settles [settling]: "api_clock left api \<Longrightarrow> settles left n (artifact_attachment_target api volume node i vm params report)"
  by (auto simp: artifact_attachment_target_def Let_def intro!: settling split: prod.splits)

lemma require_found_settles [settling]: "settles left n m \<Longrightarrow> settles left n (require_found w m)"
  by (auto simp: require_found_def intro!: settling)

lemma classify_conflict_clock:
  assumes "api_clock left api" "classify_conflict api vm report target cause s = (c, s')"
  shows "left s' \<le> left s"
proof -
  obtain v s1 where "api_vm_info api vm s = (v, s1)" by fastforce
  then show ?thesis using keeps_clockD [OF api_clockD(11) [OF assms(1)]] assms(2)
    by (fastforce simp: classify_conflict_def latest_vm_error_def Let_def split: if_splits sum.splits option.splits)
qed

lemma attach_request_failed_settles:
  assumes "api_clock left api" "\<not> ran_out cause" "\<not> ran_out otherwise"
  shows "settles left n (attach_request_failed api vm report target cause otherwise)"
proof (rule settlesI)
  fix s r s' assume run: "attach_request_failed api vm report target cause otherwise s = (r, s')"
  obtain c s1 where c: "classify_conflict api vm report target (error_text cause) s = (c, s1)" by fastforce
  show "\<not> stuck r \<and> left s' \<le> left s"
    using run c assms(2,3) classify_conflict_clock [OF assms(1) c] by (auto simp: attach_request_failed_def split: option.splits if_splits)
qed

lemma wait_result_not_ran_out: "wait_result operation volume node timeout (Some w) = Some e \<Longrightarrow> \<not> ran_out e"
  by (auto simp: wait_result_def split: option.splits wait_error.splits)

lemma hotplug_wait_outcome:
  assumes api: "api_clock left api" and retry: "keeps_clock left retry" and s: "left s < n"
    and run: "wait_loop n (observe_attachment api i vm) retry (api_tick api) finished again pending s = (w, s')"
  shows "left s' \<le> left s \<and> (\<exists>w'. w = Some w')"
proof -
  note clocks = api_clockD(1) [OF api] observe_keeps_clock [OF api, of i vm] retry
  have "w \<noteq> None" using wait_loop_returns [OF clocks s, of finished again pending] run by simp
  then show ?thesis using wait_loop_clock [OF clocks run] by blast
qed

lemma attach_and_wait_settles [settling]:
  assumes api: "api_clock left api"
  shows "settles left n (attach_and_wait n api volume node i vm timeout report target request)"
proof (rule settlesI)
  fix s r s'
  assume s: "left s < n" and run: "attach_and_wait n api volume node i vm timeout report target request s = (r, s')"
  note retry = api_clockD(13) [OF api, of vm request]
  obtain first s1 where 1: "api_disk_attach api vm request s = (first, s1)" by fastforce
  have l1: "left s1 \<le> left s" by (rule keeps_clockD [OF retry 1])
  obtain w s2 where 2: "wait_for_attach_state n (observe_attachment api i vm) (api_disk_attach api vm request) (api_tick api) (isl first) s1 = (w, s2)"
    by fastforce
  obtain w' where w: "w = Some w'" and l2: "left s2 \<le> left s"
    using hotplug_wait_outcome [OF api retry _ 2 [unfolded wait_for_attach_state_def]] l1 s by auto
  show "\<not> stuck r \<and> left s' \<le> left s"
  proof (cases "case first of Inl e \<Rightarrow> \<not> is_hotplug_state_message e | Inr _ \<Rightarrow> False")
    case True
    show ?thesis
      by (rule settles_explicit [OF attach_request_failed_settles [OF api] s l1])
        (use run 1 True in \<open>auto simp: attach_and_wait_def\<close>)
  next
    case goes_on: False
    show ?thesis
    proof (cases "wait_result ''attach'' volume node timeout w")
      case None
      show ?thesis
        by (rule settles_explicit [OF restore_settles [OF api] s l2]) (use run 1 2 goes_on None in \<open>simp add: attach_and_wait_def\<close>)
    next
      case (Some e)
      let ?otherwise = "case first of Inl m \<Rightarrow> Noted e ('' (initial attach error: '' @ m @ '')'') | Inr _ \<Rightarrow> e"
      have e: "\<not> ran_out e" using wait_result_not_ran_out Some w by blast
      then have "\<not> ran_out ?otherwise" by (simp split: sum.split)
      from settles_explicit [OF attach_request_failed_settles [OF api e this] s l2] show ?thesis
        using run 1 2 goes_on Some by (simp add: attach_and_wait_def)
    qed
  qed
qed

lemma detach_and_wait_settles [settling]:
  assumes api: "api_clock left api"
  shows "settles left n (detach_and_wait n api volume node i vm timeout disk)"
proof (rule settlesI)
  fix s r s' assume s: "left s < n" and run: "detach_and_wait n api volume node i vm timeout disk s = (r, s')"
  note retry = api_clockD(14) [OF api, of vm disk]
  obtain first s1 where 1: "api_disk_detach api vm disk s = (first, s1)" by fastforce
  have l1: "left s1 \<le> left s" by (rule keeps_clockD [OF retry 1])
  obtain w s2 where 2: "wait_for_detach_state n (observe_attachment api i vm) (api_disk_detach api vm disk) (api_tick api) (isl first) s1 = (w, s2)"
    by fastforce
  obtain w' where w: "w = Some w'" and l2: "left s2 \<le> left s"
    using hotplug_wait_outcome [OF api retry _ 2 [unfolded wait_for_detach_state_def]] l1 s by auto
  have "\<not> ran_out e" if "wait_result ''detach'' volume node timeout w = Some e" for e
    using wait_result_not_ran_out that w by blast
  then show "\<not> stuck r \<and> left s' \<le> left s"
    using run 1 2 l1 l2 by (auto simp: detach_and_wait_def split: if_splits sum.splits option.splits)
qed

lemma attach_volume_settles: "api_clock left api \<Longrightarrow> settles left n (attach_volume n ceil policy api volume node immutable params)"
  by (auto simp: attach_volume_def intro!: settling)

lemma detach_volume_settles: "api_clock left api \<Longrightarrow> settles left n (detach_volume n ceil policy api volume node)"
  by (auto simp: detach_volume_def intro!: settling split: option.splits)

lemma provision_clock:
  assumes "\<And>d. keeps_clock left (mk d)" "provision mk now needed attempted short ds (r, s) = (out, r', s')"
  shows "left s' \<le> left s"
  using assms(2)
proof (induction ds arbitrary: attempted short r s)
  case (Cons d ds)
  obtain x s1 where 1: "mk d s = (x, s1)" by fastforce
  have "left s1 \<le> left s" by (rule keeps_clockD [OF assms(1) 1])
  then show ?case using Cons.prems 1 by (auto simp: Let_def split: if_splits sum.splits dest!: Cons.IH)
qed simp

lemma resolve_provisioning_clock:
  assumes "api_clock left api" "resolve_provisioning_datastores fl api sel (r, s) = (c, r', s')"
  shows "left s' \<le> left s" "c \<noteq> Inl e \<or> \<not> ran_out e"
proof -
  obtain x s1 where 1: "api_datastores api s = (x, s1)" by fastforce
  have "left s1 \<le> left s" by (rule keeps_clockD [OF api_clockD(12) [OF assms(1)] 1])
  then show "left s' \<le> left s" "c \<noteq> Inl e \<or> \<not> ran_out e"
    using assms(2) 1 by (auto simp: resolve_provisioning_datastores_def split: sum.splits prod.splits)
qed

lemma provisioned_result_settles:
  assumes "api_clock left api" "left s < n"
    and "provisioned_result n api failing waiting bytes ((out, ids), r, s) = (res, r', s')"
  shows "\<not> stuck res"
proof -
  note wait = settlesD [OF settles_wait [OF api_clockD(1) [OF assms(1)] volume_ready_settles [OF assms(1)]] assms(2)]
  show ?thesis using assms(3) wait
    by (cases out) (fastforce simp: provisioned_result_def split: prod.splits sum.splits)+
qed

lemma create_volume_returns:
  assumes api: "api_clock left api" and s: "left s < n"
    and run: "create_volume n fl api name bytes owner immutable fs params sel (r, s) = (res, r', s')"
  shows "\<not> stuck res"
proof -
  obtain c r1 s1 where c: "resolve_provisioning_datastores fl api sel (r, s) = (c, r1, s1)" by (metis prod.exhaust)
  let ?mk = "\<lambda>d. api_image_create api (new_image_request name (go_div bytes mib) owner immutable fs params) (ds_id d)"
  have step: "\<not> stuck res" if cand: "c = Inr ds" and go:
    "provisioned_result n api ''failed to create volume on datastore '' ''failed to wait for volume readiness'' bytes
       (provision ?mk (api_now api) bytes [] [] ds (r1, s1)) = (res, r', s')" for ds
  proof -
    obtain out ids r2 s2 where p: "provision ?mk (api_now api) bytes [] [] ds (r1, s1) = ((out, ids), r2, s2)" by (metis prod.exhaust)
    have "left s2 \<le> left s1" by (rule provision_clock [OF _ p]) (rule api_clockD(4) [OF api])
    then have "left s2 < n" using resolve_provisioning_clock(1) [OF api c] s by linarith
    from provisioned_result_settles [OF api this] show ?thesis using go p by simp
  qed
  show ?thesis
    using run c resolve_provisioning_clock(2) [OF api c] step by (auto simp: create_volume_def split: if_splits sum.splits)
qed

section \<open>Expansion\<close>

named_theorems success

lemma bind_op_Inr [success]: "bind_op m f s = (Inr b, s') \<longleftrightarrow> (\<exists>a s1. m s = (Inr a, s1) \<and> f a s1 = (Inr b, s'))"
  by (auto simp: bind_op_def split: prod.splits sum.splits)

lemma wrap_op_Inr [success]: "wrap_op w m s = (Inr a, s') \<longleftrightarrow> m s = (Inr a, s')"
  by (auto simp: wrap_op_def split: prod.splits sum.splits)

lemma lift_call_Inr [success]: "lift_call c s = (Inr a, s') \<longleftrightarrow> c s = (Inr a, s')"
  by (auto simp: lift_call_def split: prod.splits sum.splits)

lemma ret_Inr [success]: "ret a s = (Inr b, s') \<longleftrightarrow> b = a \<and> s' = s"
  by (auto simp: ret_def)

lemma fail_Inr [success]: "fail e s = (Inr b, s') \<longleftrightarrow> False"
  by (simp add: fail_def)

lemma if_op_Inr [success]: "(if c then m else m') s = (Inr b, s') \<longleftrightarrow> (if c then m s = (Inr b, s') else m' s = (Inr b, s'))"
  by simp

text \<open>The template of an image gives the single value of a key among all its values.\<close>

definition template_coherent :: "image_info \<Rightarrow> bool" where
  "template_coherent im \<longleftrightarrow> (\<forall>k v. im_str im k = Some v \<longrightarrow> v \<in> set (im_strs im k))"

lemma largest_valid_upper:
  assumes "raw \<in> set raws" "atoi (trim_space raw) = Some k" "0 < k" "trim_space raw \<noteq> []"
  shows "int64 (k * scale) \<le> fst (largest_valid scale raws)"
  using assms by (induction raws) (auto simp: Let_def split: prod.splits option.splits)

lemma verified_effective_size:
  assumes verified: "verify_csi_requested_size im bytes mb" and coherent: "template_coherent im" and bytes: "0 < bytes"
  obtains b where "image_effective_size im = Inr b" "bytes \<le> b"
proof -
  obtain raw k where raw: "im_str im ''CSI_REQUESTED_SIZE_BYTES'' = Some raw" "trim_space raw \<noteq> []" "atoi (trim_space raw) = Some k" "bytes \<le> k"
    using verified by (auto simp: verify_csi_requested_size_def at_least_def split: option.splits)
  let ?q = "fst (largest_valid 1 (im_strs im ''CSI_REQUESTED_SIZE_BYTES''))"
  have "int64 (k * 1) \<le> ?q"
    using raw coherent bytes by (intro largest_valid_upper) (auto simp: template_coherent_def)
  then have "k \<le> ?q"
    using atoi_range [OF raw(3)] by simp
  then have q: "csi_requested_size im = Inr ?q" "k \<le> ?q"
    using raw(4) bytes by (simp_all add: csi_requested_size_def case_prod_beta)
  then show thesis using that raw(4) bytes by (auto simp: image_effective_size_def effective_volume_size_def)
qed

lemma resized_wait_enough:
  "wait_for_resource n (resized api vm disk i bytes) tick s = (Inr held, s') \<Longrightarrow> bytes \<le> held"
proof (induction n arbitrary: s)
  case (Suc n)
  obtain stop s1 where 1: "tick s = (stop, s1)" by fastforce
  obtain c s2 where 2: "resized api vm disk i bytes s1 = (c, s2)" by fastforce
  have "bytes \<le> now" if "c = Inr (Some now)" for now
    using 2 that by (auto simp: resized_def success split: if_splits)
  then show ?case using Suc 1 2 by (auto split: bool.splits sum.splits option.splits)
qed simp

lemma resize_disk_enough:
  assumes "resize_disk fuel api vm disk i bytes mb f w s = (Inr held, s')"
  shows "bytes \<le> held"
proof -
  obtain r s1 where 1: "lift_call (api_disk_resize api vm disk mb) s = (r, s1)" by fastforce
  obtain z s2 where 2: "attached_disk_size api vm disk i s1 = (z, s2)" by fastforce
  show ?thesis using assms 1 2
    by (auto simp: resize_disk_def attempt_op_def success dest: resized_wait_enough split: sum.splits if_splits)
qed

lemma persist_verified:
  "persist_requested_size api i bytes mb s = (Inr u, s') \<Longrightarrow>
   \<exists>s0 im. api_image_info api i s0 = (Inr im, s') \<and> verify_csi_requested_size im bytes mb"
  by (auto simp: persist_requested_size_def success split: if_splits)

section \<open>Properties\<close>

text \<open>C18. The operations of the provider return: when every tick uses up some of a bounded clock and
  no API call adds to it, creating, deleting, expanding, attaching and detaching a volume end
  with a result or an error of the code, whatever the API answers.\<close>

theorem provider_operations_return:
  assumes "api_clock left api" "left s < fuel"
  shows "\<not> stuck (fst (create_volume fuel fl api volume bytes owner immutable fs params sel (r, s))) \<and>
    \<not> stuck (fst (delete_volume fuel api volume s)) \<and>
    \<not> stuck (fst (expand_volume fuel api volume bytes allow s)) \<and>
    \<not> stuck (fst (attach_volume fuel ceil policy api volume node immutable disk_params s)) \<and>
    \<not> stuck (fst (detach_volume fuel ceil policy api volume node s))"
  using create_volume_returns [OF assms] settles_fst [OF delete_volume_settles [OF assms(1)] assms(2)]
    settles_fst [OF expand_volume_settles [OF assms(1)] assms(2)] settles_fst [OF attach_volume_settles [OF assms(1)] assms(2)]
    settles_fst [OF detach_volume_settles [OF assms(1)] assms(2)]
  by (metis prod.collapse)

text \<open>C8. Expansions are never silent and never shrink: an expansion that succeeds returns at least
  the requested size, and either the volume had that size already, or the image read last
  carries the requested size, so that the size a later lookup computes from it is at least
  the requested one.\<close>

theorem expand_volume_durable:
  assumes "expand_volume fuel api volume bytes allow s = (Inr n, s')"
    and "\<forall>i s im s'. api_image_info api i s = (Inr im, s') \<longrightarrow> template_coherent im"
  shows "0 < bytes \<and> bytes \<le> n \<and>
    (\<exists>i current s1. volume_exists api volume s = (Inr (i, current), s1) \<and> current \<le> bytes \<and>
      (current = bytes \<or>
       (\<exists>s0 im b. api_image_info api i s0 = (Inr im, s') \<and> image_effective_size im = Inr b \<and> bytes \<le> b)))"
proof -
  obtain i current s1 where v: "0 < bytes" "volume_exists api volume s = (Inr (i, current), s1)" "\<not> bytes < current"
    and rest: "bytes = current \<and> n = current \<or> bytes \<noteq> current \<and>
      bind_op (find_attached_disk api i) (\<lambda>att.
             (case att of
                None \<Rightarrow> fail (ConfigError (if allow then ''expanding detached OpenNebula persistent disks is not supported''
                                           else ''expanding detached OpenNebula persistent disks is disabled''))
              | Some (vm, disk, held) \<Rightarrow>
                  bind_op (if bytes \<le> held then ret held
                           else resize_disk fuel api vm disk i bytes (bytes_to_mib_round_up bytes)
                                  ''failed to expand volume'' ''failed waiting for volume resize to complete'') (\<lambda>held.
                  bind_op (persist_requested_size api i bytes (bytes_to_mib_round_up bytes)) (\<lambda>_.
                    ret (if held = 0 then bytes_to_mib_round_up bytes * mib else held))))) s1 = (Inr n, s')"
    using assms(1) by (auto simp: expand_volume_def success split: if_splits)
  show ?thesis
  proof (cases "bytes = current")
    case True
    then show ?thesis using v rest by auto
  next
    case False
    then obtain vm disk held0 held s2 s3 where
        held: "(if bytes \<le> held0 then ret held0 else resize_disk fuel api vm disk i bytes (bytes_to_mib_round_up bytes)
                 ''failed to expand volume'' ''failed waiting for volume resize to complete'') s2 = (Inr held, s3)"
      and persist: "persist_requested_size api i bytes (bytes_to_mib_round_up bytes) s3 = (Inr (), s')"
      and n: "n = (if held = 0 then bytes_to_mib_round_up bytes * mib else held)"
      using rest by (auto simp: success split: option.splits prod.splits)
    have "bytes \<le> held" using held resize_disk_enough by (auto simp: success split: if_splits)
    moreover obtain s0 im where im: "api_image_info api i s0 = (Inr im, s')" "verify_csi_requested_size im bytes (bytes_to_mib_round_up bytes)"
      using persist_verified [OF persist] by blast
    moreover obtain b where "image_effective_size im = Inr b" "bytes \<le> b"
      using verified_effective_size [OF im(2) _ v(1)] assms(2) im(1) by blast
    ultimately show ?thesis using v n by (auto intro!: exI [of _ s0])
  qed
qed

text \<open>A cloud in which the disk of the volume is larger than the image, and the image remembers
  the requested size once it is updated.\<close>

definition grown_image :: image_info where
  "grown_image = sample_image\<lparr>
     im_strs := (\<lambda>k. if k = ''CSI_REQUESTED_SIZE_BYTES'' then [''3145728''] else if k = ''CSI_REQUESTED_SIZE_MB'' then [''3'']
                else if k = ''CSI_EXPANDED_BY'' then [''csi.opennebula.io''] else if k = ''CSI_EXPANDED_AT'' then [''now''] else []),
     im_str := (\<lambda>k. if k = ''CSI_REQUESTED_SIZE_BYTES'' then Some ''3145728'' else if k = ''CSI_REQUESTED_SIZE_MB'' then Some ''3''
                else if k = ''CSI_EXPANDED_BY'' then Some ''csi.opennebula.io'' else if k = ''CSI_EXPANDED_AT'' then Some ''now'' else None)\<rparr>"

definition growing_api :: "nat one_api" where
  "growing_api = sample_api\<lparr>
     api_image_info := (\<lambda>i s. (Inr (if s = 0 then sample_image else grown_image), s)),
     api_image_update := (\<lambda>i m s. (Inr (), 1)),
     api_vms := (\<lambda>s. (Inr [sample_vm\<lparr>vm_disks := [\<lparr>dk_image = Some 7, dk_id = Some ''1'', dk_target = Some ''sdb'', dk_serial = None,
       dk_size_mb = Some 4\<rparr>]\<rparr>], s))\<rparr>"

theorem expand_volume_durable_witness:
  "\<exists>n s'. expand_volume 9 growing_api ''pvc'' (3 * mib) False 0 = (Inr n, s') \<and> 3 * mib \<le> n"
proof -
  let ?run = "expand_volume 9 growing_api ''pvc'' (3 * mib) False 0"
  have "(case ?run of (Inr _, _) \<Rightarrow> True | _ \<Rightarrow> False)" by code_simp
  then obtain n s' where run: "?run = (Inr n, s')" by (auto split: prod.splits sum.splits)
  have "\<forall>i s im s'. api_image_info growing_api i s = (Inr im, s') \<longrightarrow> template_coherent im"
    by (auto simp: growing_api_def template_coherent_def grown_image_def sample_image_def)
  then show ?thesis using expand_volume_durable [OF run] run by auto
qed

definition sample_policy :: hotplug_policy where
  "sample_policy = \<lparr>hp_base = minute, hp_per_100gib = 0, hp_max = minute, hp_poll = second\<rparr>"

definition ceil_quotient :: "int \<Rightarrow> int \<Rightarrow> int" where "ceil_quotient a b = (a + b - 1) div b"

theorem provider_operations_return_witness:
  "\<not> stuck (fst (detach_volume 6 ceil_quotient sample_policy sample_api ''pvc'' ''n1'' 5)) \<and>
   \<not> stuck (fst (delete_volume 6 sample_api ''pvc'' 5))"
proof -
  have c: "api_clock id sample_api"
    by (simp add: api_clock_def keeps_clock_def clock_bound_def sample_api_def sample_tick_def)
  have l: "id 5 < (6 :: nat)" by simp
  show ?thesis
    using provider_operations_return [OF c l, where ceil = ceil_quotient and policy = sample_policy and volume = "''pvc''" and node = "''n1''"]
    by blast
qed

section \<open>Pages\<close>

text \<open>A client that follows the tokens until there is none.\<close>

fun collect_pages :: "nat \<Rightarrow> 'a list \<Rightarrow> int \<Rightarrow> string \<Rightarrow> (prov_error + 'a list) option" where
  "collect_pages 0 xs m token = None"
| "collect_pages (Suc n) xs m token =
     (case listing_page xs m token of
        Inl e \<Rightarrow> Some (Inl e)
      | Inr (page, next_token) \<Rightarrow>
          if next_token = [] then Some (Inr page)
          else map_option (map_sum id (append page)) (collect_pages n xs m next_token))"

lemma trim_space_nonempty:
  assumes "c \<in> set s" "\<not> is_space c" shows "trim_space s \<noteq> []"
proof
  assume "trim_space s = []"
  then have all: "\<forall>x \<in> set (dropWhile is_space s). is_space x" by (auto simp: trim_space_def dropWhile_eq_Nil_conv)
  have "dropWhile is_space s \<noteq> []" using assms by (auto simp: dropWhile_eq_Nil_conv)
  then show False using all hd_dropWhile [of is_space s] hd_in_set by blast
qed

lemma itoa_trim_nonempty: "trim_space (itoa i) \<noteq> []"
proof (rule trim_space_nonempty)
  show "hd (itoa i) \<in> set (itoa i)" by simp
  then show "\<not> is_space (hd (itoa i))" using itoa_set [of _ i] by (fastforce simp: is_space_def is_digit_def)
qed

text \<open>The page that starts at a position the token stands for.\<close>

lemma listing_page_at:
  assumes "token = itoa (int start) \<or> token = [] \<and> start = 0" "start \<le> length xs" "in_int64 (int (length xs))"
  shows "listing_page xs m token =
    (if 0 < m \<and> int start + m < int (length xs) then Inr (take (nat m) (drop start xs), itoa (int start + m))
     else Inr (drop start xs, []))"
proof -
  have "in_int64 (int start)" using assms(2,3) by (auto simp: in_int64_def)
  then have "atoi (itoa (int start)) = Some (int start)" by (rule atoi_itoa)
  then show ?thesis using assms(1,2) itoa_trim_nonempty [of "int start"] by (auto simp: listing_page_def)
qed

lemma collect_pages_at:
  assumes "token = itoa (int start) \<or> token = [] \<and> start = 0" "start \<le> length xs" "in_int64 (int (length xs))"
    and "length xs - start < n" "0 < m"
  shows "collect_pages n xs m token = Some (Inr (drop start xs))"
  using assms(1,2,4)
proof (induction n arbitrary: start token)
  case (Suc n)
  note page = listing_page_at [OF Suc.prems(1,2) assms(3), of m]
  show ?case
  proof (cases "int start + m < int (length xs)")
    case True
    let ?next = "start + nat m"
    have "itoa (int start + m) = itoa (int ?next)" using assms(5) by simp
    then have "collect_pages n xs m (itoa (int start + m)) = Some (Inr (drop ?next xs))"
      using True Suc.prems(3) assms(5) by (intro Suc.IH) auto
    moreover have "take (nat m) (drop start xs) @ drop ?next xs = drop start xs"
      by (metis add.commute append_take_drop_id drop_drop)
    ultimately show ?thesis using page True assms(5) by simp
  next
    case False
    then show ?thesis using page by simp
  qed
qed simp

text \<open>Paging loses nothing: a client that follows the tokens of the snapshot listing, with any
  positive page size, gets exactly the listing, in order, after at most as many pages as
  there are entries.\<close>

lemma snapshot_pages_complete:
  assumes "0 < m" "in_int64 (int (length xs))" "length xs < n"
  shows "collect_pages n xs m [] = Some (Inr xs)"
  using collect_pages_at [of "[]" 0 xs n m] assms by simp

lemma snapshot_pages_complete_witness:
  "collect_pages 4 (convert_image_snapshots sample_image) 2 [] = Some (Inr (convert_image_snapshots sample_image)) \<and>
   listing_page (convert_image_snapshots sample_image) 2 [] = Inr (take 2 (convert_image_snapshots sample_image), ''2'')"
proof -
  have l: "length (convert_image_snapshots sample_image) = 3" by (simp add: convert_image_snapshots_def sample_image_def)
  then have "listing_page (convert_image_snapshots sample_image) 2 [] = Inr (take 2 (convert_image_snapshots sample_image), itoa 2)"
    by (simp add: listing_page_def)
  moreover have "itoa 2 = ''2''" by code_simp
  ultimately show ?thesis
    using snapshot_pages_complete [of 2 "convert_image_snapshots sample_image" 4] l by (simp add: in_int64_def)
qed

end
