(* ===== verification/Adaptive_Timeout.thy ===== *)
theory Adaptive_Timeout
  imports Go_Prelude
begin

text \<open>
  The adaptive timeout tracker (\<open>opennebula/adaptive_timeout.go\<close>): a bounded window of
  observed durations per key, a recommendation from their 95th percentile, and the keys
  under which the windows are persisted.

  The index of the percentile is computed in \<open>float64\<close> as
  \<open>math.Ceil(float64(n) * 0.95)\<close>; this function is the argument \<open>ceil_percentile\<close>.  The clamps the
  code puts around it are modelled.  Durations are 64-bit integers and the product with
  the multiplier wraps around.
\<close>

record adaptive_config =
  ac_enabled :: bool
  ac_min_samples :: int
  ac_window :: int
  ac_multiplier :: int
  ac_max :: duration

record observation_key =
  ok_operation :: string
  ok_backend :: string
  ok_bucket :: string

type_synonym observation = "duration \<times> go_time"

record tracker =
  tr_config :: adaptive_config
  tr_window :: "observation_key \<Rightarrow> observation list"

record recommendation =
  rc_floor :: duration
  rc_max :: duration
  rc_recommended :: duration
  rc_samples :: nat
  rc_last_at :: go_time

definition new_tracker :: "adaptive_config \<Rightarrow> tracker" where
  "new_tracker cfg =
     (let cfg = (if ac_min_samples cfg \<le> 0 then cfg\<lparr>ac_min_samples := 8\<rparr> else cfg);
          cfg = (if ac_window cfg \<le> 0 then cfg\<lparr>ac_window := 20\<rparr> else cfg);
          cfg = (if ac_multiplier cfg \<le> 0 then cfg\<lparr>ac_multiplier := 400\<rparr> else cfg)
      in \<lparr>tr_config = cfg, tr_window = (\<lambda>_. [])\<rparr>)"

definition gib :: int where "gib = 1024 * 1024 * 1024"

definition size_bucket :: "int \<Rightarrow> string" where
  "size_bucket bytes =
     (if bytes \<le> 20 * gib then ''le20Gi''
      else if bytes \<le> 100 * gib then ''gt20Gi-le100Gi''
      else if bytes \<le> 500 * gib then ''gt100Gi-le500Gi'' else ''gt500Gi'')"

definition normalize_observation_key :: "string \<Rightarrow> string \<Rightarrow> int \<Rightarrow> observation_key" where
  "normalize_observation_key op backend bytes = \<lparr>ok_operation = op, ok_backend = backend, ok_bucket = size_bucket bytes\<rparr>"

definition observe :: "go_time \<Rightarrow> observation_key \<Rightarrow> duration \<Rightarrow> tracker \<Rightarrow> tracker" where
  "observe now key d t =
     (if \<not> ac_enabled (tr_config t) \<or> d \<le> 0 then t
      else (let w = tr_window t key @ [(d, now)];
                n = nat (ac_window (tr_config t));
                w = (if length w > n then drop (length w - n) w else w)
            in t\<lparr>tr_window := (tr_window t)(key := w)\<rparr>))"

definition p95_index :: "(nat \<Rightarrow> int) \<Rightarrow> nat \<Rightarrow> nat" where
  "p95_index ceil_percentile n =
     (let i = ceil_percentile n - 1; i = (if i < 0 then 0 else i); i = (if i \<ge> int n then int n - 1 else i) in nat i)"

definition recommend :: "(nat \<Rightarrow> int) \<Rightarrow> observation_key \<Rightarrow> duration \<Rightarrow> tracker \<Rightarrow> recommendation" where
  "recommend ceil_percentile key static_floor t =
     (let cfg = tr_config t; w = tr_window t key;
          r = \<lparr>rc_floor = static_floor, rc_max = ac_max cfg, rc_recommended = static_floor, rc_samples = 0, rc_last_at = 0\<rparr>
      in if \<not> ac_enabled cfg then r
         else if w = [] then r
         else (let r = r\<lparr>rc_samples := length w, rc_last_at := snd (last w)\<rparr>
               in if int (length w) < ac_min_samples cfg then r
                  else (let p = sort (map fst w) ! p95_index ceil_percentile (length w);
                            x = go_div (int64 (int64 (p * ac_multiplier cfg) + 99)) 100;
                            x = (if x < static_floor then static_floor else x);
                            x = (if ac_max cfg > 0 \<and> x > ac_max cfg then ac_max cfg else x)
                        in r\<lparr>rc_recommended := x\<rparr>)))"

section \<open>Persistence\<close>

definition key_string :: "observation_key \<Rightarrow> string" where
  "key_string k = ok_operation k @ ''|'' @ ok_backend k @ ''|'' @ ok_bucket k"

definition parse_observation_key :: "string \<Rightarrow> observation_key option" where
  "parse_observation_key raw =
     (case split_on (CHR ''|'') raw of
        [a, b, c] \<Rightarrow> Some \<lparr>ok_operation = a, ok_backend = b, ok_bucket = c\<rparr> | _ \<Rightarrow> None)"

text \<open>The payload of the persisted state: the windows under the printed keys.  \<open>keys\<close> lists the
  keys of the map in iteration order.\<close>

definition marshal_windows :: "observation_key list \<Rightarrow> tracker \<Rightarrow> (string \<times> observation list) list" where
  "marshal_windows keys t = map (\<lambda>k. (key_string k, tr_window t k)) keys"

fun unmarshal_entries ::
  "(string \<times> observation list) list \<Rightarrow> (observation_key \<Rightarrow> observation list) \<Rightarrow> (observation_key \<Rightarrow> observation list) option" where
  "unmarshal_entries [] w = Some w"
| "unmarshal_entries ((raw, samples) # es) w =
     (case parse_observation_key raw of None \<Rightarrow> None | Some k \<Rightarrow> unmarshal_entries es (w(k := samples)))"

text \<open>An unreadable key makes the whole load fail and leaves the tracker as it was; the second
  component is whether an error is returned.\<close>

definition unmarshal_windows :: "(string \<times> observation list) list \<Rightarrow> tracker \<Rightarrow> tracker \<times> bool" where
  "unmarshal_windows payload t =
     (case unmarshal_entries payload (\<lambda>_. []) of None \<Rightarrow> (t, True) | Some w \<Rightarrow> (t\<lparr>tr_window := w\<rparr>, False))"

section \<open>Lemmas\<close>

text \<open>Observations in order: the instant, the key and the duration of each.\<close>

definition observe_all :: "(go_time \<times> observation_key \<times> duration) list \<Rightarrow> tracker \<Rightarrow> tracker" where
  "observe_all obs t = foldl (\<lambda>t (now, key, d). observe now key d t) t obs"

definition last_n :: "nat \<Rightarrow> 'a list \<Rightarrow> 'a list" where
  "last_n n xs = drop (length xs - n) xs"

definition accepted :: "observation_key \<Rightarrow> (go_time \<times> observation_key \<times> duration) list \<Rightarrow> observation list" where
  "accepted key obs = map (\<lambda>(now, k, d). (d, now)) (filter (\<lambda>(now, k, d). k = key \<and> 0 < d) obs)"

lemma last_n_snoc: "last_n n (last_n n xs @ [x]) = last_n n (xs @ [x])"
proof (cases "length xs \<le> n")
  case False
  then have "last_n n xs @ [x] = drop (length xs - n) (xs @ [x])" by (simp add: last_n_def)
  then show ?thesis using False by (simp add: last_n_def Suc_diff_le)
qed (simp add: last_n_def)

lemma observe_config [simp]: "tr_config (observe now key d t) = tr_config t"
  by (simp add: observe_def Let_def)

lemma observe_all_config [simp]: "tr_config (observe_all obs t) = tr_config t"
  by (induction obs rule: rev_induct) (auto simp: observe_all_def)

lemma observe_window:
  assumes "ac_enabled (tr_config t)"
  shows "tr_window (observe now key d t) k =
    (if k = key \<and> 0 < d then last_n (nat (ac_window (tr_config t))) (tr_window t key @ [(d, now)]) else tr_window t k)"
  using assms by (auto simp: observe_def Let_def last_n_def)

lemma observe_all_window:
  assumes "ac_enabled (tr_config t)" "\<And>k. tr_window t k = []"
  shows "tr_window (observe_all obs t) key = last_n (nat (ac_window (tr_config t))) (accepted key obs)"
proof (induction obs rule: rev_induct)
  case Nil
  show ?case using assms(2) by (simp add: observe_all_def accepted_def last_n_def)
next
  case (snoc ob obs)
  obtain now k d where ob: "ob = (now, k, d)" by (cases ob) auto
  have "tr_window (observe_all (obs @ [ob]) t) key = tr_window (observe now k d (observe_all obs t)) key"
    by (simp add: observe_all_def ob)
  then show ?case using snoc assms(1) by (auto simp: observe_window last_n_snoc accepted_def ob)
qed

lemma p95_index_less: "0 < n \<Longrightarrow> p95_index ceil_percentile n < n"
  by (auto simp: p95_index_def Let_def)

lemma sorted_nth_count:
  assumes "sorted xs" "i < length xs"
  shows "i < length (filter (\<lambda>x. x \<le> xs ! i) xs)"
proof -
  have "\<forall>x \<in> set (take (Suc i) xs). x \<le> xs ! i"
    using assms by (auto simp: in_set_conv_nth sorted_nth_mono)
  then have "filter (\<lambda>x. x \<le> xs ! i) (take (Suc i) xs) = take (Suc i) xs" by (simp add: filter_id_conv)
  moreover have "length (filter (\<lambda>x. x \<le> xs ! i) xs) =
      length (filter (\<lambda>x. x \<le> xs ! i) (take (Suc i) xs)) + length (filter (\<lambda>x. x \<le> xs ! i) (drop (Suc i) xs))"
    by (metis append_take_drop_id filter_append length_append)
  ultimately show ?thesis using assms(2) by simp
qed

lemma count_sort: "length (filter P (sort xs)) = length (filter P xs)"
  by (metis mset_filter mset_sort size_mset)

lemma recommend_sampled:
  assumes "ac_enabled (tr_config t)" "tr_window t key \<noteq> []" "ac_min_samples (tr_config t) \<le> int (length (tr_window t key))"
  shows "rc_recommended (recommend ceil_percentile key static_floor t) =
    (let p = sort (map fst (tr_window t key)) ! p95_index ceil_percentile (length (tr_window t key));
         x = max static_floor (go_div (int64 (int64 (p * ac_multiplier (tr_config t)) + 99)) 100)
     in if ac_max (tr_config t) > 0 \<and> x > ac_max (tr_config t) then ac_max (tr_config t) else x)"
  using assms by (auto simp: recommend_def Let_def max_def)

lemma rounded_up_product:
  assumes "0 \<le> p" "0 < m" "p * m + 99 < 2 ^ 63"
  shows "p * m \<le> 100 * go_div (int64 (int64 (p * m) + 99)) 100"
proof -
  have "0 \<le> p * m" using assms(1,2) by simp
  then have "int64 (int64 (p * m) + 99) = p * m + 99" using assms(3) by (simp add: in_int64_def)
  then show ?thesis using \<open>0 \<le> p * m\<close> by (simp add: go_div_nonneg)
qed

text \<open>The 95th percentile of a window: with an exact index, 95 percent of the samples are at
  most the sample at that index.\<close>

lemma p95_covers:
  assumes "xs \<noteq> []" "ceil_percentile (length xs) = (19 * int (length xs) + 19) div 20"
  shows "19 * length xs \<le> 20 * length (filter (\<lambda>x. x \<le> sort xs ! p95_index ceil_percentile (length xs)) xs)"
proof -
  let ?n = "length xs" and ?i = "p95_index ceil_percentile (length xs)"
  have i: "?i < length (sort xs)" using p95_index_less [of ?n ceil_percentile] assms(1) by simp
  have "?i < length (filter (\<lambda>x. x \<le> sort xs ! ?i) (sort xs))" by (rule sorted_nth_count [OF _ i]) simp
  then have "?i < length (filter (\<lambda>x. x \<le> sort xs ! ?i) xs)" by (simp only: count_sort)
  moreover have "19 * ?n \<le> 20 * Suc ?i"
    using assms by (simp add: p95_index_def Let_def) linarith
  ultimately show ?thesis by (meson Suc_leI mult_le_mono2 order_trans)
qed

lemma length_filter_conv_le:
  "(\<And>x. P x \<Longrightarrow> Q x) \<Longrightarrow> length (filter P xs) \<le> length (filter Q xs)"
  by (induction xs) auto

lemma scaled_percentile_covers:
  assumes ne: "w \<noteq> []" and exact: "ceil_percentile (length w) = (19 * int (length w) + 19) div 20"
    and pos: "list_all (\<lambda>d. 0 < d) w" and fits: "list_all (\<lambda>d. d * factor + 99 < 2 ^ 63) w" and factor: "0 < factor"
    and r: "go_div (int64 (int64 (sort w ! p95_index ceil_percentile (length w) * factor) + 99)) 100 \<le> r"
  shows "19 * length w \<le> 20 * length (filter (\<lambda>d. d * factor \<le> 100 * r) w)"
proof -
  let ?p = "sort w ! p95_index ceil_percentile (length w)"
  have "?p \<in> set w" using p95_index_less [of "length w" ceil_percentile] ne
    by (metis length_greater_0_conv length_sort nth_mem set_sort)
  then have "?p * factor \<le> 100 * go_div (int64 (int64 (?p * factor) + 99)) 100"
    using pos fits factor by (intro rounded_up_product) (auto simp: list_all_iff)
  then have top: "?p * factor \<le> 100 * r" using r by linarith
  have "d * factor \<le> 100 * r" if "d \<le> ?p" for d
    using mult_right_mono [OF that, of factor] top factor by linarith
  then have "length (filter (\<lambda>d. d \<le> ?p) w) \<le> length (filter (\<lambda>d. d * factor \<le> 100 * r) w)"
    by (intro length_filter_conv_le)
  then show ?thesis using p95_covers [of w ceil_percentile, OF ne exact] by linarith
qed

section \<open>Properties\<close>

text \<open>C33. Adaptive timeouts: after any observations the window of a key holds the last
  positive durations observed for it, as many as configured.  With too few samples the
  recommendation is the static floor; otherwise it is never above a positive maximum and
  never below the floor, unless the maximum itself is, even when the product of duration
  and multiplier overflows.  Without overflow and below the maximum it covers, scaled by
  the multiplier, at least 95 percent of the window.\<close>

theorem adaptive_timeout_bounds:
  assumes "ac_enabled cfg" and t: "t = observe_all obs (new_tracker cfg)"
    and w: "w = map fst (tr_window t key)"
    and r: "r = rc_recommended (recommend ceil_percentile key static_floor t)"
    and m: "m = ac_max cfg" and factor: "factor = ac_multiplier (tr_config t)"
  shows "tr_window t key = last_n (nat (ac_window (tr_config t))) (accepted key obs) \<and>
    (int (length w) < ac_min_samples (tr_config t) \<longrightarrow> r = static_floor) \<and>
    (int (length w) \<ge> ac_min_samples (tr_config t) \<longrightarrow>
       (0 < m \<longrightarrow> r \<le> m) \<and> (static_floor \<le> r \<or> 0 < m \<and> m < static_floor \<and> r = m) \<and>
       (ceil_percentile (length w) = (19 * int (length w) + 19) div 20 \<and> list_all (\<lambda>d. d * factor + 99 < 2 ^ 63) w \<and> (0 < m \<longrightarrow> r < m) \<longrightarrow>
          19 * length w \<le> 20 * length (filter (\<lambda>d. d * factor \<le> 100 * r) w)))"
proof -
  have cfg: "ac_enabled (tr_config (new_tracker cfg))" "ac_max (tr_config (new_tracker cfg)) = m"
      "0 < ac_min_samples (tr_config (new_tracker cfg))" "0 < ac_multiplier (tr_config (new_tracker cfg))"
      "\<And>k. tr_window (new_tracker cfg) k = []" "tr_config t = tr_config (new_tracker cfg)"
    using assms(1) by (auto simp: new_tracker_def Let_def m t)
  have window: "tr_window t key = last_n (nat (ac_window (tr_config t))) (accepted key obs)"
    unfolding t using observe_all_window [of "new_tracker cfg" obs key] cfg by simp
  have pos: "list_all (\<lambda>d. 0 < d) w"
    unfolding w window by (auto simp: list_all_iff last_n_def accepted_def dest!: in_set_dropD)
  have few: "r = static_floor" if "int (length w) < ac_min_samples (tr_config t)"
    using that cfg unfolding r w by (auto simp: recommend_def Let_def)
  have many: "(0 < m \<longrightarrow> r \<le> m) \<and> (static_floor \<le> r \<or> 0 < m \<and> m < static_floor \<and> r = m) \<and>
       (ceil_percentile (length w) = (19 * int (length w) + 19) div 20 \<and> list_all (\<lambda>d. d * factor + 99 < 2 ^ 63) w \<and> (0 < m \<longrightarrow> r < m) \<longrightarrow>
          19 * length w \<le> 20 * length (filter (\<lambda>d. d * factor \<le> 100 * r) w))"
    if enough: "int (length w) \<ge> ac_min_samples (tr_config t)"
  proof -
    have ne: "w \<noteq> []" using enough cfg by auto
    define p where "p = sort w ! p95_index ceil_percentile (length w)"
    define x where "x = go_div (int64 (int64 (p * factor) + 99)) 100"
    have rx: "r = (if m > 0 \<and> max static_floor x > m then m else max static_floor x)"
      unfolding r p_def x_def w m factor using recommend_sampled [of t key ceil_percentile static_floor] enough ne cfg
      by (simp add: Let_def w m)
    have "19 * length w \<le> 20 * length (filter (\<lambda>d. d * factor \<le> 100 * r) w)"
      if exact: "ceil_percentile (length w) = (19 * int (length w) + 19) div 20" and fits: "list_all (\<lambda>d. d * factor + 99 < 2 ^ 63) w"
        and below: "0 < m \<longrightarrow> r < m"
      by (rule scaled_percentile_covers [of w ceil_percentile factor r, OF ne exact pos fits]) (use cfg(4,6) factor rx below in \<open>auto simp: x_def p_def\<close>)
    then show ?thesis unfolding rx by (auto simp: max_def)
  qed
  show ?thesis using window few many by blast
qed

definition sample_adaptive :: adaptive_config where
  "sample_adaptive = \<lparr>ac_enabled = True, ac_min_samples = 2, ac_window = 3, ac_multiplier = 150, ac_max = 900\<rparr>"

definition sample_key :: observation_key where
  "sample_key = normalize_observation_key ''attach'' ''ceph'' (30 * gib)"

theorem adaptive_timeout_bounds_witness:
  "tr_window (observe_all [(1, sample_key, 5), (2, sample_key, 400), (3, sample_key, 300), (4, sample_key, 200)] (new_tracker sample_adaptive)) sample_key =
     [(400, 2), (300, 3), (200, 4)] \<and>
   rc_recommended (recommend (\<lambda>n. (19 * int n + 19) div 20) sample_key 100
     (observe_all [(1, sample_key, 5), (2, sample_key, 400), (3, sample_key, 300), (4, sample_key, 200)] (new_tracker sample_adaptive))) \<le> 900"
proof -
  let ?obs = "[(1, sample_key, 5), (2, sample_key, 400), (3, sample_key, 300), (4, sample_key, 200)]"
  have "ac_enabled sample_adaptive" "ac_max sample_adaptive = 900" by (simp_all add: sample_adaptive_def)
  moreover have "tr_config (observe_all ?obs (new_tracker sample_adaptive)) = sample_adaptive"
    by (simp add: new_tracker_def sample_adaptive_def Let_def)
  moreover have "last_n 3 (accepted sample_key ?obs) = [(400, 2), (300, 3), (200, 4)]"
    by (simp add: accepted_def last_n_def numeral_eq_Suc)
  ultimately show ?thesis
    using adaptive_timeout_bounds [where cfg = sample_adaptive and obs = ?obs and key = sample_key and static_floor = 100
        and ceil_percentile = "\<lambda>n. (19 * int n + 19) div 20", OF _ refl refl refl refl refl]
    by (simp add: sample_adaptive_def)
qed

text \<open>Persisted windows round trip: if no key part contains the separator, reading back
  what was written for distinct keys restores exactly their windows.\<close>

lemma adaptive_state_roundtrip:
  assumes "distinct keys"
    and "list_all (\<lambda>k. CHR ''|'' \<notin> set (ok_operation k) \<union> set (ok_backend k) \<union> set (ok_bucket k)) keys"
  shows "unmarshal_windows (marshal_windows keys t) t0 = (t0\<lparr>tr_window := (\<lambda>k. if k \<in> set keys then tr_window t k else [])\<rparr>, False)"
proof -
  have parse: "parse_observation_key (key_string k) = Some k" if "k \<in> set keys" for k
  proof -
    have "key_string k = join_with [CHR ''|''] [ok_operation k, ok_backend k, ok_bucket k]" by (simp add: key_string_def)
    then have "split_on (CHR ''|'') (key_string k) = [ok_operation k, ok_backend k, ok_bucket k]"
      using assms(2) that by (simp only:) (rule split_on_join, auto simp: list_all_iff)
    then show ?thesis by (simp add: parse_observation_key_def)
  qed
  have "unmarshal_entries (marshal_windows ks t) w0 = Some (\<lambda>k. if k \<in> set ks then tr_window t k else w0 k)"
    if "set ks \<subseteq> set keys" "distinct ks" for ks w0
    using that
  proof (induction ks arbitrary: w0)
    case (Cons k ks)
    then show ?case using parse [of k] by (auto simp: marshal_windows_def)
  qed (simp add: marshal_windows_def)
  from this [OF subset_refl assms(1)] show ?thesis by (simp add: unmarshal_windows_def)
qed

lemma adaptive_state_roundtrip_witness:
  "unmarshal_windows (marshal_windows [sample_key] (observe 7 sample_key 40 (new_tracker sample_adaptive))) (new_tracker sample_adaptive) =
     ((new_tracker sample_adaptive)\<lparr>tr_window :=
        (\<lambda>k. if k \<in> set [sample_key] then tr_window (observe 7 sample_key 40 (new_tracker sample_adaptive)) k else [])\<rparr>, False)"
  by (rule adaptive_state_roundtrip) (simp_all add: sample_key_def normalize_observation_key_def size_bucket_def gib_def)

end
