(* ===== verification/Hotplug_Guard.thy ===== *)
theory Hotplug_Guard
  imports Go_Prelude
begin

text \<open>
  The hotplug guard: cooldown and pause states per node
  (\<open>driver/hotplug_guard.go\<close>), their persistence and reload
  (\<open>loadHotplugGuardState\<close> of \<open>driver/driver.go\<close>), and the readiness gates of
  the controller that create and clear them (\<open>driver/controllerserver.go\<close>).

  The clock is an argument.  What the Kubernetes API, the OpenNebula API and the
  node's diagnosis resource answer are arguments too.  Writes to the state
  ConfigMap are returned as a list of actions; JSON decoding is an argument.
\<close>

section \<open>State\<close>

record cooldown_state =
  cs_node :: string
  cs_operation :: string
  cs_volume :: string
  cs_expires_at :: go_time
  cs_timeout :: duration
  cs_last_ready :: bool
  cs_last_attached :: bool
  cs_failure_count :: int
  cs_reason :: string
  cs_pause_until_ready :: bool
  cs_kubernetes_ready :: bool
  cs_opennebula_ready :: bool
  cs_unschedulable :: bool
  cs_first_failure_at :: go_time
  cs_last_failure_at :: go_time

definition zero_cooldown :: cooldown_state where
  "zero_cooldown = \<lparr>cs_node = [], cs_operation = [], cs_volume = [], cs_expires_at = 0, cs_timeout = 0,
     cs_last_ready = False, cs_last_attached = False, cs_failure_count = 0, cs_reason = [],
     cs_pause_until_ready = False, cs_kubernetes_ready = False, cs_opennebula_ready = False,
     cs_unschedulable = False, cs_first_failure_at = 0, cs_last_failure_at = 0\<rparr>"

record hotplug_guard =
  hg_cooldown :: duration
  hg_states :: "string \<Rightarrow> cooldown_state option"

definition new_hotplug_guard :: "duration \<Rightarrow> hotplug_guard" where
  "new_hotplug_guard d = \<lparr>hg_cooldown = d, hg_states = Map.empty\<rparr>"

definition set_guard_state :: "string \<Rightarrow> cooldown_state \<Rightarrow> hotplug_guard \<Rightarrow> hotplug_guard" where
  "set_guard_state node st g = g\<lparr>hg_states := (hg_states g)(node \<mapsto> st)\<rparr>"

definition guard_clear :: "string \<Rightarrow> hotplug_guard \<Rightarrow> hotplug_guard" where
  "guard_clear node g = g\<lparr>hg_states := (hg_states g)(node := None)\<rparr>"

text \<open>A state whose deadline has passed: \<open>!IsZero \<and> now.After\<close>.\<close>

definition deadline_passed :: "go_time \<Rightarrow> cooldown_state \<Rightarrow> bool" where
  "deadline_passed now st \<longleftrightarrow> \<not> is_zero (cs_expires_at st) \<and> cs_expires_at st < now"

definition mark_cooldown ::
  "go_time \<Rightarrow> string \<Rightarrow> string \<Rightarrow> string \<Rightarrow> duration \<Rightarrow> bool \<Rightarrow> bool \<Rightarrow> hotplug_guard \<Rightarrow>
   cooldown_state \<times> hotplug_guard" where
  "mark_cooldown now node op vol timeout attached ready g =
     (let st = zero_cooldown\<lparr>cs_node := node, cs_operation := op, cs_volume := vol,
           cs_expires_at := now + hg_cooldown g, cs_timeout := timeout, cs_last_attached := attached,
           cs_last_ready := ready, cs_opennebula_ready := ready, cs_reason := ''timeout_exhausted'',
           cs_first_failure_at := now, cs_last_failure_at := now\<rparr>
      in (st, set_guard_state node st g))"

definition mark_unhealthy_failure ::
  "go_time \<Rightarrow> string \<Rightarrow> string \<Rightarrow> string \<Rightarrow> duration \<Rightarrow> bool \<Rightarrow> bool \<Rightarrow> bool \<Rightarrow> bool \<Rightarrow> int \<Rightarrow> string \<Rightarrow>
   hotplug_guard \<Rightarrow> cooldown_state \<times> bool \<times> hotplug_guard" where
  "mark_unhealthy_failure now node op vol timeout attached one_ready kube_ready unsched threshold reason g =
     (let threshold = (if threshold \<le> 0 then 1 else threshold);
          st = (case hg_states g node of Some st \<Rightarrow> st | None \<Rightarrow> zero_cooldown);
          st = (if cs_node st = [] \<or> (\<not> cs_pause_until_ready st \<and> deadline_passed now st)
                then zero_cooldown\<lparr>cs_node := node, cs_first_failure_at := now\<rparr> else st);
          st = (if is_zero (cs_first_failure_at st) then st\<lparr>cs_first_failure_at := now\<rparr> else st);
          count = cs_failure_count st + 1;
          paused = (count \<ge> threshold);
          st = st\<lparr>cs_operation := op, cs_volume := vol, cs_timeout := timeout, cs_last_attached := attached,
             cs_last_ready := one_ready, cs_kubernetes_ready := kube_ready, cs_opennebula_ready := one_ready,
             cs_unschedulable := unsched, cs_last_failure_at := now, cs_failure_count := count,
             cs_reason := reason, cs_pause_until_ready := paused,
             cs_expires_at := (if paused then 0 else now + hg_cooldown g)\<rparr>
      in (st, paused, set_guard_state node st g))"

definition mark_paused :: "go_time \<Rightarrow> cooldown_state \<Rightarrow> hotplug_guard \<Rightarrow> cooldown_state \<times> hotplug_guard" where
  "mark_paused now st g =
     (if cs_node st = [] then (st, g)
      else (let st = (if is_zero (cs_first_failure_at st) then st\<lparr>cs_first_failure_at := now\<rparr> else st);
                st = (if is_zero (cs_last_failure_at st) then st\<lparr>cs_last_failure_at := now\<rparr> else st);
                st = (if cs_failure_count st \<le> 0 then st\<lparr>cs_failure_count := 1\<rparr> else st);
                st = st\<lparr>cs_pause_until_ready := True, cs_expires_at := 0\<rparr>
            in (st, set_guard_state (cs_node st) st g)))"

definition guard_load_one :: "go_time \<Rightarrow> hotplug_guard \<Rightarrow> string \<times> cooldown_state \<Rightarrow> hotplug_guard" where
  "guard_load_one now g entry =
     (let (node, st) = entry; node = (if node = [] then cs_node st else node)
      in if node = [] then g
         else if \<not> cs_pause_until_ready st \<and> deadline_passed now st then g
         else set_guard_state node (st\<lparr>cs_node := node\<rparr>) g)"

definition guard_load :: "go_time \<Rightarrow> (string \<times> cooldown_state) list \<Rightarrow> hotplug_guard \<Rightarrow> hotplug_guard" where
  "guard_load now entries g = foldl (guard_load_one now) g entries"

definition guard_get :: "go_time \<Rightarrow> string \<Rightarrow> hotplug_guard \<Rightarrow> cooldown_state option \<times> hotplug_guard" where
  "guard_get now node g =
     (case hg_states g node of
        None \<Rightarrow> (None, g)
      | Some st \<Rightarrow>
          if cs_pause_until_ready st then (Some st, g)
          else if cs_failure_count st > 0 then
            (None, if deadline_passed now st then guard_clear node g else g)
          else if is_zero (cs_expires_at st) \<or> cs_expires_at st < now then (None, guard_clear node g)
          else (Some st, g))"

section \<open>Reload after a restart\<close>

definition maintenance_keys :: "string list" where
  "maintenance_keys = [''maintainenceMode'', ''maintenanceMode'', ''maintainenceReady'', ''maintenanceReady'']"

definition is_maintenance_key :: "string \<Rightarrow> bool" where
  "is_maintenance_key key \<longleftrightarrow> trim_space key \<in> set maintenance_keys"

text \<open>One entry of the ConfigMap: kept, expired (its key is deleted), or skipped.\<close>

datatype load_decision = KeepState cooldown_state | ExpiredState | SkipState

definition load_entry ::
  "(string \<Rightarrow> cooldown_state option) \<Rightarrow> go_time \<Rightarrow> string \<times> string \<Rightarrow> load_decision" where
  "load_entry decode now entry =
     (let (node, raw) = entry
      in if is_maintenance_key node then SkipState
         else (case decode raw of
                 None \<Rightarrow> SkipState
               | Some st \<Rightarrow>
                   if \<not> cs_pause_until_ready st \<and> deadline_passed now st then ExpiredState
                   else KeepState (if cs_node st = [] then st\<lparr>cs_node := node\<rparr> else st)))"

text \<open>The driver reads the ConfigMap once: the reply is an argument, the result is the
  guard, the keys it garbage-collects and whether it returned the read error.\<close>

definition load_hotplug_guard_state ::
  "(string \<Rightarrow> cooldown_state option) \<Rightarrow> go_time \<Rightarrow> (string \<times> string) list kube_reply \<Rightarrow> hotplug_guard \<Rightarrow>
   hotplug_guard \<times> string list \<times> bool" where
  "load_hotplug_guard_state decode now reply g =
     (case reply of
        KubeNotFound \<Rightarrow> (g, [], False)
      | KubeError \<Rightarrow> (g, [], True)
      | KubeOk data \<Rightarrow>
          (let states = concat (map (\<lambda>e. case load_entry decode now e of
                           KeepState st \<Rightarrow> [(fst e, st)] | _ \<Rightarrow> []) data);
               expired = map fst (filter (\<lambda>e. load_entry decode now e = ExpiredState) data)
           in ((if states = [] then g else guard_load now states g), expired, False)))"

section \<open>Readiness gates\<close>

record guard_policy =
  gp_enabled :: bool
  gp_threshold :: int
  gp_require_kube :: bool
  gp_require_one :: bool
  gp_unschedulable :: bool

text \<open>The policy from the plugin configuration; an option is \<open>None\<close> when the value is
  not set, and \<open>maintenance\<close> is whether maintenance mode is active.\<close>

definition load_guard_policy ::
  "bool option \<Rightarrow> int option \<Rightarrow> bool option \<Rightarrow> bool option \<Rightarrow> bool \<Rightarrow> guard_policy" where
  "load_guard_policy enabled threshold kube one maintenance =
     \<lparr>gp_enabled = (case enabled of None \<Rightarrow> True | Some b \<Rightarrow> b),
      gp_threshold = (case threshold of None \<Rightarrow> 2 | Some t \<Rightarrow> if t \<le> 0 then 2 else t),
      gp_require_kube = (case kube of None \<Rightarrow> True | Some b \<Rightarrow> b),
      gp_require_one = (case one of None \<Rightarrow> True | Some b \<Rightarrow> b),
      gp_unschedulable = maintenance\<rparr>"

record node_health =
  nh_kube_ready :: bool
  nh_kube_known :: bool
  nh_one_ready :: bool
  nh_one_known :: bool
  nh_unschedulable :: bool
  nh_kube_err :: bool
  nh_one_err :: bool

text \<open>\<open>nodeHotplugHealth\<close>.  \<open>kube\<close> is the answer of \<open>NodeHealth\<close> (ready,
  unschedulable) or \<open>None\<close> for an error, \<open>one\<close> the answer of \<open>NodeReady\<close>.\<close>

definition node_hotplug_health ::
  "guard_policy \<Rightarrow> bool \<Rightarrow> (bool \<times> bool) option \<Rightarrow> bool option \<Rightarrow> bool \<Rightarrow> node_health" where
  "node_hotplug_health p kube_enabled kube one fallback =
     (let h = \<lparr>nh_kube_ready = (\<not> gp_require_kube p), nh_kube_known = False,
               nh_one_ready = (fallback \<or> \<not> gp_require_one p), nh_one_known = False,
               nh_unschedulable = False, nh_kube_err = False, nh_one_err = False\<rparr>;
          h = (if gp_require_kube p \<and> kube_enabled then
                 (case kube of None \<Rightarrow> h\<lparr>nh_kube_err := True\<rparr>
                  | Some (ready, unsched) \<Rightarrow>
                      h\<lparr>nh_kube_ready := ready, nh_unschedulable := unsched, nh_kube_known := True\<rparr>)
               else h)
      in if gp_require_one p then
           (case one of None \<Rightarrow> h\<lparr>nh_one_err := True\<rparr>
            | Some ready \<Rightarrow> h\<lparr>nh_one_ready := ready, nh_one_known := True\<rparr>)
         else h)"

definition readiness_gates :: "guard_policy \<Rightarrow> node_health \<Rightarrow> bool" where
  "readiness_gates p h \<longleftrightarrow>
     (\<not> gp_require_kube p \<or> nh_kube_ready h) \<and> (\<not> gp_require_one p \<or> nh_one_ready h) \<and>
     (\<not> gp_unschedulable p \<or> \<not> nh_unschedulable h)"

definition hotplug_guard_state_cleared :: "guard_policy \<Rightarrow> go_time \<Rightarrow> cooldown_state \<Rightarrow> node_health \<Rightarrow> bool" where
  "hotplug_guard_state_cleared p now st h =
     (if cs_pause_until_ready st then readiness_gates p h
      else if deadline_passed now st then True else nh_one_ready h)"

definition hotplug_node_unhealthy :: "guard_policy \<Rightarrow> node_health \<Rightarrow> bool" where
  "hotplug_node_unhealthy p h \<longleftrightarrow>
     (gp_require_kube p \<and> nh_kube_known h \<and> \<not> nh_kube_ready h) \<or>
     (gp_require_one p \<and> \<not> nh_one_ready h) \<or> (gp_unschedulable p \<and> nh_unschedulable h)"

definition hotplug_unhealthy_reason :: "guard_policy \<Rightarrow> node_health \<Rightarrow> string" where
  "hotplug_unhealthy_reason p h =
     (let reasons =
        (if gp_require_kube p \<and> nh_kube_known h \<and> \<not> nh_kube_ready h then [''kubernetes_node_not_ready''] else []) @
        (if gp_require_one p \<and> \<not> nh_one_ready h then [''opennebula_vm_not_running''] else []) @
        (if gp_unschedulable p \<and> nh_unschedulable h then [''kubernetes_node_unschedulable''] else [])
      in if reasons = [] then ''node_unhealthy'' else join_with '','' reasons)"

section \<open>The controller's use of the guard\<close>

datatype snapshot_action = PersistState cooldown_state | DeleteState string

text \<open>The diagnosis in the node's \<open>OpenNebulaNode\<close> resource, as far as the guard
  reads it.\<close>

record node_diagnosis =
  nd_classification :: string
  nd_display_state :: string
  nd_operation :: string
  nd_volume :: string
  nd_attach_flag :: string
  nd_first_observed :: "go_time option"
  nd_last_observed :: "go_time option"

definition opennebula_pause_state ::
  "node_diagnosis option \<Rightarrow> node_health \<Rightarrow> duration \<Rightarrow> go_time \<Rightarrow> string \<Rightarrow> cooldown_state option" where
  "opennebula_pause_state diag h stuck_after now node =
     (if trim_space node = [] then None
      else (case diag of
              None \<Rightarrow> None
            | Some d \<Rightarrow>
                if \<not> equal_fold (trim_space (nd_classification d)) ''Stuck'' \<and>
                   \<not> equal_fold (trim_space (nd_display_state d)) ''HotplugStuck'' then None
                else Some (zero_cooldown\<lparr>cs_node := node,
                  cs_operation := (if trim_space (nd_operation d) = [] then ''hotplug'' else trim_space (nd_operation d)),
                  cs_volume := (if trim_space (nd_volume d) = [] then ''unknown'' else trim_space (nd_volume d)),
                  cs_timeout := stuck_after,
                  cs_last_attached := equal_fold (trim_space (nd_attach_flag d)) ''YES'',
                  cs_failure_count := 1, cs_reason := ''opennebula_hotplug_stuck'', cs_pause_until_ready := True,
                  cs_kubernetes_ready := nh_kube_ready h, cs_unschedulable := nh_unschedulable h,
                  cs_first_failure_at := (case nd_first_observed d of Some t \<Rightarrow> t | None \<Rightarrow> now),
                  cs_last_failure_at := (case nd_last_observed d of Some t \<Rightarrow> t | None \<Rightarrow> now)\<rparr>)))"

text \<open>\<open>hotplugCooldownState\<close>: the state that blocks an operation on the node, if any.
  \<open>health\<close> gives the node's health for a fallback readiness.\<close>

definition hotplug_cooldown_state ::
  "guard_policy \<Rightarrow> go_time \<Rightarrow> cooldown_state option \<Rightarrow> (bool \<Rightarrow> node_health) \<Rightarrow> string \<Rightarrow> hotplug_guard \<Rightarrow>
   cooldown_state option \<times> hotplug_guard \<times> snapshot_action list" where
  "hotplug_cooldown_state p now pause health node g =
     (if \<not> gp_enabled p then (None, g, [])
      else (case pause of
              Some st \<Rightarrow> (let (st', g') = mark_paused now st g in (Some st', g', [PersistState st']))
            | None \<Rightarrow>
                (case guard_get now node g of
                   (None, g') \<Rightarrow> (None, g', [])
                 | (Some st, g') \<Rightarrow>
                     (let h = health (cs_last_ready st)
                      in if hotplug_guard_state_cleared p now st h
                         then (None, guard_clear node g', [DeleteState node])
                         else (Some (st\<lparr>cs_kubernetes_ready := nh_kube_ready h, cs_opennebula_ready := nh_one_ready h,
                                        cs_unschedulable := nh_unschedulable h\<rparr>), g', [])))))"

text \<open>\<open>handleHotplugTimeout\<close> for an error that is a hotplug timeout: its effect on the
  guard.\<close>

record timeout_error =
  te_timeout :: duration
  te_last_attached :: bool
  te_last_ready :: bool

definition handle_hotplug_timeout ::
  "guard_policy \<Rightarrow> go_time \<Rightarrow> (bool \<Rightarrow> node_health) \<Rightarrow> string \<Rightarrow> string \<Rightarrow> string \<Rightarrow> timeout_error option \<Rightarrow>
   hotplug_guard \<Rightarrow> hotplug_guard \<times> snapshot_action list" where
  "handle_hotplug_timeout p now health node volume operation err g =
     (case err of
        None \<Rightarrow> (g, [])
      | Some e \<Rightarrow>
          if \<not> gp_enabled p then (g, [])
          else (let h = health (te_last_ready e)
                in if \<not> hotplug_node_unhealthy p h then (g, [])
                   else (let (st, paused, g') = mark_unhealthy_failure now node operation volume (te_timeout e)
                               (te_last_attached e) (nh_one_ready h) (nh_kube_ready h) (nh_unschedulable h)
                               (gp_threshold p) (hotplug_unhealthy_reason p h) g
                         in (g', [PersistState st]))))"

definition clear_hotplug_guard_state :: "string \<Rightarrow> hotplug_guard \<Rightarrow> hotplug_guard \<times> snapshot_action list" where
  "clear_hotplug_guard_state node g =
     (if trim_space node = [] then (g, [])
      else (case hg_states g node of
              Some st \<Rightarrow> if cs_pause_until_ready st then (g, []) else (guard_clear node g, [DeleteState node])
            | None \<Rightarrow> (guard_clear node g, [DeleteState node])))"

text \<open>\<open>reconcileHotplugGuardCleanup\<close> over the entries of a snapshot of the guard.\<close>

definition cleanup_one ::
  "guard_policy \<Rightarrow> go_time \<Rightarrow> (string \<Rightarrow> bool \<Rightarrow> node_health) \<Rightarrow> hotplug_guard \<times> snapshot_action list \<Rightarrow>
   string \<times> cooldown_state \<Rightarrow> hotplug_guard \<times> snapshot_action list" where
  "cleanup_one p now health acc entry =
     (let (g, acts) = acc; (key, st) = entry; node = trim_space key
      in if node = [] then (g, acts)
         else (let h = health node (cs_last_ready st)
               in if nh_kube_err h \<or> nh_one_err h then (g, acts)
                  else if hotplug_guard_state_cleared p now st h then (guard_clear node g, acts @ [DeleteState node])
                  else (g, acts @ [PersistState (st\<lparr>cs_kubernetes_ready := nh_kube_ready h,
                          cs_opennebula_ready := nh_one_ready h, cs_unschedulable := nh_unschedulable h\<rparr>)])))"

definition reconcile_hotplug_guard_cleanup ::
  "guard_policy \<Rightarrow> bool \<Rightarrow> go_time \<Rightarrow> (string \<Rightarrow> bool \<Rightarrow> node_health) \<Rightarrow> (string \<times> cooldown_state) list \<Rightarrow>
   hotplug_guard \<Rightarrow> hotplug_guard \<times> snapshot_action list" where
  "reconcile_hotplug_guard_cleanup p leader now health entries g =
     (if \<not> gp_enabled p \<or> \<not> leader then (g, [])
      else foldl (cleanup_one p now health) (g, []) entries)"

section \<open>Lemmas\<close>

lemmas guard_defs = mark_unhealthy_failure_def set_guard_state_def guard_clear_def Let_def

lemma guard_states_set [simp]:
  "hg_states (set_guard_state n st g) k = (if k = n then Some st else hg_states g k)"
  "hg_cooldown (set_guard_state n st g) = hg_cooldown g"
  by (simp_all add: set_guard_state_def)

lemma guard_states_clear [simp]:
  "hg_states (guard_clear n g) k = (if k = n then None else hg_states g k)"
  "hg_cooldown (guard_clear n g) = hg_cooldown g"
  by (simp_all add: guard_clear_def)

text \<open>A run of timeouts on one node: instant, operation and volume, what was observed
  and the reason.\<close>

record failure =
  f_now :: go_time
  f_operation :: string
  f_volume :: string
  f_error :: timeout_error
  f_health :: node_health
  f_reason :: string

definition mark_failure :: "string \<Rightarrow> int \<Rightarrow> hotplug_guard \<Rightarrow> failure \<Rightarrow> hotplug_guard" where
  "mark_failure node threshold g f =
     snd (snd (mark_unhealthy_failure (f_now f) node (f_operation f) (f_volume f) (te_timeout (f_error f))
       (te_last_attached (f_error f)) (nh_one_ready (f_health f)) (nh_kube_ready (f_health f))
       (nh_unschedulable (f_health f)) threshold (f_reason f) g))"

text \<open>Failures that follow each other within the cooldown.\<close>

fun failure_chain :: "duration \<Rightarrow> failure list \<Rightarrow> bool" where
  "failure_chain d [] = True"
| "failure_chain d [f] = (0 < f_now f)"
| "failure_chain d (f # f' # fs) = (0 < f_now f \<and> f_now f' \<le> f_now f + d \<and> failure_chain d (f' # fs))"

lemma failure_chain_snoc:
  "failure_chain d (fs @ [f, f']) \<longleftrightarrow> failure_chain d (fs @ [f]) \<and> f_now f' \<le> f_now f + d \<and> 0 < f_now f'"
  by (induction d fs rule: failure_chain.induct) auto

definition guard_counts :: "string \<Rightarrow> int \<Rightarrow> failure list \<Rightarrow> hotplug_guard \<Rightarrow> bool" where
  "guard_counts node threshold fs g \<longleftrightarrow>
     (\<exists>st. hg_states g node = Some st \<and> cs_node st = node \<and> cs_failure_count st = int (length fs) \<and>
        cs_pause_until_ready st = (threshold \<le> int (length fs)) \<and>
        cs_first_failure_at st = f_now (hd fs) \<and> cs_last_failure_at st = f_now (last fs) \<and>
        cs_expires_at st = (if threshold \<le> int (length fs) then 0 else f_now (last fs) + hg_cooldown g))"

lemma mark_failure_cooldown [simp]: "hg_cooldown (mark_failure node threshold g f) = hg_cooldown g"
  by (simp add: mark_failure_def mark_unhealthy_failure_def Let_def)

lemma mark_failure_continues:
  assumes "hg_states g node = Some st" "cs_node st \<noteq> []" "cs_pause_until_ready st \<or> \<not> deadline_passed (f_now f) st"
    and "\<not> is_zero (cs_first_failure_at st)" "0 < threshold"
  shows "\<exists>st'. hg_states (mark_failure node threshold g f) node = Some st' \<and> cs_node st' = cs_node st \<and>
     cs_failure_count st' = cs_failure_count st + 1 \<and>
     cs_pause_until_ready st' = (threshold \<le> cs_failure_count st + 1) \<and>
     cs_first_failure_at st' = cs_first_failure_at st \<and> cs_last_failure_at st' = f_now f \<and>
     cs_expires_at st' = (if threshold \<le> cs_failure_count st + 1 then 0 else f_now f + hg_cooldown g)"
proof -
  have "(cs_node st = [] \<or> (\<not> cs_pause_until_ready st \<and> deadline_passed (f_now f) st)) = False"
    using assms(2,3) by blast
  moreover have "(threshold \<le> 0) = False" using assms(5) by simp
  moreover have "is_zero (cs_first_failure_at st) = False" using assms(4) by simp
  ultimately show ?thesis
    unfolding mark_failure_def mark_unhealthy_failure_def Let_def assms(1) by (simp only: if_False option.case) simp
qed

lemma guard_counts_step:
  assumes "guard_counts node threshold fs g" "f_now f \<le> f_now (last fs) + hg_cooldown g" "fs \<noteq> []"
    and "0 < f_now (hd fs)" "node \<noteq> []" "0 < threshold"
  shows "guard_counts node threshold (fs @ [f]) (mark_failure node threshold g f)"
proof -
  from assms(1) obtain st where st: "hg_states g node = Some st" "cs_node st = node"
      "cs_failure_count st = int (length fs)" "cs_pause_until_ready st = (threshold \<le> int (length fs))"
      "cs_first_failure_at st = f_now (hd fs)"
      "cs_expires_at st = (if threshold \<le> int (length fs) then 0 else f_now (last fs) + hg_cooldown g)"
    by (auto simp: guard_counts_def)
  have "cs_pause_until_ready st \<or> \<not> deadline_passed (f_now f) st" "cs_node st \<noteq> []"
      "\<not> is_zero (cs_first_failure_at st)"
    using st(2,4-6) assms(2,4,5) by (auto simp: deadline_passed_def is_zero_def)
  from mark_failure_continues [OF st(1) this(2,1,3) assms(6)] obtain st' where
    "hg_states (mark_failure node threshold g f) node = Some st'" "cs_node st' = cs_node st"
    "cs_failure_count st' = cs_failure_count st + 1"
    "cs_pause_until_ready st' = (threshold \<le> cs_failure_count st + 1)"
    "cs_first_failure_at st' = cs_first_failure_at st" "cs_last_failure_at st' = f_now f"
    "cs_expires_at st' = (if threshold \<le> cs_failure_count st + 1 then 0 else f_now f + hg_cooldown g)"
    by blast
  then show ?thesis
    using st(2,3,5) assms(3) unfolding guard_counts_def by (intro exI [of _ st']) (simp add: add.commute)
qed

lemma guard_counts_run:
  assumes "hg_states g node = None" "node \<noteq> []" "0 < threshold" "fs \<noteq> []" "failure_chain (hg_cooldown g) fs"
  shows "guard_counts node threshold fs (foldl (mark_failure node threshold) g fs) \<and>
    hg_cooldown (foldl (mark_failure node threshold) g fs) = hg_cooldown g"
  using assms(4,5)
proof (induction fs rule: rev_nonempty_induct)
  case (single f)
  then show ?case
    using assms(1-3)
    by (auto simp: guard_counts_def mark_failure_def mark_unhealthy_failure_def Let_def zero_cooldown_def
        is_zero_def deadline_passed_def)
next
  case (snoc f fs)
  obtain fs0 f0 where fs: "fs = fs0 @ [f0]" using snoc(1) by (metis append_butlast_last_id)
  have chain: "failure_chain (hg_cooldown g) fs" "f_now f \<le> f_now (last fs) + hg_cooldown g"
    using snoc.prems failure_chain_snoc [of "hg_cooldown g" fs0 f0 f] by (simp_all add: fs)
  have first: "0 < f_now (hd fs)"
    using chain(1) snoc(1) by (cases fs; cases "tl fs") auto
  from snoc.IH [OF chain(1)] have
    "guard_counts node threshold (fs @ [f]) (mark_failure node threshold (foldl (mark_failure node threshold) g fs) f)"
    using guard_counts_step [OF _ _ snoc(1) first assms(2,3)] chain(2) by simp
  then show ?case using snoc.IH [OF chain(1)] by simp
qed

lemma node_unhealthy_not_cleared:
  "hotplug_node_unhealthy p h \<Longrightarrow> cs_pause_until_ready st \<Longrightarrow> \<not> hotplug_guard_state_cleared p now st h"
  by (auto simp: hotplug_node_unhealthy_def hotplug_guard_state_cleared_def readiness_gates_def)

lemma guard_load_one_other:
  "n \<noteq> [] \<Longrightarrow> k \<noteq> n \<Longrightarrow> hg_states (guard_load_one now g (n, s)) k = hg_states g k"
  by (simp add: guard_load_one_def)

lemma guard_load_keeps:
  assumes "hg_states g k = Some st" "k \<notin> fst ` set entries" "[] \<notin> fst ` set entries"
  shows "hg_states (guard_load now entries g) k = Some st"
  using assms unfolding guard_load_def
proof (induction entries arbitrary: g)
  case (Cons e entries)
  obtain n s where e: "e = (n, s)" by fastforce
  have "hg_states (guard_load_one now g e) k = Some st"
    using Cons.prems guard_load_one_other [of n k now g s] e by auto
  then show ?case using Cons.IH [of "guard_load_one now g e"] Cons.prems by simp
qed simp

lemma guard_load_sets:
  assumes "distinct (map fst entries)" "[] \<notin> fst ` set entries"
    and "(k, st) \<in> set entries" "cs_pause_until_ready st"
  shows "hg_states (guard_load now entries g) k = Some (st\<lparr>cs_node := k\<rparr>)"
  using assms
proof (induction entries arbitrary: g)
  case (Cons e entries)
  have load: "guard_load now (e # entries) g = guard_load now entries (guard_load_one now g e)"
    by (simp add: guard_load_def)
  show ?case
  proof (cases "e = (k, st)")
    case True
    then have "k \<noteq> []" "k \<notin> fst ` set entries" "[] \<notin> fst ` set entries" using Cons.prems by auto
    moreover have "hg_states (guard_load_one now g e) k = Some (st\<lparr>cs_node := k\<rparr>)"
      using True \<open>k \<noteq> []\<close> Cons.prems(4) by (simp add: guard_load_one_def)
    ultimately show ?thesis unfolding load by (intro guard_load_keeps)
  next
    case False
    then show ?thesis unfolding load using Cons by simp
  qed
qed simp

section \<open>Properties\<close>

text \<open>C36. Counting of failures: after a run of unhealthy timeouts on a node that had no
  state, each within the cooldown of the one before, the state counts all of them,
  remembers the first and the last, and the node is paused exactly when there were
  as many as the threshold; a paused state has no deadline.\<close>

theorem guard_pauses_at_threshold:
  assumes "hg_states g node = None" "node \<noteq> []" "0 < threshold" "fs \<noteq> []" "failure_chain (hg_cooldown g) fs"
  shows "\<exists>st. hg_states (foldl (mark_failure node threshold) g fs) node = Some st \<and>
     cs_failure_count st = int (length fs) \<and>
     cs_pause_until_ready st = (threshold \<le> int (length fs)) \<and>
     cs_first_failure_at st = f_now (hd fs) \<and> cs_last_failure_at st = f_now (last fs) \<and>
     cs_expires_at st = (if threshold \<le> int (length fs) then 0 else f_now (last fs) + hg_cooldown g)"
  using guard_counts_run [OF assms] by (auto simp: guard_counts_def)

definition sample_failure :: "go_time \<Rightarrow> failure" where
  "sample_failure t = \<lparr>f_now = t, f_operation = ''attach'', f_volume = ''7'',
     f_error = \<lparr>te_timeout = 60 * second, te_last_attached = False, te_last_ready = False\<rparr>,
     f_health = \<lparr>nh_kube_ready = False, nh_kube_known = True, nh_one_ready = False, nh_one_known = True,
       nh_unschedulable = False, nh_kube_err = False, nh_one_err = False\<rparr>, f_reason = ''node_unhealthy''\<rparr>"

theorem guard_pauses_at_threshold_witness:
  "\<exists>st. hg_states (foldl (mark_failure ''n1'' 2) (new_hotplug_guard 300) [sample_failure 10, sample_failure 200]) ''n1'' = Some st \<and>
     cs_pause_until_ready st"
  using guard_pauses_at_threshold [of "new_hotplug_guard 300" "''n1''" 2 "[sample_failure 10, sample_failure 200]"]
  by (auto simp: new_hotplug_guard_def sample_failure_def)

text \<open>A paused node stays blocked: while the guard is enabled, the controller lets
  an operation on a paused node through only if no diagnosis reports the node stuck
  and every required readiness gate is open; an unhealthy node is never let
  through; a blocked query leaves the pause in place at any later time.\<close>

lemma paused_node_blocked:
  assumes "gp_enabled p" "hg_states g node = Some st" "cs_pause_until_ready st"
    and "hotplug_cooldown_state p now pause health node g = (res, g', acts)"
  shows "(res = None \<longleftrightarrow> pause = None \<and> readiness_gates p (health (cs_last_ready st))) \<and>
    (hotplug_node_unhealthy p (health (cs_last_ready st)) \<longrightarrow> res \<noteq> None) \<and>
    (pause = None \<and> res \<noteq> None \<longrightarrow> hg_states g' node = Some st)"
  using assms node_unhealthy_not_cleared [of p "health (cs_last_ready st)" st now]
  by (cases pause)
    (auto simp: hotplug_cooldown_state_def guard_get_def hotplug_guard_state_cleared_def Let_def
      split: if_splits prod.splits)

definition sample_policy :: guard_policy where
  "sample_policy = load_guard_policy None None None None False"

lemma paused_node_blocked_witness:
  "fst (hotplug_cooldown_state sample_policy 900 None (\<lambda>_. f_health (sample_failure 0)) ''n1''
     (foldl (mark_failure ''n1'' 2) (new_hotplug_guard 300) [sample_failure 10, sample_failure 200])) \<noteq> None"
proof -
  let ?g = "foldl (mark_failure ''n1'' 2) (new_hotplug_guard 300) [sample_failure 10, sample_failure 200]"
  obtain st where st: "hg_states ?g ''n1'' = Some st" "cs_pause_until_ready st"
    using guard_counts_run [of "new_hotplug_guard 300" "''n1''" 2 "[sample_failure 10, sample_failure 200]"]
    by (auto simp: guard_counts_def new_hotplug_guard_def sample_failure_def)
  obtain res g' acts where q: "hotplug_cooldown_state sample_policy 900 None (\<lambda>_. f_health (sample_failure 0)) ''n1'' ?g = (res, g', acts)"
    by (metis prod_cases3)
  have "hotplug_node_unhealthy sample_policy (f_health (sample_failure 0))"
    by (simp add: hotplug_node_unhealthy_def sample_policy_def load_guard_policy_def sample_failure_def)
  moreover have "gp_enabled sample_policy" by (simp add: sample_policy_def load_guard_policy_def)
  ultimately have "res \<noteq> None" using paused_node_blocked [OF _ st q] by blast
  then show ?thesis using q by simp
qed

text \<open>C37. A pause survives a restart: if the ConfigMap holds the persisted state of a
  paused node, then the guard rebuilt from the ConfigMap by a new controller has the
  node paused, whatever the time and the other entries, provided decoding inverts
  encoding.\<close>

theorem pause_survives_restart:
  assumes json: "decode (encode st) = Some st"
    and "(node, encode st) \<in> set data" "cs_pause_until_ready st" "distinct (map fst data)"
    and "[] \<notin> fst ` set data" "\<not> is_maintenance_key node"
  shows "\<exists>st'. hg_states (fst (load_hotplug_guard_state decode now (KubeOk data) g)) node = Some st' \<and>
    cs_pause_until_ready st'"
proof -
  define pick where "pick = (\<lambda>e. case load_entry decode now e of KeepState st \<Rightarrow> [(fst e, st)] | _ \<Rightarrow> [])"
  define states where "states = concat (map pick data)"
  have keys: "x \<in> set (pick e) \<Longrightarrow> fst x = fst e" "distinct (map fst (pick e))" for x e
    by (auto simp: pick_def split: load_decision.splits)
  have sub: "fst ` set states \<subseteq> fst ` set data" and dist: "distinct (map fst states)"
    unfolding states_def using keys_concat_subset [of pick data] distinct_keys_concat [of pick data] keys assms(4)
    by blast+
  obtain st0 where st0: "load_entry decode now (node, encode st) = KeepState st0" "cs_pause_until_ready st0"
    using assms(3,6) json by (auto simp: load_entry_def Let_def)
  then have "(node, st0) \<in> set states"
    using assms(2) by (force simp: states_def pick_def)
  moreover have "[] \<notin> fst ` set states" using sub assms(5) by blast
  ultimately have "hg_states (guard_load now states g) node = Some (st0\<lparr>cs_node := node\<rparr>)" "states \<noteq> []"
    using guard_load_sets [OF dist _ _ st0(2)] by fastforce+
  then show ?thesis
    using st0(2) by (simp add: load_hotplug_guard_state_def Let_def pick_def [symmetric] states_def [symmetric])
qed

theorem pause_survives_restart_witness:
  "\<exists>st'. hg_states (fst (load_hotplug_guard_state
      (\<lambda>raw. if raw = ''paused'' then Some (zero_cooldown\<lparr>cs_pause_until_ready := True\<rparr>) else None) 5000
      (KubeOk [(''maintenanceMode'', ''true''), (''n1'', ''paused'')]) (new_hotplug_guard 300))) ''n1'' = Some st' \<and>
    cs_pause_until_ready st'"
  by (rule pause_survives_restart [where encode = "\<lambda>_. ''paused''" and st = "zero_cooldown\<lparr>cs_pause_until_ready := True\<rparr>"])
    (simp_all add: is_maintenance_key_def maintenance_keys_def trim_space_def is_space_def)

end
