(* ===== verification/Hotplug_Queue.thy ===== *)
theory Hotplug_Queue
  imports Go_Prelude "HOL-Library.AList"
begin

text \<open>
  The per-node hotplug queue (\<open>driver/hotplug_queue.go\<close>): the queue operations
  as functions on the manager's state, and the interleaving of callers of
  \<open>Run\<close> with the per-node worker goroutines as a step relation.

  Each function between \<open>m.mu.Lock\<close> and \<open>m.mu.Unlock\<close> is one atomic step.  The
  fields of a request that change while it is shared (\<open>started\<close>, \<open>done\<close> with
  \<open>err\<close>, \<open>coalesced\<close>) are kept in maps from the request's id, which is the
  pointer the queue and the callers share.  The Go map of node queues is an
  association list, since the code iterates over it.  A call with an empty node
  name runs its function at once and does not touch the queue.  Ages in seconds are
  the truncated quotient, without the rounding of the float division.  The request's function, the
  validator and the clock are the environment: a step may take any value of
  them.
\<close>

section \<open>Data\<close>

type_synonym queue_priority = string

definition priority_critical :: queue_priority where "priority_critical = ''critical''"
definition priority_normal :: queue_priority where "priority_normal = ''normal''"
definition priority_background :: queue_priority where "priority_background = ''background''"

datatype queue_error =
    QueueTimeoutError string string string duration
  | QueueActiveTimeoutError string string string duration
  | QueueStaleRequestError string string string string string
  | QueuePausedError string string string string string
  | FnError string

text \<open>The messages of the queue's error types; \<open>show_duration\<close> is \<open>time.Duration.String\<close>.\<close>

fun queue_error_message :: "(duration \<Rightarrow> string) \<Rightarrow> queue_error \<Rightarrow> string" where
  "queue_error_message show_duration (QueueTimeoutError node op vol t) =
     ''timed out after '' @ show_duration t @ '' waiting for hotplug queue on node '' @ node @
     '' for '' @ op @ '' of volume '' @ vol"
| "queue_error_message show_duration (QueueActiveTimeoutError node op vol t) =
     ''timed out after '' @ show_duration t @ '' executing hotplug queue request on node '' @ node @
     '' for '' @ op @ '' of volume '' @ vol"
| "queue_error_message show_duration (QueueStaleRequestError node op vol reason msg) =
     (if msg \<noteq> [] then msg
      else if reason \<noteq> [] then ''stale hotplug queue request for '' @ op @ '' of volume '' @ vol @
        '' on node '' @ node @ '': '' @ reason
      else ''stale hotplug queue request for '' @ op @ '' of volume '' @ vol @ '' on node '' @ node)"
| "queue_error_message show_duration (QueuePausedError node op vol reason msg) =
     (if msg \<noteq> [] then msg
      else if reason \<noteq> [] then ''hotplug queue request for '' @ op @ '' of volume '' @ vol @
        '' on node '' @ node @ '' is paused: '' @ reason
      else ''hotplug queue request for '' @ op @ '' of volume '' @ vol @ '' on node '' @ node @
        '' is paused'')"
| "queue_error_message show_duration (FnError msg) = msg"

datatype validation_decision = VValid | VCompleted | VStale | VPaused

record validation =
  v_decision :: validation_decision
  v_reason :: string
  v_message :: string

record queue_request =
  rq_id :: nat
  rq_node :: string
  rq_operation :: string
  rq_volume :: string
  rq_priority :: queue_priority
  rq_enqueued_at :: go_time
  rq_started_at :: go_time
  rq_wait_limit :: duration

record node_queue =
  nq_active :: "queue_request option"
  nq_pending :: "queue_request list"
  nq_running :: bool

record queue_config =
  qc_max_wait :: duration
  qc_age_boost :: duration
  qc_dedupe :: bool
  qc_per_item_wait :: duration
  qc_max_wait_cap :: duration
  qc_max_active :: duration
  qc_validates :: bool

record queue_manager =
  qm_config :: queue_config
  qm_seq :: nat
  qm_nodes :: "(string \<times> node_queue) list"
  qm_started :: "nat \<Rightarrow> bool"
  qm_done :: "nat \<Rightarrow> queue_error option option"
  qm_coalesced :: "nat \<Rightarrow> nat"

definition new_queue_manager :: "duration \<Rightarrow> duration \<Rightarrow> queue_manager" where
  "new_queue_manager max_wait age_boost =
     \<lparr>qm_config = \<lparr>qc_max_wait = max_wait, qc_age_boost = age_boost, qc_dedupe = True,
        qc_per_item_wait = 0, qc_max_wait_cap = 0, qc_max_active = 0, qc_validates = False\<rparr>,
      qm_seq = 0, qm_nodes = [], qm_started = (\<lambda>_. False), qm_done = (\<lambda>_. None),
      qm_coalesced = (\<lambda>_. 0)\<rparr>"

definition queue_configure ::
  "bool \<Rightarrow> duration \<Rightarrow> duration \<Rightarrow> duration \<Rightarrow> bool \<Rightarrow> queue_manager \<Rightarrow> queue_manager" where
  "queue_configure dedupe per_item_wait max_wait_cap max_active validates m =
     m\<lparr>qm_config := (qm_config m)\<lparr>qc_dedupe := dedupe, qc_per_item_wait := per_item_wait,
        qc_max_wait_cap := max_wait_cap, qc_max_active := max_active, qc_validates := validates\<rparr>\<rparr>"

section \<open>Operations\<close>

definition empty_node_queue :: node_queue where
  "empty_node_queue = \<lparr>nq_active = None, nq_pending = [], nq_running = False\<rparr>"

definition node_queue_of :: "queue_manager \<Rightarrow> string \<Rightarrow> node_queue option" where
  "node_queue_of m node = map_of (qm_nodes m) node"

definition set_node_queue :: "string \<Rightarrow> node_queue \<Rightarrow> queue_manager \<Rightarrow> queue_manager" where
  "set_node_queue node q m = m\<lparr>qm_nodes := AList.update node q (qm_nodes m)\<rparr>"

definition same_queue_request :: "queue_request \<Rightarrow> queue_request \<Rightarrow> bool" where
  "same_queue_request a b \<longleftrightarrow>
     rq_node a = rq_node b \<and> rq_operation a = rq_operation b \<and> rq_volume a = rq_volume b"

definition find_duplicate_request :: "node_queue \<Rightarrow> queue_request \<Rightarrow> queue_request option" where
  "find_duplicate_request q req =
     (case nq_active q of
        Some a \<Rightarrow> if same_queue_request a req then Some a
                  else List.find (\<lambda>p. same_queue_request p req) (nq_pending q)
      | None \<Rightarrow> List.find (\<lambda>p. same_queue_request p req) (nq_pending q))"

definition effective_priority :: "duration \<Rightarrow> queue_request \<Rightarrow> go_time \<Rightarrow> int" where
  "effective_priority age_boost req now =
     (let base = (if rq_priority req = priority_critical then 0
                  else if rq_priority req = priority_normal then 1 else 2)
      in if age_boost \<le> 0 then base
         else (let boosts = go_div (now - rq_enqueued_at req) age_boost;
                   boosts = (if boosts > base then base else boosts)
               in base - boosts))"

definition effective_wait_limit :: "queue_config \<Rightarrow> node_queue \<Rightarrow> duration" where
  "effective_wait_limit c q =
     (let wait = qc_max_wait c
      in if wait \<le> 0 then 0
         else (let depth_ahead = int (length (nq_pending q)) + (if nq_active q \<noteq> None then 1 else 0);
                   wait = (if qc_per_item_wait c > 0
                           then int64 (wait + int64 (depth_ahead * qc_per_item_wait c)) else wait)
               in if qc_max_wait_cap c > 0 \<and> wait > qc_max_wait_cap c then qc_max_wait_cap c
                  else wait))"

text \<open>\<open>enqueue\<close>: the manager, the id of the request the caller waits for, the wait
  limit of that request, whether the call joined an existing request, and whether
  a worker is started.\<close>

record enqueue_result =
  er_manager :: queue_manager
  er_request :: queue_request
  er_coalesced :: bool
  er_start :: bool

definition enqueue :: "queue_manager \<Rightarrow> queue_request \<Rightarrow> enqueue_result" where
  "enqueue m req =
     (let q = (case node_queue_of m (rq_node req) of Some q \<Rightarrow> q | None \<Rightarrow> empty_node_queue);
          dup = (if qc_dedupe (qm_config m) then find_duplicate_request q req else None)
      in case dup of
           Some existing \<Rightarrow>
             \<lparr>er_manager = (set_node_queue (rq_node req) q m)
                \<lparr>qm_coalesced := (qm_coalesced m)(rq_id existing := qm_coalesced m (rq_id existing) + 1)\<rparr>,
              er_request = existing, er_coalesced = True, er_start = False\<rparr>
         | None \<Rightarrow>
             (let req' = req\<lparr>rq_wait_limit := effective_wait_limit (qm_config m) q\<rparr>;
                  start = (\<not> nq_running q);
                  q' = q\<lparr>nq_pending := nq_pending q @ [req'], nq_running := True\<rparr>
              in \<lparr>er_manager = set_node_queue (rq_node req) q' m, er_request = req',
                  er_coalesced = False, er_start = start\<rparr>))"

text \<open>\<open>complete\<close> runs once: the first error (or success) of a request stays.\<close>

definition complete :: "nat \<Rightarrow> queue_error option \<Rightarrow> queue_manager \<Rightarrow> queue_manager" where
  "complete i err m =
     (case qm_done m i of
        Some _ \<Rightarrow> m
      | None \<Rightarrow> m\<lparr>qm_done := (qm_done m)(i := Some err)\<rparr>)"

fun remove_at :: "nat \<Rightarrow> 'a list \<Rightarrow> 'a list" where
  "remove_at _ [] = []"
| "remove_at 0 (x # xs) = xs"
| "remove_at (Suc n) (x # xs) = x # remove_at n xs"

fun find_index :: "('a \<Rightarrow> bool) \<Rightarrow> 'a list \<Rightarrow> nat option" where
  "find_index P [] = None"
| "find_index P (x # xs) = (if P x then Some 0 else map_option Suc (find_index P xs))"

definition cancel :: "nat \<Rightarrow> string \<Rightarrow> queue_manager \<Rightarrow> bool \<times> queue_manager" where
  "cancel i node m =
     (case node_queue_of m node of
        None \<Rightarrow> (False, m)
      | Some q \<Rightarrow>
          (case find_index (\<lambda>r. rq_id r = i) (nq_pending q) of
             None \<Rightarrow> (False, m)
           | Some idx \<Rightarrow>
               (let req = nq_pending q ! idx;
                    m' = set_node_queue node (q\<lparr>nq_pending := remove_at idx (nq_pending q)\<rparr>) m
                in (True, complete (rq_id req)
                     (Some (QueueTimeoutError node (rq_operation req) (rq_volume req) (rq_wait_limit req))) m'))))"

text \<open>The scan of \<open>next\<close>: the first position with the lowest score.\<close>

fun select_scan :: "(queue_request \<Rightarrow> int) \<Rightarrow> nat \<Rightarrow> int \<Rightarrow> nat \<Rightarrow> queue_request list \<Rightarrow> nat" where
  "select_scan score best best_score idx [] = best"
| "select_scan score best best_score idx (r # rs) =
     (if score r < best_score then select_scan score idx (score r) (Suc idx) rs
      else select_scan score best best_score (Suc idx) rs)"

definition select_index :: "(queue_request \<Rightarrow> int) \<Rightarrow> queue_request list \<Rightarrow> nat" where
  "select_index score pending =
     (case pending of [] \<Rightarrow> 0 | r # rs \<Rightarrow> select_scan score 0 (score r) 1 rs)"

definition next_request :: "string \<Rightarrow> go_time \<Rightarrow> queue_manager \<Rightarrow> queue_request option \<times> queue_manager" where
  "next_request node now m =
     (case node_queue_of m node of
        None \<Rightarrow> (None, m)
      | Some q \<Rightarrow>
          if nq_pending q = [] then (None, m\<lparr>qm_nodes := AList.delete node (qm_nodes m)\<rparr>)
          else (let idx = select_index (\<lambda>r. effective_priority (qc_age_boost (qm_config m)) r now) (nq_pending q);
                    req = (nq_pending q ! idx)\<lparr>rq_started_at := now\<rparr>;
                    q' = q\<lparr>nq_pending := remove_at idx (nq_pending q), nq_active := Some req\<rparr>
                in (Some req, set_node_queue node q' m)))"

definition finish :: "string \<Rightarrow> nat \<Rightarrow> queue_manager \<Rightarrow> queue_manager" where
  "finish node i m =
     (case node_queue_of m node of
        None \<Rightarrow> m
      | Some q \<Rightarrow>
          (case nq_active q of
             Some a \<Rightarrow> if rq_id a = i then set_node_queue node (q\<lparr>nq_active := None\<rparr>) m else m
           | None \<Rightarrow> m))"

text \<open>\<open>runRequest\<close>: the validator's decision, then the request's function.  The
  outcome of the function is its error, with whether it is
  \<open>context.DeadlineExceeded\<close>; \<open>ctx_expired\<close> is whether the run context has
  passed its deadline when the function returns without an error.\<close>

datatype fn_outcome = FnOk | FnErr string bool

definition active_timeout_error :: "queue_config \<Rightarrow> queue_request \<Rightarrow> queue_error" where
  "active_timeout_error c r =
     QueueActiveTimeoutError (rq_node r) (rq_operation r) (rq_volume r) (qc_max_active c)"

definition run_fn :: "queue_config \<Rightarrow> fn_outcome \<Rightarrow> bool \<Rightarrow> queue_request \<Rightarrow> queue_error option" where
  "run_fn c outcome ctx_expired r =
     (case outcome of
        FnErr msg deadline \<Rightarrow>
          if qc_max_active c > 0 \<and> deadline then Some (active_timeout_error c r) else Some (FnError msg)
      | FnOk \<Rightarrow> if ctx_expired then Some (active_timeout_error c r) else None)"

text \<open>The result of a request and whether its function has run.\<close>

definition run_request ::
  "queue_config \<Rightarrow> validation \<Rightarrow> fn_outcome \<Rightarrow> bool \<Rightarrow> queue_request \<Rightarrow> queue_error option \<times> bool" where
  "run_request c v outcome ctx_expired r =
     (if qc_validates c then
        (case v_decision v of
           VCompleted \<Rightarrow> (None, False)
         | VStale \<Rightarrow> (Some (QueueStaleRequestError (rq_node r) (rq_operation r) (rq_volume r) (v_reason v) (v_message v)), False)
         | VPaused \<Rightarrow> (Some (QueuePausedError (rq_node r) (rq_operation r) (rq_volume r) (v_reason v) (v_message v)), False)
         | VValid \<Rightarrow> (run_fn c outcome ctx_expired r, True))
      else (run_fn c outcome ctx_expired r, True))"

definition queue_requests :: "node_queue \<Rightarrow> queue_request list" where
  "queue_requests q = (case nq_active q of Some a \<Rightarrow> [a] | None \<Rightarrow> []) @ nq_pending q"

definition has_volume :: "string \<Rightarrow> queue_manager \<Rightarrow> bool" where
  "has_volume volume m \<longleftrightarrow> volume \<noteq> [] \<and>
     list_ex (\<lambda>(n, q). list_ex (\<lambda>r. rq_volume r = volume) (queue_requests q)) (qm_nodes m)"

section \<open>Snapshots and depth metrics\<close>

record item_snapshot =
  is_id :: nat
  is_node :: string
  is_operation :: string
  is_volume :: string
  is_priority :: queue_priority
  is_enqueued_at :: go_time
  is_started_at :: "go_time option"
  is_coalesced :: nat

record node_snapshot =
  ns_node :: string
  ns_active :: "item_snapshot option"
  ns_queued :: "item_snapshot list"
  ns_queued_count :: nat
  ns_oldest_age :: int
  ns_active_age :: int

definition request_snapshot :: "queue_manager \<Rightarrow> queue_request \<Rightarrow> item_snapshot" where
  "request_snapshot m r =
     \<lparr>is_id = rq_id r, is_node = rq_node r, is_operation = rq_operation r, is_volume = rq_volume r,
      is_priority = rq_priority r, is_enqueued_at = rq_enqueued_at r,
      is_started_at = (if is_zero (rq_started_at r) then None else Some (rq_started_at r)),
      is_coalesced = qm_coalesced m (rq_id r)\<rparr>"

definition snapshot_locked :: "queue_manager \<Rightarrow> go_time \<Rightarrow> string \<Rightarrow> node_snapshot" where
  "snapshot_locked m now node =
     (case node_queue_of m node of
        None \<Rightarrow> \<lparr>ns_node = node, ns_active = None, ns_queued = [], ns_queued_count = 0,
                 ns_oldest_age = 0, ns_active_age = 0\<rparr>
      | Some q \<Rightarrow>
          \<lparr>ns_node = node,
           ns_active = map_option (request_snapshot m) (nq_active q),
           ns_queued = map (request_snapshot m) (nq_pending q),
           ns_queued_count = length (nq_pending q),
           ns_oldest_age = foldl (\<lambda>oldest r. let age = go_div (now - rq_enqueued_at r) second
                                             in if age > oldest then age else oldest) 0 (nq_pending q),
           ns_active_age = (case nq_active q of
               Some a \<Rightarrow> if is_zero (rq_started_at a) then 0 else go_div (now - rq_started_at a) second
             | None \<Rightarrow> 0)\<rparr>)"

definition manager_snapshot :: "queue_manager \<Rightarrow> go_time \<Rightarrow> (string \<times> node_snapshot) list" where
  "manager_snapshot m now = map (\<lambda>(n, q). (n, snapshot_locked m now n)) (qm_nodes m)"

text \<open>The gauges of \<open>recordDepthMetricsLocked\<close>: critical, normal, other.\<close>

definition depth_metrics :: "queue_manager \<Rightarrow> nat \<times> nat \<times> nat" where
  "depth_metrics m =
     (let rs = concat (map (queue_requests \<circ> snd) (qm_nodes m));
          crit = length (filter (\<lambda>r. rq_priority r = priority_critical) rs);
          norm = length (filter (\<lambda>r. rq_priority r = priority_normal) rs)
      in (crit, norm, length (filter (\<lambda>r. rq_priority r \<noteq> priority_critical \<and>
                                          rq_priority r \<noteq> priority_normal) rs)))"

text \<open>The persisted snapshots: the entries of the ConfigMap, the snapshots held back
  by the debounce, and the armed timers.  \<open>api_ok\<close> is whether the Kubernetes call
  succeeds.\<close>

record snapshot_state =
  ss_enabled :: bool
  ss_debounce :: duration
  ss_pending :: "string \<Rightarrow> node_snapshot option"
  ss_timers :: "string \<Rightarrow> bool"
  ss_store :: "string \<Rightarrow> node_snapshot option"

definition set_snapshot_debounce :: "duration \<Rightarrow> snapshot_state \<Rightarrow> snapshot_state" where
  "set_snapshot_debounce d s = s\<lparr>ss_debounce := (if d < 0 then 0 else d)\<rparr>"

definition empty_snapshot :: "node_snapshot \<Rightarrow> bool" where
  "empty_snapshot sn \<longleftrightarrow> ns_active sn = None \<and> ns_queued_count sn = 0"

definition persist_snapshot_now :: "bool \<Rightarrow> node_snapshot \<Rightarrow> snapshot_state \<Rightarrow> snapshot_state" where
  "persist_snapshot_now api_ok sn s =
     (if \<not> ss_enabled s \<or> ns_node sn = [] then s
      else (let s1 = s\<lparr>ss_timers := (ss_timers s)(ns_node sn := False),
                       ss_pending := (ss_pending s)(ns_node sn := None)\<rparr>
            in if \<not> api_ok then s1
               else if empty_snapshot sn then s1\<lparr>ss_store := (ss_store s1)(ns_node sn := None)\<rparr>
               else s1\<lparr>ss_store := (ss_store s1)(ns_node sn \<mapsto> sn)\<rparr>))"

definition defer_snapshot :: "node_snapshot \<Rightarrow> snapshot_state \<Rightarrow> snapshot_state" where
  "defer_snapshot sn s =
     s\<lparr>ss_pending := (ss_pending s)(ns_node sn \<mapsto> sn), ss_timers := (ss_timers s)(ns_node sn := True)\<rparr>"

definition flush_pending_snapshot :: "bool \<Rightarrow> string \<Rightarrow> snapshot_state \<Rightarrow> snapshot_state" where
  "flush_pending_snapshot api_ok node s =
     (let s1 = s\<lparr>ss_pending := (ss_pending s)(node := None), ss_timers := (ss_timers s)(node := False)\<rparr>
      in case ss_pending s node of
           Some sn \<Rightarrow> persist_snapshot_now api_ok sn s1
         | None \<Rightarrow> s1)"

definition persist_snapshot :: "bool \<Rightarrow> node_snapshot \<Rightarrow> snapshot_state \<Rightarrow> snapshot_state" where
  "persist_snapshot api_ok sn s =
     (if \<not> ss_enabled s \<or> ns_node sn = [] then s
      else if empty_snapshot sn then persist_snapshot_now api_ok sn s
      else if ss_debounce s > 0 then defer_snapshot sn s
      else persist_snapshot_now api_ok sn s)"

section \<open>Callers and workers\<close>

text \<open>A call of \<open>Run\<close>: it waits for the request to start (or, when it joined
  another request, to be done), then for it to be done; \<open>CCancelled\<close> is the
  return after \<open>cancel\<close> has removed the request.\<close>

datatype caller_phase = CWait | CAwaitDone | CReturned "queue_error option" | CCancelled queue_error

record queue_caller =
  cl_request :: queue_request
  cl_coalesced :: bool
  cl_phase :: caller_phase

definition caller_timeout :: "queue_caller \<Rightarrow> queue_error" where
  "caller_timeout c = QueueTimeoutError (rq_node (cl_request c)) (rq_operation (cl_request c))
     (rq_volume (cl_request c)) (rq_wait_limit (cl_request c))"

text \<open>A worker goroutine (\<open>runNodeQueue\<close>): about to call \<open>next\<close>, running a
  request, or about to call \<open>finish\<close>.\<close>

datatype worker_phase = WNext | WRun queue_request | WDone queue_request

fun phase_request :: "worker_phase \<Rightarrow> queue_request option" where
  "phase_request WNext = None"
| "phase_request (WRun r) = Some r"
| "phase_request (WDone r) = Some r"

record queue_system =
  qs_manager :: queue_manager
  qs_workers :: "(string \<times> worker_phase) list"
  qs_callers :: "queue_caller list"
  qs_ran :: "nat list"

definition new_request ::
  "nat \<Rightarrow> string \<Rightarrow> string \<Rightarrow> string \<Rightarrow> queue_priority \<Rightarrow> go_time \<Rightarrow> queue_request" where
  "new_request i node op vol prio now =
     \<lparr>rq_id = i, rq_node = node, rq_operation = op, rq_volume = vol, rq_priority = prio,
      rq_enqueued_at = now, rq_started_at = 0, rq_wait_limit = 0\<rparr>"

text \<open>The first part of \<open>Run\<close>, up to its waiting.\<close>

definition call_run ::
  "string \<Rightarrow> string \<Rightarrow> string \<Rightarrow> queue_priority \<Rightarrow> go_time \<Rightarrow> queue_system \<Rightarrow> queue_system" where
  "call_run node op vol prio now s =
     (let m = (qs_manager s)\<lparr>qm_seq := Suc (qm_seq (qs_manager s))\<rparr>;
          e = enqueue m (new_request (qm_seq m) node op vol prio now)
      in s\<lparr>qs_manager := er_manager e,
           qs_workers := (if er_start e then qs_workers s @ [(node, WNext)] else qs_workers s),
           qs_callers := qs_callers s @ [\<lparr>cl_request = er_request e, cl_coalesced = er_coalesced e,
                                         cl_phase = CWait\<rparr>]\<rparr>)"

text \<open>One step of the worker at a position of the list.\<close>

definition worker_next :: "nat \<Rightarrow> go_time \<Rightarrow> queue_system \<Rightarrow> queue_system" where
  "worker_next i now s =
     (let node = fst (qs_workers s ! i)
      in case next_request node now (qs_manager s) of
           (None, m) \<Rightarrow> s\<lparr>qs_manager := m, qs_workers := remove_at i (qs_workers s)\<rparr>
         | (Some r, m) \<Rightarrow> s\<lparr>qs_manager := m\<lparr>qm_started := (qm_started m)(rq_id r := True)\<rparr>,
                            qs_workers := (qs_workers s)[i := (node, WRun r)]\<rparr>)"

definition worker_run ::
  "nat \<Rightarrow> queue_request \<Rightarrow> validation \<Rightarrow> fn_outcome \<Rightarrow> bool \<Rightarrow> queue_system \<Rightarrow> queue_system" where
  "worker_run i r v outcome ctx_expired s =
     (let (err, runs) = run_request (qm_config (qs_manager s)) v outcome ctx_expired r
      in s\<lparr>qs_manager := complete (rq_id r) err (qs_manager s),
           qs_workers := (qs_workers s)[i := (fst (qs_workers s ! i), WDone r)],
           qs_ran := (if runs then rq_id r # qs_ran s else qs_ran s)\<rparr>)"

definition worker_finish :: "nat \<Rightarrow> queue_request \<Rightarrow> queue_system \<Rightarrow> queue_system" where
  "worker_finish i r s =
     (let node = fst (qs_workers s ! i)
      in s\<lparr>qs_manager := finish node (rq_id r) (qs_manager s),
           qs_workers := (qs_workers s)[i := (node, WNext)]\<rparr>)"

definition set_caller :: "nat \<Rightarrow> caller_phase \<Rightarrow> queue_system \<Rightarrow> queue_system" where
  "set_caller j ph s = s\<lparr>qs_callers := (qs_callers s)[j := (qs_callers s ! j)\<lparr>cl_phase := ph\<rparr>]\<rparr>"

text \<open>The \<open>waitCtx.Done()\<close> branch of a caller: the limit has passed or the
  caller's context has ended.\<close>

definition caller_give_up :: "nat \<Rightarrow> queue_system \<Rightarrow> queue_system" where
  "caller_give_up j s =
     (let c = qs_callers s ! j
      in if cl_coalesced c then set_caller j (CReturned (Some (caller_timeout c))) s
         else (case cancel (rq_id (cl_request c)) (rq_node (cl_request c)) (qs_manager s) of
                 (True, m) \<Rightarrow> set_caller j (CCancelled (caller_timeout c)) (s\<lparr>qs_manager := m\<rparr>)
               | (False, m) \<Rightarrow> set_caller j CAwaitDone (s\<lparr>qs_manager := m\<rparr>)))"

inductive queue_step :: "queue_system \<Rightarrow> queue_system \<Rightarrow> bool" where
  worker_next: "i < length (qs_workers s) \<Longrightarrow> snd (qs_workers s ! i) = WNext \<Longrightarrow>
     queue_step s (worker_next i now s)"
| worker_run: "i < length (qs_workers s) \<Longrightarrow> snd (qs_workers s ! i) = WRun r \<Longrightarrow>
     queue_step s (worker_run i r v outcome ctx_expired s)"
| worker_finish: "i < length (qs_workers s) \<Longrightarrow> snd (qs_workers s ! i) = WDone r \<Longrightarrow>
     queue_step s (worker_finish i r s)"
| caller_started: "j < length (qs_callers s) \<Longrightarrow> cl_phase (qs_callers s ! j) = CWait \<Longrightarrow>
     \<not> cl_coalesced (qs_callers s ! j) \<Longrightarrow>
     qm_started (qs_manager s) (rq_id (cl_request (qs_callers s ! j))) \<Longrightarrow>
     queue_step s (set_caller j CAwaitDone s)"
| caller_done: "j < length (qs_callers s) \<Longrightarrow>
     cl_phase (qs_callers s ! j) = CWait \<or> cl_phase (qs_callers s ! j) = CAwaitDone \<Longrightarrow>
     qm_done (qs_manager s) (rq_id (cl_request (qs_callers s ! j))) = Some err \<Longrightarrow>
     queue_step s (set_caller j (CReturned err) s)"
| caller_gives_up: "j < length (qs_callers s) \<Longrightarrow> cl_phase (qs_callers s ! j) = CWait \<Longrightarrow>
     queue_step s (caller_give_up j s)"

text \<open>The reachable states of a queue that starts empty with the configuration of
  the manager \<open>m0\<close> and gets any calls.\<close>

inductive queue_reachable :: "queue_config \<Rightarrow> queue_system \<Rightarrow> bool" for c where
  init: "queue_reachable c \<lparr>qs_manager = (new_queue_manager 0 0)\<lparr>qm_config := c\<rparr>,
                            qs_workers = [], qs_callers = [], qs_ran = []\<rparr>"
| call: "queue_reachable c s \<Longrightarrow> node \<noteq> [] \<Longrightarrow> queue_reachable c (call_run node op vol prio now s)"
| step: "queue_reachable c s \<Longrightarrow> queue_step s s' \<Longrightarrow> queue_reachable c s'"

section \<open>Selection\<close>

lemma select_scan_spec:
  "select_scan sc best bs i rs = best \<and> (\<forall>x \<in> set rs. bs \<le> sc x) \<or>
   (\<exists>k < length rs. select_scan sc best bs i rs = i + k \<and> sc (rs ! k) < bs \<and>
      (\<forall>j < length rs. sc (rs ! k) \<le> sc (rs ! j)) \<and> (\<forall>j < k. sc (rs ! k) < sc (rs ! j)))"
proof (induction sc best bs i rs rule: select_scan.induct)
  case (2 sc best bs i r rs)
  show ?case
  proof (cases "sc r < bs")
    case True
    from 2(1) [OF this] show ?thesis
    proof (elim disjE exE conjE)
      assume *: "select_scan sc i (sc r) (Suc i) rs = i" "\<forall>x \<in> set rs. sc r \<le> sc x"
      then have "\<forall>j < length (r # rs). sc r \<le> sc ((r # rs) ! j)"
        by (auto simp: nth_Cons split: nat.splits)
      with * True show ?thesis by (intro disjI2 exI [of _ 0]) auto
    next
      fix k assume *: "k < length rs" "select_scan sc i (sc r) (Suc i) rs = Suc i + k"
        "sc (rs ! k) < sc r" "\<forall>j < length rs. sc (rs ! k) \<le> sc (rs ! j)"
        "\<forall>j < k. sc (rs ! k) < sc (rs ! j)"
      then show ?thesis using True
        by (intro disjI2 exI [of _ "Suc k"]) (auto simp: nth_Cons less_Suc_eq_0_disj split: nat.splits)
    qed
  next
    case False
    from 2(2) [OF this] show ?thesis
    proof (elim disjE exE conjE)
      assume "select_scan sc best bs (Suc i) rs = best" "\<forall>x \<in> set rs. bs \<le> sc x"
      then show ?thesis using False by auto
    next
      fix k assume "k < length rs" "select_scan sc best bs (Suc i) rs = Suc i + k"
        "sc (rs ! k) < bs" "\<forall>j < length rs. sc (rs ! k) \<le> sc (rs ! j)"
        "\<forall>j < k. sc (rs ! k) < sc (rs ! j)"
      then show ?thesis using False
        by (intro disjI2 exI [of _ "Suc k"]) (auto simp: nth_Cons less_Suc_eq_0_disj split: nat.splits)
    qed
  qed
qed simp

lemma select_index_spec:
  assumes "rs \<noteq> []"
  shows "select_index sc rs < length rs"
    and "j < length rs \<Longrightarrow> sc (rs ! select_index sc rs) \<le> sc (rs ! j)"
    and "j < select_index sc rs \<Longrightarrow> sc (rs ! select_index sc rs) < sc (rs ! j)"
proof -
  obtain r rest where rs: "rs = r # rest" using assms by (cases rs) auto
  show "select_index sc rs < length rs"
    using select_scan_spec [of sc 0 "sc r" 1 rest] by (auto simp: select_index_def rs)
  show "j < length rs \<Longrightarrow> sc (rs ! select_index sc rs) \<le> sc (rs ! j)"
    using select_scan_spec [of sc 0 "sc r" 1 rest]
    by (auto simp: select_index_def rs nth_Cons split: nat.splits)
  show "j < select_index sc rs \<Longrightarrow> sc (rs ! select_index sc rs) < sc (rs ! j)"
    using select_scan_spec [of sc 0 "sc r" 1 rest]
    by (auto simp: select_index_def rs nth_Cons split: nat.splits)
qed

lemma effective_priority_bounds:
  "0 \<le> effective_priority b r now"
  "rq_enqueued_at r \<le> now \<Longrightarrow> effective_priority b r now \<le> 2"
proof -
  show "0 \<le> effective_priority b r now" by (simp add: effective_priority_def Let_def)
  assume "rq_enqueued_at r \<le> now"
  then have "0 < b \<Longrightarrow> 0 \<le> go_div (now - rq_enqueued_at r) b"
    by (simp add: go_div_nonneg pos_imp_zdiv_nonneg_iff)
  then show "effective_priority b r now \<le> 2" by (auto simp: effective_priority_def Let_def)
qed

lemma effective_priority_aged:
  assumes "0 < b" "rq_enqueued_at r + 2 * b \<le> now"
  shows "effective_priority b r now = 0"
proof -
  have "2 \<le> (now - rq_enqueued_at r) div b"
    using zdiv_mono1 [of "2 * b" "now - rq_enqueued_at r" b] assms by simp
  then have "2 \<le> go_div (now - rq_enqueued_at r) b" using assms by (simp add: go_div_nonneg)
  then show ?thesis using assms(1) by (auto simp: effective_priority_def Let_def)
qed

lemma effective_priority_antimono:
  assumes "rq_enqueued_at r \<le> now" "now \<le> later"
  shows "effective_priority b r later \<le> effective_priority b r now"
proof (cases "0 < b")
  case True
  have "go_div (now - rq_enqueued_at r) b \<le> go_div (later - rq_enqueued_at r) b"
    using assms True by (simp add: go_div_nonneg zdiv_mono1)
  then show ?thesis by (auto simp: effective_priority_def Let_def)
qed (simp add: effective_priority_def)

section \<open>Lists with one element removed\<close>

lemma remove_at_mset: "i < length xs \<Longrightarrow> add_mset (xs ! i) (mset (remove_at i xs)) = mset xs"
  by (induction i xs rule: remove_at.induct) auto

lemma remove_at_length [simp]: "i < length xs \<Longrightarrow> length (remove_at i xs) = length xs - 1"
  by (induction i xs rule: remove_at.induct) (auto simp: Suc_diff_Suc)

lemma remove_at_subset: "set (remove_at i xs) \<subseteq> set xs"
  by (induction i xs rule: remove_at.induct) auto

lemma remove_at_nth:
  "i < length xs \<Longrightarrow> j < length xs - 1 \<Longrightarrow> remove_at i xs ! j = (if j < i then xs ! j else xs ! Suc j)"
  by (induction i xs arbitrary: j rule: remove_at.induct) (auto simp: nth_Cons split: nat.splits)

lemma remove_at_filter:
  "i < length xs \<Longrightarrow> \<not> P (xs ! i) \<Longrightarrow> filter P (remove_at i xs) = filter P xs"
  by (induction i xs rule: remove_at.induct) auto

lemma find_index_Some:
  "find_index P xs = Some i \<Longrightarrow> i < length xs \<and> P (xs ! i)"
  by (induction xs arbitrary: i) (auto split: if_splits)

lemma find_index_None: "find_index P xs = None \<longleftrightarrow> (\<forall>x \<in> set xs. \<not> P x)"
  by (induction xs) auto

section \<open>The live requests\<close>

definition live_mset :: "(string \<times> node_queue) list \<Rightarrow> queue_request multiset" where
  "live_mset nodes = (\<Sum>x\<leftarrow>nodes. mset (queue_requests (snd x)))"

definition unique_mset :: "'a multiset \<Rightarrow> bool" where
  "unique_mset M \<longleftrightarrow> (\<forall>x. count M x \<le> 1)"

definition rq_key :: "queue_request \<Rightarrow> string \<times> string \<times> string" where
  "rq_key r = (rq_node r, rq_operation r, rq_volume r)"

lemma same_queue_request_key: "same_queue_request a b \<longleftrightarrow> rq_key a = rq_key b"
  by (auto simp: same_queue_request_def rq_key_def)

lemma unique_mset_subset: "unique_mset N \<Longrightarrow> M \<subseteq># N \<Longrightarrow> unique_mset M"
  unfolding unique_mset_def by (meson mset_subset_eq_count order_trans)

lemma unique_mset_add: "unique_mset (add_mset x M) \<longleftrightarrow> x \<notin># M \<and> unique_mset M"
proof
  assume u: "unique_mset (add_mset x M)"
  then have "count M x = 0" unfolding unique_mset_def
    by (metis One_nat_def Suc_le_mono count_add_mset le_zero_eq)
  with u show "x \<notin># M \<and> unique_mset M"
    by (metis not_in_iff unique_mset_subset mset_subset_eq_add_mset_cancel
        add_mset_remove_trivial diff_subset_eq_self)
next
  assume "x \<notin># M \<and> unique_mset M"
  then show "unique_mset (add_mset x M)" by (auto simp: unique_mset_def not_in_iff)
qed

lemma unique_mset_distinct:
  assumes "unique_mset (mset xs)"
  shows "distinct xs"
  using assms by (induction xs) (auto simp: unique_mset_add)

lemma unique_mset_empty [simp]: "unique_mset {#}"
  by (simp add: unique_mset_def)

lemma live_mset_Cons [simp]: "live_mset ((n, q) # nodes) = mset (queue_requests q) + live_mset nodes"
  by (simp add: live_mset_def)

lemma live_mset_Nil [simp]: "live_mset [] = {#}"
  by (simp add: live_mset_def)

lemma live_update_new:
  "map_of nodes n = None \<Longrightarrow>
   live_mset (AList.update n q nodes) = live_mset nodes + mset (queue_requests q)"
  by (induction nodes) (auto split: if_splits)

lemma live_update_old:
  "map_of nodes n = Some q \<Longrightarrow>
   live_mset (AList.update n q' nodes) + mset (queue_requests q) =
   live_mset nodes + mset (queue_requests q')"
  by (induction nodes) (auto split: if_splits)

lemma delete_absent: "map_of nodes n = None \<Longrightarrow> AList.delete n nodes = nodes"
  by (induction nodes) (auto split: if_splits)

lemma live_delete:
  "distinct (map fst nodes) \<Longrightarrow> map_of nodes n = Some q \<Longrightarrow>
   live_mset (AList.delete n nodes) + mset (queue_requests q) = live_mset nodes"
proof (induction nodes)
  case (Cons x nodes)
  then show ?case
    by (cases x) (auto simp: delete_absent map_of_eq_None_iff split: if_splits)
qed simp

lemma live_member:
  "r \<in># live_mset nodes \<Longrightarrow> distinct (map fst nodes) \<Longrightarrow>
   \<exists>n q. map_of nodes n = Some q \<and> r \<in> set (queue_requests q)"
proof (induction nodes)
  case (Cons x nodes)
  obtain n q where x: "x = (n, q)" by fastforce
  show ?case
  proof (cases "r \<in> set (queue_requests q)")
    case False
    then obtain n' q' where "map_of nodes n' = Some q'" "r \<in> set (queue_requests q')"
      using Cons x by auto
    moreover have "n' \<in> fst ` set nodes" using map_of_SomeD [OF calculation(1)] by force
    moreover have "n' \<noteq> n" using Cons.prems(2) x \<open>n' \<in> fst ` set nodes\<close> by auto
    ultimately show ?thesis using x by auto
  qed (use x in auto)
qed simp

lemma live_contains: "map_of nodes n = Some q \<Longrightarrow> mset (queue_requests q) \<subseteq># live_mset nodes"
proof (induction nodes)
  case (Cons x nodes)
  then show ?case by (cases x) (auto split: if_splits intro: subset_mset.add_increasing)
qed simp

lemma live_contains_two:
  "map_of nodes n = Some q \<Longrightarrow> map_of nodes n' = Some q' \<Longrightarrow> n \<noteq> n' \<Longrightarrow>
   mset (queue_requests q) + mset (queue_requests q') \<subseteq># live_mset nodes"
proof (induction nodes)
  case (Cons x nodes)
  obtain k w where x: "x = (k, w)" by fastforce
  show ?case
    using Cons live_contains [of nodes n q] live_contains [of nodes n' q']
    by (auto simp: x split: if_splits intro: subset_mset.add_increasing)
qed simp

lemma unique_ids:
  assumes "unique_mset (image_mset rq_id (live_mset nodes))" "map_of nodes n = Some q"
  shows "distinct (map rq_id (queue_requests q))"
proof -
  have "image_mset rq_id (mset (queue_requests q)) \<subseteq># image_mset rq_id (live_mset nodes)"
    by (rule image_mset_subseteq_mono [OF live_contains [OF assms(2)]])
  from unique_mset_subset [OF assms(1) this] show ?thesis by (simp add: unique_mset_distinct)
qed

lemma unique_ids_two:
  assumes "unique_mset (image_mset rq_id (live_mset nodes))"
    and "map_of nodes n = Some q" "map_of nodes n' = Some q'" "n \<noteq> n'"
    and "r \<in> set (queue_requests q)" "r' \<in> set (queue_requests q')"
  shows "rq_id r \<noteq> rq_id r'"
proof
  assume eq: "rq_id r = rq_id r'"
  have "{#r#} + {#r'#} \<subseteq># mset (queue_requests q) + mset (queue_requests q')"
    using assms(5,6) by (intro subset_mset.add_mono) (simp_all add: mset_subset_eq_single)
  then have "{#r#} + {#r'#} \<subseteq># live_mset nodes"
    using live_contains_two [OF assms(2-4)] by (rule subset_mset.trans)
  from unique_mset_subset [OF assms(1) image_mset_subseteq_mono [OF this]] eq show False
    by (auto simp: unique_mset_def dest: spec [of _ "rq_id r'"])
qed

section \<open>The queue invariant\<close>

definition worker_at :: "(string \<times> worker_phase) list \<Rightarrow> string \<Rightarrow> (string \<times> worker_phase) list" where
  "worker_at ws n = filter (\<lambda>w. fst w = n) ws"

definition node_ok :: "queue_manager \<Rightarrow> string \<Rightarrow> node_queue \<Rightarrow> worker_phase \<Rightarrow> bool" where
  "node_ok m n q ph \<longleftrightarrow>
     nq_running q \<and> nq_active q = phase_request ph \<and> (\<forall>r \<in> set (queue_requests q). rq_node r = n) \<and>
     (\<forall>r \<in> set (nq_pending q). qm_done m (rq_id r) = None \<and> \<not> qm_started m (rq_id r)) \<and>
     (case ph of WNext \<Rightarrow> True
      | WRun r \<Rightarrow> qm_done m (rq_id r) = None \<and> qm_started m (rq_id r)
      | WDone r \<Rightarrow> qm_done m (rq_id r) \<noteq> None \<and> qm_started m (rq_id r))"

definition nodes_ok :: "queue_manager \<Rightarrow> (string \<times> worker_phase) list \<Rightarrow> bool" where
  "nodes_ok m ws \<longleftrightarrow> distinct (map fst (qm_nodes m)) \<and>
     (\<forall>n. case node_queue_of m n of
            None \<Rightarrow> worker_at ws n = []
          | Some q \<Rightarrow> \<exists>ph. worker_at ws n = [(n, ph)] \<and> node_ok m n q ph)"

definition ids_ok :: "queue_manager \<Rightarrow> bool" where
  "ids_ok m \<longleftrightarrow> unique_mset (image_mset rq_id (live_mset (qm_nodes m))) \<and>
     (\<forall>r \<in># live_mset (qm_nodes m). rq_id r \<le> qm_seq m) \<and>
     (\<forall>i. qm_seq m < i \<longrightarrow> qm_done m i = None \<and> \<not> qm_started m i)"

definition dedupe_ok :: "queue_manager \<Rightarrow> bool" where
  "dedupe_ok m \<longleftrightarrow>
     (qc_dedupe (qm_config m) \<longrightarrow> unique_mset (image_mset rq_key (live_mset (qm_nodes m))))"

definition live_id :: "queue_manager \<Rightarrow> nat \<Rightarrow> bool" where
  "live_id m i \<longleftrightarrow> i \<in># image_mset rq_id (live_mset (qm_nodes m))"

definition caller_ok :: "queue_manager \<Rightarrow> nat list \<Rightarrow> queue_caller \<Rightarrow> bool" where
  "caller_ok m runs c \<longleftrightarrow>
     (let i = rq_id (cl_request c)
      in i \<le> qm_seq m \<and> (live_id m i \<or> qm_done m i \<noteq> None) \<and>
         (case cl_phase c of
            CReturned err \<Rightarrow> qm_done m i = Some err \<or> cl_coalesced c \<and> err = Some (caller_timeout c)
          | CCancelled err \<Rightarrow> i \<notin> set runs \<and> (\<exists>e. qm_done m i = Some (Some e))
          | CAwaitDone \<Rightarrow> True
          | CWait \<Rightarrow> True))"

definition ran_ok :: "queue_manager \<Rightarrow> nat list \<Rightarrow> bool" where
  "ran_ok m runs \<longleftrightarrow> distinct runs \<and> (\<forall>i \<in> set runs. qm_done m i \<noteq> None)"

definition queue_inv :: "queue_system \<Rightarrow> bool" where
  "queue_inv s \<longleftrightarrow>
     nodes_ok (qs_manager s) (qs_workers s) \<and> ids_ok (qs_manager s) \<and> dedupe_ok (qs_manager s) \<and>
     (\<forall>c \<in> set (qs_callers s). caller_ok (qs_manager s) (qs_ran s) c) \<and>
     ran_ok (qs_manager s) (qs_ran s)"

lemmas queue_inv_parts = queue_inv_def nodes_ok_def ids_ok_def dedupe_ok_def ran_ok_def

text \<open>Two managers that agree on the requests of a queue agree on its state.\<close>

lemma node_ok_cong:
  assumes "\<And>r. r \<in> set (queue_requests q) \<Longrightarrow> qm_done m' (rq_id r) = qm_done m (rq_id r)"
    and "\<And>r. r \<in> set (queue_requests q) \<Longrightarrow> qm_started m' (rq_id r) = qm_started m (rq_id r)"
    and "node_ok m n q ph"
  shows "node_ok m' n q ph"
  using assms by (cases ph) (auto simp: node_ok_def queue_requests_def)

text \<open>A step that changes the queue, the worker and the request states of one node
  leaves every other node as it was.\<close>

lemma nodes_ok_update:
  assumes ok: "nodes_ok m ws" and ids: "ids_ok m"
    and nodes: "qm_nodes m' = AList.update n q' (qm_nodes m)"
    and ws: "worker_at ws' n = [(n, ph')]" "\<And>k. k \<noteq> n \<Longrightarrow> worker_at ws' k = worker_at ws k"
    and same: "\<And>k q r. k \<noteq> n \<Longrightarrow> node_queue_of m k = Some q \<Longrightarrow> r \<in> set (queue_requests q) \<Longrightarrow>
       qm_done m' (rq_id r) = qm_done m (rq_id r) \<and> qm_started m' (rq_id r) = qm_started m (rq_id r)"
    and new: "node_ok m' n q' ph'"
  shows "nodes_ok m' ws'"
proof -
  have "case node_queue_of m' k of None \<Rightarrow> worker_at ws' k = []
      | Some q \<Rightarrow> \<exists>ph. worker_at ws' k = [(k, ph)] \<and> node_ok m' k q ph" for k
  proof (cases "k = n")
    case True
    then show ?thesis using ws(1) new by (simp add: node_queue_of_def nodes update_conv')
  next
    case False
    then have look: "node_queue_of m' k = node_queue_of m k"
      by (simp add: node_queue_of_def nodes update_conv')
    have "case node_queue_of m k of None \<Rightarrow> worker_at ws k = []
        | Some q \<Rightarrow> \<exists>ph. worker_at ws k = [(k, ph)] \<and> node_ok m k q ph"
      using ok by (simp add: nodes_ok_def)
    then show ?thesis
      using False ws(2) same [OF False] unfolding look
      by (auto split: option.splits intro!: node_ok_cong [of _ m' m])
  qed
  then show ?thesis
    using ok unfolding nodes_ok_def by (simp add: nodes distinct_update)
qed

lemma nodes_ok_delete:
  assumes ok: "nodes_ok m ws"
    and nodes: "qm_nodes m' = AList.delete n (qm_nodes m)"
    and same: "qm_done m' = qm_done m" "qm_started m' = qm_started m"
    and ws: "worker_at ws' n = []" "\<And>k. k \<noteq> n \<Longrightarrow> worker_at ws' k = worker_at ws k"
  shows "nodes_ok m' ws'"
proof -
  have "case node_queue_of m' k of None \<Rightarrow> worker_at ws' k = []
      | Some q \<Rightarrow> \<exists>ph. worker_at ws' k = [(k, ph)] \<and> node_ok m' k q ph" for k
  proof (cases "k = n")
    case False
    then have look: "node_queue_of m' k = node_queue_of m k"
      by (simp add: node_queue_of_def nodes delete_conv')
    have "case node_queue_of m k of None \<Rightarrow> worker_at ws k = []
        | Some q \<Rightarrow> \<exists>ph. worker_at ws k = [(k, ph)] \<and> node_ok m k q ph"
      using ok by (simp add: nodes_ok_def)
    then show ?thesis
      using False ws(2) same unfolding look
      by (auto split: option.splits intro!: node_ok_cong [of _ m' m])
  qed (use ws(1) in \<open>simp add: node_queue_of_def nodes delete_conv'\<close>)
  then show ?thesis
    using ok unfolding nodes_ok_def by (simp add: nodes distinct_delete)
qed

lemma caller_ok_mono:
  assumes "caller_ok m runs c" "qm_seq m \<le> qm_seq m'"
    and "\<And>i e. qm_done m i = Some e \<Longrightarrow> qm_done m' i = Some e"
    and "\<And>i. qm_started m i \<Longrightarrow> qm_started m' i"
    and "\<And>i. live_id m i \<Longrightarrow> live_id m' i \<or> qm_done m' i \<noteq> None"
    and "\<And>i. i \<in> set runs' \<Longrightarrow> i \<in> set runs \<or> qm_done m i = None"
  shows "caller_ok m' runs' c"
proof -
  let ?i = "rq_id (cl_request c)"
  have ok: "?i \<le> qm_seq m" "live_id m ?i \<or> qm_done m ?i \<noteq> None"
    using assms(1) by (simp_all add: caller_ok_def Let_def)
  have "live_id m' ?i \<or> qm_done m' ?i \<noteq> None"
    using ok(2) assms(3) [of ?i] assms(5) [of ?i] by (cases "qm_done m ?i") auto
  moreover have "?i \<le> qm_seq m'" using ok(1) assms(2) by simp
  moreover have "case cl_phase c of
            CReturned err \<Rightarrow> qm_done m' ?i = Some err \<or> cl_coalesced c \<and> err = Some (caller_timeout c)
          | CCancelled err \<Rightarrow> ?i \<notin> set runs' \<and> (\<exists>e. qm_done m' ?i = Some (Some e))
          | CAwaitDone \<Rightarrow> True
          | CWait \<Rightarrow> True"
    using assms(1) assms(3) [of ?i] assms(4) [of ?i] assms(6) [of ?i] unfolding caller_ok_def Let_def
    by (cases "cl_phase c"; cases "qm_done m ?i") auto
  ultimately show ?thesis by (simp add: caller_ok_def Let_def)
qed

lemma live_id_member:
  assumes "nodes_ok m ws" "live_id m i"
  shows "\<exists>n q r. node_queue_of m n = Some q \<and> r \<in> set (queue_requests q) \<and> rq_id r = i"
proof -
  obtain r where r: "r \<in># live_mset (qm_nodes m)" "rq_id r = i"
    using assms(2) by (auto simp: live_id_def)
  have "distinct (map fst (qm_nodes m))" using assms(1) by (simp add: nodes_ok_def)
  from live_member [OF r(1) this] r(2) show ?thesis by (auto simp: node_queue_of_def)
qed

lemma live_idI: "node_queue_of m n = Some q \<Longrightarrow> r \<in> set (queue_requests q) \<Longrightarrow> live_id m (rq_id r)"
  using live_contains [of "qm_nodes m" n q]
  by (simp add: live_id_def node_queue_of_def) (metis mset_subset_eqD rev_image_eqI set_mset_mset)

lemma nodes_okD:
  assumes "nodes_ok m ws" "node_queue_of m n = Some q"
  shows "\<exists>ph. worker_at ws n = [(n, ph)] \<and> node_ok m n q ph"
  using assms by (auto simp: nodes_ok_def dest: spec [of _ n])

lemma nodes_okD_none:
  "nodes_ok m ws \<Longrightarrow> node_queue_of m n = None \<Longrightarrow> worker_at ws n = []"
  by (auto simp: nodes_ok_def dest: spec [of _ n])

lemma live_fresh:
  assumes "ids_ok m" "node_queue_of m n = Some q" "r \<in> set (queue_requests q)" "qm_seq m < i"
  shows "rq_id r \<noteq> i"
proof -
  have "r \<in># live_mset (qm_nodes m)"
    using live_contains [of "qm_nodes m" n q] assms(2,3)
    by (simp add: node_queue_of_def mset_subset_eqD)
  then show ?thesis using assms(1,4) by (auto simp: ids_ok_def)
qed

lemma find_duplicate_Some:
  "find_duplicate_request q r = Some d \<Longrightarrow> d \<in> set (queue_requests q) \<and> rq_key d = rq_key r"
  by (auto simp: find_duplicate_request_def queue_requests_def same_queue_request_key
      find_Some_iff split: option.splits if_splits)

lemma same_queue_request_wait_limit [simp]:
  "same_queue_request a (r\<lparr>rq_wait_limit := w\<rparr>) = same_queue_request a r"
  by (simp add: same_queue_request_def)

lemma find_duplicate_wait_limit [simp]:
  "find_duplicate_request q (r\<lparr>rq_wait_limit := w\<rparr>) = find_duplicate_request q r"
  by (simp add: find_duplicate_request_def split: option.split)

lemma find_duplicate_None:
  "find_duplicate_request q r = None \<Longrightarrow> d \<in> set (queue_requests q) \<Longrightarrow> rq_key d \<noteq> rq_key r"
  by (auto simp: find_duplicate_request_def queue_requests_def same_queue_request_key find_None_iff
      split: option.splits if_splits)

section \<open>Calls keep the invariant\<close>

lemma node_queue_of_simps [simp]:
  "node_queue_of (m\<lparr>qm_seq := i\<rparr>) n = node_queue_of m n"
  "node_queue_of (m\<lparr>qm_started := f\<rparr>) n = node_queue_of m n"
  "node_queue_of (m\<lparr>qm_done := g\<rparr>) n = node_queue_of m n"
  "node_queue_of (m\<lparr>qm_coalesced := h\<rparr>) n = node_queue_of m n"
  by (simp_all add: node_queue_of_def)

lemma worker_at_append: "worker_at (ws @ [(n, ph)]) k = worker_at ws k @ (if k = n then [(n, ph)] else [])"
  by (auto simp: worker_at_def)

lemma queue_requests_pending:
  "queue_requests (q\<lparr>nq_pending := nq_pending q @ [r], nq_running := b\<rparr>) = queue_requests q @ [r]"
  by (auto simp: queue_requests_def split: option.splits)

lemma enqueue_fresh_ok:
  assumes ok: "nodes_ok m ws" and ids: "ids_ok m" and ded: "dedupe_ok m"
    and q: "q = (case node_queue_of m n of Some q \<Rightarrow> q | None \<Rightarrow> empty_node_queue)"
    and dup: "qc_dedupe (qm_config m) \<Longrightarrow> find_duplicate_request q r = None"
    and r: "rq_node r = n" "rq_id r = qm_seq m'"
    and m': "qm_nodes m' = AList.update n (q\<lparr>nq_pending := nq_pending q @ [r], nq_running := True\<rparr>) (qm_nodes m)"
      "qm_done m' = qm_done m" "qm_started m' = qm_started m" "qm_seq m' = Suc (qm_seq m)"
      "qm_config m' = qm_config m"
    and ws': "ws' = (if nq_running q then ws else ws @ [(n, WNext)])"
  shows "nodes_ok m' ws' \<and> ids_ok m' \<and> dedupe_ok m' \<and>
         live_mset (qm_nodes m') = add_mset r (live_mset (qm_nodes m))"
proof -
  let ?q' = "q\<lparr>nq_pending := nq_pending q @ [r], nq_running := True\<rparr>"
  have new: "qm_done m (rq_id r) = None" "\<not> qm_started m (rq_id r)"
    using ids r m'(4) by (simp_all add: ids_ok_def)
  have live: "live_mset (qm_nodes m') = add_mset r (live_mset (qm_nodes m))"
  proof (cases "node_queue_of m n")
    case None
    then have "queue_requests ?q' = [r]" using q by (simp add: queue_requests_def empty_node_queue_def)
    then show ?thesis
      using live_update_new [of "qm_nodes m" n ?q'] None m'(1) by (simp add: node_queue_of_def)
  next
    case (Some q0)
    then have "live_mset (qm_nodes m') + mset (queue_requests q) = add_mset r (live_mset (qm_nodes m)) + mset (queue_requests q)"
      using live_update_old [of "qm_nodes m" n q ?q'] q m'(1)
      by (simp add: node_queue_of_def queue_requests_pending)
    then show ?thesis by simp
  qed
  have "\<exists>ph. worker_at ws' n = [(n, ph)] \<and> node_ok m' n ?q' ph"
  proof (cases "node_queue_of m n")
    case None
    then have qe: "q = empty_node_queue" using q by simp
    have "worker_at ws' n = [(n, WNext)]"
      using nodes_okD_none [OF ok None] qe by (simp add: ws' worker_at_append empty_node_queue_def)
    moreover have "node_ok m' n ?q' WNext"
      using qe r new m' by (simp add: node_ok_def empty_node_queue_def queue_requests_def)
    ultimately show ?thesis by blast
  next
    case (Some q0)
    then have q0: "q0 = q" using q by simp
    obtain ph where ph: "worker_at ws n = [(n, ph)]" "node_ok m n q ph"
      using nodes_okD [OF ok Some] q0 by blast
    have "node_ok m' n ?q' ph"
      using ph(2) r new m' by (cases ph) (auto simp: node_ok_def queue_requests_def)
    moreover have "ws' = ws" using ph(2) by (simp add: ws' node_ok_def)
    ultimately show ?thesis using ph(1) by blast
  qed
  then obtain ph where ph: "worker_at ws' n = [(n, ph)]" "node_ok m' n ?q' ph" by blast
  have "nodes_ok m' ws'"
    by (rule nodes_ok_update [OF ok ids m'(1) ph(1) _ _ ph(2)])
      (auto simp: ws' worker_at_append m')
  moreover have "rq_id r \<notin># image_mset rq_id (live_mset (qm_nodes m))"
    using ids r m'(4) by (auto simp: ids_ok_def)
  then have "ids_ok m'"
    using ids r m' live by (auto simp: ids_ok_def unique_mset_add le_SucI)
  moreover have "dedupe_ok m'"
  proof -
    have "rq_key r \<noteq> rq_key d" if dd: "qc_dedupe (qm_config m)" and d: "d \<in># live_mset (qm_nodes m)" for d
    proof -
      obtain k qk where k: "node_queue_of m k = Some qk" "d \<in> set (queue_requests qk)"
        using live_member [OF d] ok by (auto simp: nodes_ok_def node_queue_of_def)
      have "rq_node d = k" using nodes_okD [OF ok k(1)] k(2) by (auto simp: node_ok_def)
      show ?thesis
      proof (cases "k = n")
        case True
        then have "d \<in> set (queue_requests q)" using k q by simp
        from find_duplicate_None [OF dup [OF dd] this] show ?thesis by simp
      qed (use \<open>rq_node d = k\<close> r(1) in \<open>auto simp: rq_key_def\<close>)
    qed
    then show ?thesis
      using ded m'(5) live by (auto simp: dedupe_ok_def unique_mset_add)
  qed
  ultimately show ?thesis using live by blast
qed

lemma enqueue_joined_ok:
  assumes ok: "nodes_ok m ws" and ids: "ids_ok m" and ded: "dedupe_ok m"
    and q: "node_queue_of m n = Some q"
    and m': "qm_nodes m' = AList.update n q (qm_nodes m)"
      "qm_done m' = qm_done m" "qm_started m' = qm_started m" "qm_seq m' = Suc (qm_seq m)"
      "qm_config m' = qm_config m"
  shows "nodes_ok m' ws \<and> ids_ok m' \<and> dedupe_ok m' \<and> live_mset (qm_nodes m') = live_mset (qm_nodes m)"
proof -
  have live: "live_mset (qm_nodes m') = live_mset (qm_nodes m)"
    using live_update_old [of "qm_nodes m" n q q] q m'(1) by (simp add: node_queue_of_def)
  obtain ph where ph: "worker_at ws n = [(n, ph)]" "node_ok m n q ph"
    using nodes_okD [OF ok q] by blast
  then have "node_ok m' n q ph" by (auto intro!: node_ok_cong [of _ m' m] simp: m')
  then have "nodes_ok m' ws"
    by (intro nodes_ok_update [OF ok ids m'(1) ph(1)]) (auto simp: m')
  then show ?thesis
    using ids ded live m' by (auto simp: ids_ok_def dedupe_ok_def le_SucI)
qed

lemma call_run_inv:
  assumes inv: "queue_inv s"
  shows "queue_inv (call_run n op vol prio now s)"
proof -
  let ?m = "qs_manager s"
  define m1 where "m1 = ?m\<lparr>qm_seq := Suc (qm_seq ?m)\<rparr>"
  define r where "r = new_request (qm_seq m1) n op vol prio now"
  define q where "q = (case node_queue_of ?m n of Some q \<Rightarrow> q | None \<Rightarrow> empty_node_queue)"
  have rn: "rq_node r = n" "rq_id r = Suc (qm_seq ?m)" by (simp_all add: r_def new_request_def m1_def)
  note parts = inv [unfolded queue_inv_def]
  define e where "e = enqueue m1 r"
  have call: "call_run n op vol prio now s = s\<lparr>qs_manager := er_manager e,
      qs_workers := (if er_start e then qs_workers s @ [(n, WNext)] else qs_workers s),
      qs_callers := qs_callers s @ [\<lparr>cl_request = er_request e, cl_coalesced = er_coalesced e, cl_phase = CWait\<rparr>]\<rparr>"
    by (simp add: call_run_def Let_def e_def m1_def r_def)
  show ?thesis
  proof (cases "if qc_dedupe (qm_config ?m) then find_duplicate_request q r else None")
    case (Some d)
    then have dup: "find_duplicate_request q r = Some d" by (simp split: if_splits)
    then have d: "d \<in> set (queue_requests q)" using find_duplicate_Some by blast
    then have qs: "node_queue_of ?m n = Some q"
      by (cases "node_queue_of ?m n") (auto simp: q_def empty_node_queue_def queue_requests_def)
    have e: "qm_nodes (er_manager e) = AList.update n q (qm_nodes ?m)" "qm_done (er_manager e) = qm_done ?m"
      "qm_started (er_manager e) = qm_started ?m" "qm_seq (er_manager e) = Suc (qm_seq ?m)"
      "qm_config (er_manager e) = qm_config ?m" "er_request e = d" "er_start e = False"
      using Some qs rn by (auto simp: e_def enqueue_def Let_def set_node_queue_def m1_def split: if_splits)
    have ok: "nodes_ok (er_manager e) (qs_workers s) \<and> ids_ok (er_manager e) \<and> dedupe_ok (er_manager e) \<and>
        live_mset (qm_nodes (er_manager e)) = live_mset (qm_nodes ?m)"
      by (rule enqueue_joined_ok [OF _ _ _ qs e(1-5)]) (use parts in auto)
    have "caller_ok (er_manager e) (qs_ran s) c" if "c \<in> set (qs_callers s)" for c
      by (rule caller_ok_mono [of ?m "qs_ran s"]) (use parts ok e that in \<open>auto simp: live_id_def\<close>)
    moreover have "live_id ?m (rq_id d)" by (rule live_idI [OF qs d])
    moreover have "rq_id d \<le> qm_seq ?m"
      using live_fresh [of ?m n q d "rq_id d"] parts qs d by force
    ultimately show ?thesis
      using parts ok e unfolding queue_inv_def call
      by (auto simp: caller_ok_def live_id_def ran_ok_def)
  next
    case None
    define r' where "r' = r\<lparr>rq_wait_limit := effective_wait_limit (qm_config ?m) q\<rparr>"
    have e: "qm_nodes (er_manager e) = AList.update n (q\<lparr>nq_pending := nq_pending q @ [r'], nq_running := True\<rparr>) (qm_nodes ?m)"
      "qm_done (er_manager e) = qm_done ?m" "qm_started (er_manager e) = qm_started ?m"
      "qm_seq (er_manager e) = Suc (qm_seq ?m)" "qm_config (er_manager e) = qm_config ?m"
      "er_request e = r'" "er_start e = (\<not> nq_running q)"
      using None rn
      by (auto simp: e_def enqueue_def Let_def set_node_queue_def m1_def r'_def q_def split: if_splits)
    have r': "rq_node r' = n" "rq_id r' = qm_seq (er_manager e)" using rn e(4) by (simp_all add: r'_def)
    have dup: "qc_dedupe (qm_config ?m) \<Longrightarrow> find_duplicate_request q r' = None"
      using None by (auto simp: r'_def)
    have ok: "nodes_ok (er_manager e) (if nq_running q then qs_workers s else qs_workers s @ [(n, WNext)]) \<and>
        ids_ok (er_manager e) \<and> dedupe_ok (er_manager e) \<and>
        live_mset (qm_nodes (er_manager e)) = add_mset r' (live_mset (qm_nodes ?m))"
      by (rule enqueue_fresh_ok [OF _ _ _ q_def dup r' e(1-5) refl]) (use parts in auto)
    have "caller_ok (er_manager e) (qs_ran s) c" if "c \<in> set (qs_callers s)" for c
      by (rule caller_ok_mono [of ?m "qs_ran s"]) (use parts ok e that in \<open>auto simp: live_id_def\<close>)
    then show ?thesis
      using parts ok e r' unfolding queue_inv_def call
      by (auto simp: caller_ok_def live_id_def ran_ok_def)
  qed
qed

section \<open>Worker steps keep the invariant\<close>

lemma remove_at_take_drop: "i < length xs \<Longrightarrow> remove_at i xs = take i xs @ drop (Suc i) xs"
  by (induction i xs rule: remove_at.induct) auto

lemma worker_position:
  assumes "worker_at ws n = [(n, ph)]" "i < length ws" "fst (ws ! i) = n"
  shows "snd (ws ! i) = ph" "worker_at (ws[i := (n, ph')]) n = [(n, ph')]" "worker_at (remove_at i ws) n = []"
    and "k \<noteq> n \<Longrightarrow> worker_at (ws[i := (n, ph')]) k = worker_at ws k"
    and "k \<noteq> n \<Longrightarrow> worker_at (remove_at i ws) k = worker_at ws k"
proof -
  have split: "worker_at ws k = worker_at (take i ws) k @ worker_at [ws ! i] k @ worker_at (drop (Suc i) ws) k" for k
    unfolding worker_at_def filter_append [symmetric]
    using id_take_nth_drop [OF assms(2)] by simp
  have here: "worker_at [ws ! i] n = [ws ! i]" using assms(3) by (simp add: worker_at_def)
  have rest: "worker_at (take i ws) n = []" "worker_at (drop (Suc i) ws) n = []" "ws ! i = (n, ph)"
    using split [of n] unfolding here assms(1) by (auto simp: Cons_eq_append_conv)
  show "snd (ws ! i) = ph" using rest(3) by simp
  show "worker_at (ws[i := (n, ph')]) n = [(n, ph')]"
    using assms(2) rest by (simp add: upd_conv_take_nth_drop worker_at_def)
  show "worker_at (remove_at i ws) n = []"
    using assms(2) rest by (simp add: remove_at_take_drop worker_at_def)
  assume k: "k \<noteq> n"
  then have none: "worker_at [ws ! i] k = []" using assms(3) by (simp add: worker_at_def)
  show "worker_at (ws[i := (n, ph')]) k = worker_at ws k"
    using assms(2) k split [of k] none by (simp add: upd_conv_take_nth_drop worker_at_def)
  show "worker_at (remove_at i ws) k = worker_at ws k"
    using assms(2) split [of k] none by (simp add: remove_at_take_drop worker_at_def)
qed

lemma worker_node:
  assumes ok: "nodes_ok m ws" and i: "i < length ws" "ws ! i = (n, ph)"
  shows "\<exists>q. node_queue_of m n = Some q \<and> worker_at ws n = [(n, ph)] \<and> node_ok m n q ph"
proof -
  have "ws ! i \<in> set (worker_at ws n)" using i nth_mem [OF i(1)] by (simp add: worker_at_def)
  then obtain q where q: "node_queue_of m n = Some q"
    using nodes_okD_none [OF ok, of n] by (cases "node_queue_of m n") auto
  then obtain ph' where ph': "worker_at ws n = [(n, ph')]" "node_ok m n q ph'"
    using nodes_okD [OF ok] by blast
  then show ?thesis using worker_position(1) [OF ph'(1) i(1)] i(2) q by auto
qed

text \<open>The effect of a step on the live requests, given as the requests of the one
  queue that changes.\<close>

lemma live_set_node_queue:
  assumes "node_queue_of m n = Some q"
  shows "live_mset (qm_nodes (set_node_queue n q' m)) + mset (queue_requests q) =
         live_mset (qm_nodes m) + mset (queue_requests q')"
  using assms live_update_old [of "qm_nodes m" n q q'] by (simp add: node_queue_of_def set_node_queue_def)

lemma live_other_node:
  assumes "ids_ok m" "node_queue_of m n = Some q" "r \<in> set (queue_requests q)"
    and "k \<noteq> n" "node_queue_of m k = Some qk" "r' \<in> set (queue_requests qk)"
  shows "rq_id r' \<noteq> rq_id r"
  using unique_ids_two [of "qm_nodes m" k qk n q r' r] assms
  by (simp add: ids_ok_def node_queue_of_def)

lemma live_same_node:
  assumes "ids_ok m" "node_queue_of m n = Some q"
  shows "distinct (map rq_id (queue_requests q))"
  using unique_ids [of "qm_nodes m" n q] assms by (simp add: ids_ok_def node_queue_of_def)

lemma ids_ok_same:
  assumes "ids_ok m" "image_mset rq_id (live_mset (qm_nodes m')) = image_mset rq_id (live_mset (qm_nodes m))"
    and "qm_seq m' = qm_seq m" "\<And>i. qm_seq m < i \<Longrightarrow> qm_done m' i = qm_done m i \<and> qm_started m' i = qm_started m i"
  shows "ids_ok m'"
proof -
  have "rq_id r \<le> qm_seq m" if "r \<in># live_mset (qm_nodes m')" for r
  proof -
    have "rq_id r \<in># image_mset rq_id (live_mset (qm_nodes m))" using that assms(2) by (metis imageI set_image_mset)
    then show ?thesis using assms(1) by (auto simp: ids_ok_def)
  qed
  then show ?thesis using assms by (auto simp: ids_ok_def)
qed

lemma worker_next_inv:
  assumes inv: "queue_inv s" and i: "i < length (qs_workers s)" "snd (qs_workers s ! i) = WNext"
  shows "queue_inv (worker_next i now s)"
proof -
  let ?m = "qs_manager s" and ?ws = "qs_workers s"
  note parts = inv [unfolded queue_inv_def]
  obtain n where n: "?ws ! i = (n, WNext)" using i(2) by (metis prod.collapse)
  obtain q where q: "node_queue_of ?m n = Some q" "worker_at ?ws n = [(n, WNext)]" "node_ok ?m n q WNext"
    using worker_node [OF _ i(1) n] parts by blast
  have act: "nq_active q = None" using q(3) by (simp add: node_ok_def)
  note pos = worker_position [OF q(2) i(1)]
  show ?thesis
  proof (cases "nq_pending q = []")
    case True
    let ?m' = "?m\<lparr>qm_nodes := AList.delete n (qm_nodes ?m)\<rparr>"
    have live: "live_mset (AList.delete n (qm_nodes ?m)) = live_mset (qm_nodes ?m)"
      using live_delete [of "qm_nodes ?m" n q] q(1) parts True act
      by (simp add: nodes_ok_def node_queue_of_def queue_requests_def)
    have s': "worker_next i now s = s\<lparr>qs_manager := ?m', qs_workers := remove_at i ?ws\<rparr>"
      using True q(1) n by (simp add: worker_next_def next_request_def Let_def)
    have "nodes_ok ?m' (remove_at i ?ws)"
      by (rule nodes_ok_delete [of ?m ?ws]) (use parts pos n in auto)
    moreover have "caller_ok ?m' (qs_ran s) c" if "c \<in> set (qs_callers s)" for c
      by (rule caller_ok_mono [of ?m "qs_ran s"]) (use parts live that in \<open>auto simp: live_id_def\<close>)
    ultimately show ?thesis
      using parts live unfolding s' queue_inv_def by (auto simp: ids_ok_def dedupe_ok_def ran_ok_def)
  next
    case False
    define idx where "idx = select_index (\<lambda>r. effective_priority (qc_age_boost (qm_config ?m)) r now) (nq_pending q)"
    have idx: "idx < length (nq_pending q)" unfolding idx_def by (rule select_index_spec(1) [OF False])
    define r0 where "r0 = nq_pending q ! idx"
    define r where "r = r0\<lparr>rq_started_at := now\<rparr>"
    define q' where "q' = q\<lparr>nq_pending := remove_at idx (nq_pending q), nq_active := Some r\<rparr>"
    define m' where "m' = (set_node_queue n q' ?m)\<lparr>qm_started := (qm_started ?m)(rq_id r := True)\<rparr>"
    have s': "worker_next i now s = s\<lparr>qs_manager := m', qs_workers := ?ws[i := (n, WRun r)]\<rparr>"
      using False q(1) n
      by (simp add: worker_next_def next_request_def Let_def m'_def q'_def r_def r0_def idx_def set_node_queue_def)
    have r0: "r0 \<in> set (nq_pending q)" unfolding r0_def using idx by simp
    have rid: "rq_id r = rq_id r0" "rq_key r = rq_key r0" by (simp_all add: r_def rq_key_def)
    have req: "queue_requests q = nq_pending q" "queue_requests q' = r # remove_at idx (nq_pending q)"
      using act by (simp_all add: queue_requests_def q'_def)
    have pend: "mset (nq_pending q) = add_mset r0 (mset (remove_at idx (nq_pending q)))"
      unfolding r0_def using remove_at_mset [OF idx] by simp
    have live0: "live_mset (qm_nodes m') + {#r0#} = live_mset (qm_nodes ?m) + {#r#}"
      using live_set_node_queue [OF q(1), of q'] unfolding req pend by (simp add: m'_def)
    have lids: "image_mset rq_id (live_mset (qm_nodes m')) = image_mset rq_id (live_mset (qm_nodes ?m))"
      using arg_cong [OF live0, of "image_mset rq_id"] rid by simp
    have lkeys: "image_mset rq_key (live_mset (qm_nodes m')) = image_mset rq_key (live_mset (qm_nodes ?m))"
      using arg_cong [OF live0, of "image_mset rq_key"] rid by simp
    have r0live: "r0 \<in> set (queue_requests q)" using r0 req by simp
    have idsok: "ids_ok ?m" using parts by simp
    have rseq: "rq_id r0 \<le> qm_seq ?m"
      using live_fresh [OF idsok q(1) r0live, of "rq_id r0"] by force
    have "distinct (map rq_id (nq_pending q))" using live_same_node [OF idsok q(1)] req by simp
    then have "distinct (map rq_id (r0 # remove_at idx (nq_pending q)))"
      using mset_eq_imp_distinct_iff [of "map rq_id (nq_pending q)" "map rq_id (r0 # remove_at idx (nq_pending q))"] pend
      by simp
    then have other: "rq_id r' \<noteq> rq_id r0" if "r' \<in> set (remove_at idx (nq_pending q))" for r'
      using that by (metis distinct.simps(2) image_eqI list.simps(9) list.set_map)
    have new: "node_ok m' n q' (WRun r)"
      using q(3) r0 other remove_at_subset [of idx "nq_pending q"] rid req
      by (auto simp: node_ok_def m'_def q'_def set_node_queue_def r_def)
    have nodes': "qm_nodes m' = AList.update n q' (qm_nodes ?m)" by (simp add: m'_def set_node_queue_def)
    have "nodes_ok m' (?ws[i := (n, WRun r)])"
      by (rule nodes_ok_update [OF _ idsok nodes' pos(2) pos(4) _ new])
        (use parts n live_other_node [OF idsok q(1) r0live] rid in \<open>auto simp: m'_def set_node_queue_def\<close>)
    moreover have "ids_ok m'"
      by (rule ids_ok_same [OF idsok lids]) (use rseq rid in \<open>auto simp: m'_def set_node_queue_def\<close>)
    moreover have "caller_ok m' (qs_ran s) c" if "c \<in> set (qs_callers s)" for c
      by (rule caller_ok_mono [of ?m "qs_ran s"])
        (use parts lids that in \<open>auto simp: live_id_def m'_def set_node_queue_def\<close>)
    ultimately show ?thesis
      using parts lkeys unfolding s' queue_inv_def
      by (auto simp: dedupe_ok_def ran_ok_def m'_def set_node_queue_def)
  qed
qed

lemma complete_simps [simp]:
  "qm_nodes (complete i e m) = qm_nodes m" "qm_seq (complete i e m) = qm_seq m"
  "qm_started (complete i e m) = qm_started m" "qm_config (complete i e m) = qm_config m"
  "node_queue_of (complete i e m) n = node_queue_of m n"
  by (auto simp: complete_def node_queue_of_def split: option.splits)

lemma complete_done:
  "qm_done (complete i e m) j = (if j = i \<and> qm_done m i = None then Some e else qm_done m j)"
  by (auto simp: complete_def split: option.splits)

lemma worker_run_inv:
  assumes inv: "queue_inv s" and i: "i < length (qs_workers s)" "snd (qs_workers s ! i) = WRun r"
  shows "queue_inv (worker_run i r v outcome ctx_expired s)"
proof -
  let ?m = "qs_manager s" and ?ws = "qs_workers s"
  note parts = inv [unfolded queue_inv_def]
  have idsok: "ids_ok ?m" using parts by simp
  obtain n where n: "?ws ! i = (n, WRun r)" using i(2) by (metis prod.collapse)
  obtain q where q: "node_queue_of ?m n = Some q" "worker_at ?ws n = [(n, WRun r)]" "node_ok ?m n q (WRun r)"
    using worker_node [OF _ i(1) n] parts by blast
  note pos = worker_position [OF q(2) i(1)]
  have rlive: "r \<in> set (queue_requests q)" and act: "nq_active q = Some r"
    and rdone: "qm_done ?m (rq_id r) = None"
    using q(3) by (auto simp: node_ok_def queue_requests_def)
  obtain err runs where run: "run_request (qm_config ?m) v outcome ctx_expired r = (err, runs)" by fastforce
  define m' where "m' = complete (rq_id r) err ?m"
  define log where "log = (if runs then rq_id r # qs_ran s else qs_ran s)"
  have s': "worker_run i r v outcome ctx_expired s =
      s\<lparr>qs_manager := m', qs_workers := ?ws[i := (n, WDone r)], qs_ran := log\<rparr>"
    using n run by (simp add: worker_run_def m'_def log_def)
  have nodes': "qm_nodes m' = AList.update n q (qm_nodes ?m)"
    using q(1) by (simp add: m'_def node_queue_of_def update_triv)
  have rseq: "rq_id r \<le> qm_seq ?m" using live_fresh [OF idsok q(1) rlive, of "rq_id r"] by force
  have "distinct (map rq_id (queue_requests q))" by (rule live_same_node [OF idsok q(1)])
  then have other: "rq_id r' \<noteq> rq_id r" if "r' \<in> set (nq_pending q)" for r'
    using that act by (auto simp: queue_requests_def image_iff)
  have new: "node_ok m' n q (WDone r)"
    using q(3) other rdone by (auto simp: node_ok_def m'_def complete_done)
  have "nodes_ok m' (?ws[i := (n, WDone r)])"
    by (rule nodes_ok_update [OF _ idsok nodes' pos(2) pos(4) _ new])
      (use parts n live_other_node [OF idsok q(1) rlive] in \<open>auto simp: m'_def complete_done\<close>)
  moreover have "ids_ok m'"
    by (rule ids_ok_same [OF idsok]) (use rseq in \<open>auto simp: m'_def complete_done\<close>)
  moreover have "caller_ok m' log c" if "c \<in> set (qs_callers s)" for c
    by (rule caller_ok_mono [of ?m "qs_ran s"])
      (use parts that rdone in \<open>auto simp: live_id_def m'_def complete_done log_def split: if_splits\<close>)
  moreover have "ran_ok m' log"
    using parts rdone by (auto simp: ran_ok_def m'_def complete_done log_def)
  ultimately show ?thesis
    using parts unfolding s' queue_inv_def by (auto simp: dedupe_ok_def m'_def)
qed

lemma worker_finish_inv:
  assumes inv: "queue_inv s" and i: "i < length (qs_workers s)" "snd (qs_workers s ! i) = WDone r"
  shows "queue_inv (worker_finish i r s)"
proof -
  let ?m = "qs_manager s" and ?ws = "qs_workers s"
  note parts = inv [unfolded queue_inv_def]
  have idsok: "ids_ok ?m" using parts by simp
  obtain n where n: "?ws ! i = (n, WDone r)" using i(2) by (metis prod.collapse)
  obtain q where q: "node_queue_of ?m n = Some q" "worker_at ?ws n = [(n, WDone r)]" "node_ok ?m n q (WDone r)"
    using worker_node [OF _ i(1) n] parts by blast
  note pos = worker_position [OF q(2) i(1)]
  have act: "nq_active q = Some r" and rdone: "qm_done ?m (rq_id r) \<noteq> None"
    using q(3) by (auto simp: node_ok_def)
  define q' where "q' = q\<lparr>nq_active := None\<rparr>"
  define m' where "m' = set_node_queue n q' ?m"
  have s': "worker_finish i r s = s\<lparr>qs_manager := m', qs_workers := ?ws[i := (n, WNext)]\<rparr>"
    using n q(1) act by (simp add: worker_finish_def finish_def m'_def q'_def)
  have nodes': "qm_nodes m' = AList.update n q' (qm_nodes ?m)" by (simp add: m'_def set_node_queue_def)
  have live: "live_mset (qm_nodes ?m) = add_mset r (live_mset (qm_nodes m'))"
    using live_set_node_queue [OF q(1), of q'] act by (simp add: m'_def q'_def queue_requests_def)
  have new: "node_ok m' n q' WNext"
    using q(3) act by (auto simp: node_ok_def m'_def q'_def set_node_queue_def queue_requests_def)
  have "nodes_ok m' (?ws[i := (n, WNext)])"
    by (rule nodes_ok_update [OF _ idsok nodes' pos(2) pos(4) _ new])
      (use parts n in \<open>auto simp: m'_def set_node_queue_def\<close>)
  moreover have "ids_ok m'"
    using idsok live by (auto simp: ids_ok_def unique_mset_add m'_def set_node_queue_def)
  moreover have "dedupe_ok m'"
    using parts live by (auto simp: dedupe_ok_def unique_mset_add m'_def set_node_queue_def)
  moreover have "caller_ok m' (qs_ran s) c" if "c \<in> set (qs_callers s)" for c
    by (rule caller_ok_mono [of ?m "qs_ran s"])
      (use parts that rdone live in \<open>auto simp: live_id_def m'_def set_node_queue_def\<close>)
  ultimately show ?thesis
    using parts unfolding s' queue_inv_def by (auto simp: ran_ok_def m'_def set_node_queue_def)
qed

section \<open>Caller steps keep the invariant\<close>

lemma set_caller_inv:
  assumes "queue_inv s" "j < length (qs_callers s)"
    and "caller_ok (qs_manager s) (qs_ran s) ((qs_callers s ! j)\<lparr>cl_phase := ph\<rparr>)"
  shows "queue_inv (set_caller j ph s)"
  using assms unfolding queue_inv_def set_caller_def
  by (auto dest!: set_update_subset_insert [THEN subsetD])

lemma caller_ok_phase:
  assumes "queue_inv s" "j < length (qs_callers s)"
  shows "caller_ok (qs_manager s) (qs_ran s) (qs_callers s ! j)"
  using assms by (auto simp: queue_inv_def)

lemma cancel_removes:
  assumes inv: "queue_inv s" and c: "cancel i n (qs_manager s) = (True, m')"
  shows "queue_inv (s\<lparr>qs_manager := m'\<rparr>) \<and> i \<notin> set (qs_ran s) \<and>
    (\<exists>r. rq_id r = i \<and> r \<in># live_mset (qm_nodes (qs_manager s)) \<and>
         qm_done m' i = Some (Some (QueueTimeoutError n (rq_operation r) (rq_volume r) (rq_wait_limit r))))"
proof -
  let ?m = "qs_manager s" and ?ws = "qs_workers s"
  note parts = inv [unfolded queue_inv_def]
  have idsok: "ids_ok ?m" using parts by simp
  obtain q idx where q: "node_queue_of ?m n = Some q" and idx: "find_index (\<lambda>r. rq_id r = i) (nq_pending q) = Some idx"
    using c by (auto simp: cancel_def split: option.splits)
  define r where "r = nq_pending q ! idx"
  have len: "idx < length (nq_pending q)" and rid: "rq_id r = i"
    using find_index_Some [OF idx] by (simp_all add: r_def)
  define q' where "q' = q\<lparr>nq_pending := remove_at idx (nq_pending q)\<rparr>"
  define err where "err = QueueTimeoutError n (rq_operation r) (rq_volume r) (rq_wait_limit r)"
  have m': "m' = complete i (Some err) (set_node_queue n q' ?m)"
    using c q idx rid by (simp add: cancel_def Let_def q'_def err_def r_def)
  obtain ph where ph: "worker_at ?ws n = [(n, ph)]" "node_ok ?m n q ph"
    using nodes_okD [OF _ q] parts by blast
  have rp: "r \<in> set (nq_pending q)" using len by (simp add: r_def)
  then have rlive: "r \<in> set (queue_requests q)" by (simp add: queue_requests_def)
  have rdone: "qm_done ?m i = None" using ph(2) rp rid by (auto simp: node_ok_def)
  have pend: "mset (nq_pending q) = add_mset r (mset (remove_at idx (nq_pending q)))"
    unfolding r_def using remove_at_mset [OF len] by simp
  then have reqs: "mset (queue_requests q) = add_mset r (mset (queue_requests q'))"
    by (auto simp: queue_requests_def q'_def split: option.splits)
  have live: "live_mset (qm_nodes ?m) = add_mset r (live_mset (qm_nodes m'))"
    using live_set_node_queue [OF q, of q'] unfolding reqs by (simp add: m')
  have "distinct (map rq_id (queue_requests q))" by (rule live_same_node [OF idsok q])
  then have "distinct (map rq_id (r # queue_requests q'))"
    using mset_eq_imp_distinct_iff [of "map rq_id (queue_requests q)" "map rq_id (r # queue_requests q')"] reqs
    by simp
  then have other: "rq_id r' \<noteq> i" if "r' \<in> set (queue_requests q')" for r'
    using that rid by (auto simp: image_iff)
  have nodes': "qm_nodes m' = AList.update n q' (qm_nodes ?m)" by (simp add: m' set_node_queue_def)
  have done': "qm_done m' = (qm_done ?m)(i := Some (Some err))" "qm_started m' = qm_started ?m"
    "qm_seq m' = qm_seq ?m" "qm_config m' = qm_config ?m"
    using rdone by (auto simp: m' complete_def set_node_queue_def)
  have sub: "set (queue_requests q') \<subseteq> set (queue_requests q)"
    using arg_cong [OF reqs, of set_mset] by auto
  have "node_ok ?m n q' ph"
    using ph(2) sub remove_at_subset [of idx "nq_pending q"]
    by (cases ph) (auto simp: node_ok_def q'_def)
  then have new: "node_ok m' n q' ph"
    using other by (intro node_ok_cong [of q' m' ?m]) (auto simp: done')
  have "nodes_ok m' ?ws"
    by (rule nodes_ok_update [OF _ idsok nodes' ph(1) _ _ new])
      (use parts live_other_node [OF idsok q rlive] rid in \<open>auto simp: done'\<close>)
  moreover have "ids_ok m'"
  proof -
    have "i \<le> qm_seq ?m" using live_fresh [OF idsok q rlive, of i] rid by force
    then show ?thesis using idsok live by (auto simp: ids_ok_def unique_mset_add done')
  qed
  moreover have "dedupe_ok m'"
    using parts live by (auto simp: dedupe_ok_def unique_mset_add done')
  moreover have "caller_ok m' (qs_ran s) c" if "c \<in> set (qs_callers s)" for c
    by (rule caller_ok_mono [of ?m "qs_ran s"])
      (use parts that rdone live rid in \<open>auto simp: live_id_def done'\<close>)
  moreover have "i \<notin> set (qs_ran s)" using parts rdone by (auto simp: ran_ok_def)
  ultimately show ?thesis
    using parts live rid unfolding queue_inv_def
    by (auto simp: ran_ok_def done' err_def intro!: exI [of _ r])
qed

lemma cancel_false: "cancel i n m = (False, m') \<Longrightarrow> m' = m"
  by (auto simp: cancel_def Let_def split: option.splits)

lemma caller_give_up_inv:
  assumes inv: "queue_inv s" and j: "j < length (qs_callers s)" "cl_phase (qs_callers s ! j) = CWait"
  shows "queue_inv (caller_give_up j s)"
proof -
  let ?c = "qs_callers s ! j" and ?m = "qs_manager s"
  let ?i = "rq_id (cl_request ?c)"
  have ok: "caller_ok ?m (qs_ran s) ?c" by (rule caller_ok_phase [OF inv j(1)])
  show ?thesis
  proof (cases "cl_coalesced ?c")
    case True
    have "caller_ok ?m (qs_ran s) (?c\<lparr>cl_phase := CReturned (Some (caller_timeout ?c))\<rparr>)"
      using ok True by (simp add: caller_ok_def caller_timeout_def Let_def)
    then show ?thesis
      using True set_caller_inv [OF inv j(1)] by (simp add: caller_give_up_def Let_def)
  next
    case False
    obtain b m' where can: "cancel ?i (rq_node (cl_request ?c)) ?m = (b, m')" by fastforce
    show ?thesis
    proof (cases b)
      case True
      then have rem: "queue_inv (s\<lparr>qs_manager := m'\<rparr>)" "?i \<notin> set (qs_ran s)" "\<exists>e. qm_done m' ?i = Some (Some e)"
        using cancel_removes [OF inv, of ?i _ m'] can by auto
      have "caller_ok m' (qs_ran s) ?c"
        using caller_ok_phase [OF rem(1)] j(1) by simp
      then have "caller_ok m' (qs_ran s) (?c\<lparr>cl_phase := CCancelled (caller_timeout ?c)\<rparr>)"
        using rem by (simp add: caller_ok_def Let_def)
      then have "queue_inv (set_caller j (CCancelled (caller_timeout ?c)) (s\<lparr>qs_manager := m'\<rparr>))"
        using set_caller_inv [OF rem(1), of j] j(1) by simp
      then show ?thesis using can True False by (simp add: caller_give_up_def Let_def)
    next
      case b: False
      then have m': "m' = ?m" using can cancel_false by simp
      have "queue_inv (set_caller j CAwaitDone s)"
        by (rule set_caller_inv [OF inv j(1)]) (use ok in \<open>simp add: caller_ok_def Let_def\<close>)
      then show ?thesis using can b False m' by (simp add: caller_give_up_def Let_def)
    qed
  qed
qed

lemma queue_step_inv: "queue_step s s' \<Longrightarrow> queue_inv s \<Longrightarrow> queue_inv s'"
proof (induction rule: queue_step.induct)
  case (worker_next i s now)
  then show ?case by (rule_tac worker_next_inv)
next
  case (worker_run i s r v outcome ctx_expired)
  then show ?case by (rule_tac worker_run_inv)
next
  case (worker_finish i s r)
  then show ?case by (rule_tac worker_finish_inv)
next
  case (caller_started j s)
  show ?case
    by (rule set_caller_inv [OF caller_started(5,1)])
      (use caller_ok_phase [OF caller_started(5,1)] caller_started in \<open>simp add: caller_ok_def Let_def\<close>)
next
  case (caller_done j s err)
  show ?case
    by (rule set_caller_inv [OF caller_done(4,1)])
      (use caller_ok_phase [OF caller_done(4,1)] caller_done in \<open>simp add: caller_ok_def Let_def\<close>)
next
  case (caller_gives_up j s)
  then show ?case by (rule_tac caller_give_up_inv)
qed

lemma config_simps [simp]:
  "qm_config (set_node_queue n q m) = qm_config m"
  "qm_config (snd (cancel i n m)) = qm_config m"
  "qm_config (snd (next_request n now m)) = qm_config m"
  "qm_config (finish n i m) = qm_config m"
  "qm_config (er_manager (enqueue m r)) = qm_config m"
  by (auto simp: set_node_queue_def cancel_def next_request_def finish_def enqueue_def Let_def
      split: option.splits)

lemma next_request_config: "next_request n now m = (r, m') \<Longrightarrow> qm_config m' = qm_config m"
  by (metis config_simps(3) snd_conv)

lemma cancel_config: "cancel i n m = (b, m') \<Longrightarrow> qm_config m' = qm_config m"
  by (metis config_simps(2) snd_conv)

lemma queue_step_config: "queue_step s s' \<Longrightarrow> qm_config (qs_manager s') = qm_config (qs_manager s)"
  by (induction rule: queue_step.induct)
    (auto simp: worker_next_def worker_run_def worker_finish_def set_caller_def caller_give_up_def Let_def
      next_request_config cancel_config split: prod.splits bool.splits option.splits)

lemma queue_reachable_inv: "queue_reachable c s \<Longrightarrow> queue_inv s \<and> qm_config (qs_manager s) = c"
proof (induction rule: queue_reachable.induct)
  case init
  then show ?case
    by (simp add: queue_inv_parts new_queue_manager_def node_queue_of_def worker_at_def)
next
  case (call s node op vol prio now)
  then show ?case by (simp add: call_run_inv) (simp add: call_run_def Let_def)
next
  case (step s s')
  then show ?case using queue_step_inv queue_step_config by simp
qed

section \<open>Draining\<close>

definition drained :: "queue_system \<Rightarrow> bool" where
  "drained s \<longleftrightarrow> qm_nodes (qs_manager s) = [] \<and> qs_workers s = [] \<and>
     list_all (\<lambda>c. cl_phase c \<noteq> CWait \<and> cl_phase c \<noteq> CAwaitDone) (qs_callers s)"

fun phase_work :: "worker_phase \<Rightarrow> nat" where
  "phase_work WNext = 4"
| "phase_work (WRun r) = 3"
| "phase_work (WDone r) = 2"

fun caller_work :: "caller_phase \<Rightarrow> nat" where
  "caller_work CWait = 1"
| "caller_work CAwaitDone = 1"
| "caller_work _ = 0"

definition queue_work :: "queue_system \<Rightarrow> nat" where
  "queue_work s = 4 * size (live_mset (qm_nodes (qs_manager s))) +
     sum_list (map (phase_work \<circ> snd) (qs_workers s)) +
     sum_list (map (caller_work \<circ> cl_phase) (qs_callers s))"

lemma sum_list_update_nat:
  fixes f :: "'a \<Rightarrow> nat"
  assumes "i < length xs"
  shows "sum_list (map f (xs[i := y])) + f (xs ! i) = sum_list (map f xs) + f y"
  using assms by (induction xs arbitrary: i) (auto split: nat.splits)

lemma sum_list_remove_at:
  fixes f :: "'a \<Rightarrow> nat"
  assumes "i < length xs"
  shows "sum_list (map f (remove_at i xs)) + f (xs ! i) = sum_list (map f xs)"
  using assms by (induction i xs rule: remove_at.induct) auto

lemma worker_queue:
  assumes inv: "queue_inv s" and i: "i < length (qs_workers s)"
  obtains q where "node_queue_of (qs_manager s) (fst (qs_workers s ! i)) = Some q"
    "nq_active q = phase_request (snd (qs_workers s ! i))"
  using worker_node [OF _ i, of "qs_manager s" "fst (qs_workers s ! i)" "snd (qs_workers s ! i)"] inv
  by (auto simp: queue_inv_def node_ok_def)

lemma worker_next_work:
  assumes inv: "queue_inv s" and i: "i < length (qs_workers s)" "snd (qs_workers s ! i) = WNext"
  shows "queue_work (worker_next i now s) < queue_work s"
proof -
  let ?m = "qs_manager s"
  let ?n = "fst (qs_workers s ! i)"
  obtain q where q: "node_queue_of ?m ?n = Some q" "nq_active q = None"
    using worker_queue [OF inv i(1)] i(2) by auto
  show ?thesis
  proof (cases "nq_pending q = []")
    case True
    have "live_mset (AList.delete ?n (qm_nodes ?m)) = live_mset (qm_nodes ?m)"
      using live_delete [of "qm_nodes ?m" ?n q] q inv True
      by (simp add: queue_inv_def nodes_ok_def node_queue_of_def queue_requests_def)
    then show ?thesis
      using True q i sum_list_remove_at [OF i(1), of "phase_work \<circ> snd"]
      by (simp add: worker_next_def next_request_def queue_work_def Let_def)
  next
    case False
    define idx where "idx = select_index (\<lambda>r. effective_priority (qc_age_boost (qm_config ?m)) r now) (nq_pending q)"
    have idx: "idx < length (nq_pending q)" unfolding idx_def by (rule select_index_spec(1) [OF False])
    define r where "r = (nq_pending q ! idx)\<lparr>rq_started_at := now\<rparr>"
    define q' where "q' = q\<lparr>nq_pending := remove_at idx (nq_pending q), nq_active := Some r\<rparr>"
    have "size (live_mset (qm_nodes (set_node_queue ?n q' ?m))) + length (queue_requests q) =
        size (live_mset (qm_nodes ?m)) + length (queue_requests q')"
      using arg_cong [OF live_set_node_queue [OF q(1), of q'], of size] by simp
    then have "size (live_mset (qm_nodes (set_node_queue ?n q' ?m))) = size (live_mset (qm_nodes ?m))"
      using idx q(2) by (simp add: queue_requests_def q'_def)
    then show ?thesis
      using False q i sum_list_update_nat [OF i(1), of "phase_work \<circ> snd" "(?n, WRun r)"]
      by (simp add: worker_next_def next_request_def queue_work_def Let_def q'_def r_def idx_def set_node_queue_def)
  qed
qed

lemma worker_run_work:
  assumes "i < length (qs_workers s)" "snd (qs_workers s ! i) = WRun r"
  shows "queue_work (worker_run i r v outcome ctx_expired s) < queue_work s"
  using assms sum_list_update_nat [OF assms(1), of "phase_work \<circ> snd" "(fst (qs_workers s ! i), WDone r)"]
  by (simp add: worker_run_def queue_work_def split: prod.splits)

lemma worker_finish_work:
  assumes inv: "queue_inv s" and i: "i < length (qs_workers s)" "snd (qs_workers s ! i) = WDone r"
  shows "queue_work (worker_finish i r s) < queue_work s"
proof -
  let ?m = "qs_manager s"
  let ?n = "fst (qs_workers s ! i)"
  obtain q where q: "node_queue_of ?m ?n = Some q" "nq_active q = Some r"
    using worker_queue [OF inv i(1)] i(2) by auto
  let ?q' = "q\<lparr>nq_active := None\<rparr>"
  have "size (live_mset (qm_nodes (set_node_queue ?n ?q' ?m))) + length (queue_requests q) =
      size (live_mset (qm_nodes ?m)) + length (queue_requests ?q')"
    using arg_cong [OF live_set_node_queue [OF q(1), of ?q'], of size] by simp
  then have "Suc (size (live_mset (qm_nodes (set_node_queue ?n ?q' ?m)))) = size (live_mset (qm_nodes ?m))"
    using q(2) by (simp add: queue_requests_def)
  then show ?thesis
    using q i sum_list_update_nat [OF i(1), of "phase_work \<circ> snd" "(?n, WNext)"]
    by (simp add: worker_finish_def finish_def queue_work_def Let_def)
qed

lemma set_caller_work:
  assumes "j < length (qs_callers s)" "caller_work ph < caller_work (cl_phase (qs_callers s ! j))"
  shows "queue_work (set_caller j ph s) < queue_work s"
  using assms sum_list_update_nat [OF assms(1), of "caller_work \<circ> cl_phase" "(qs_callers s ! j)\<lparr>cl_phase := ph\<rparr>"]
  by (simp add: set_caller_def queue_work_def)

lemma queue_progress:
  assumes inv: "queue_inv s" and work: "\<not> drained s"
  shows "\<exists>s'. queue_step s s' \<and> queue_work s' < queue_work s"
proof (cases "qs_workers s")
  case (Cons w ws)
  then have i: "0 < length (qs_workers s)" by simp
  show ?thesis
  proof (cases "snd (qs_workers s ! 0)")
    case WNext
    then show ?thesis using queue_step.worker_next [OF i] worker_next_work [OF inv i] by blast
  next
    case (WRun r)
    then show ?thesis using queue_step.worker_run [OF i] worker_run_work [OF i] by blast
  next
    case (WDone r)
    then show ?thesis using queue_step.worker_finish [OF i] worker_finish_work [OF inv i] by blast
  qed
next
  case Nil
  have none: "node_queue_of (qs_manager s) n = None" for n
    using nodes_okD [of "qs_manager s" "qs_workers s" n] inv Nil
    by (cases "node_queue_of (qs_manager s) n") (auto simp: queue_inv_def worker_at_def)
  have nodes: "qm_nodes (qs_manager s) = []"
  proof (cases "qm_nodes (qs_manager s)")
    case (Cons x xs)
    then show ?thesis using none [of "fst x"] by (cases x) (simp add: node_queue_of_def)
  qed simp
  then obtain j where j: "j < length (qs_callers s)"
    "cl_phase (qs_callers s ! j) = CWait \<or> cl_phase (qs_callers s ! j) = CAwaitDone"
    using work Nil by (auto simp: drained_def list_all_length)
  have "qm_done (qs_manager s) (rq_id (cl_request (qs_callers s ! j))) \<noteq> None"
    using caller_ok_phase [OF inv j(1)] nodes by (auto simp: caller_ok_def Let_def live_id_def)
  then obtain err where err: "qm_done (qs_manager s) (rq_id (cl_request (qs_callers s ! j))) = Some err" by blast
  have "caller_work (CReturned err) < caller_work (cl_phase (qs_callers s ! j))" using j(2) by auto
  then show ?thesis
    using queue_step.caller_done [OF j err] set_caller_work [OF j(1)] by blast
qed

lemma queue_drains:
  "queue_inv s \<Longrightarrow> \<exists>s'. queue_step\<^sup>*\<^sup>* s s' \<and> queue_inv s' \<and> drained s'"
proof (induction "queue_work s" arbitrary: s rule: less_induct)
  case less
  show ?case
  proof (cases "drained s")
    case False
    then obtain s1 where s1: "queue_step s s1" "queue_work s1 < queue_work s"
      using queue_progress [OF less.prems] by blast
    from less.hyps [OF s1(2) queue_step_inv [OF s1(1) less.prems]] s1(1) show ?thesis
      by (meson converse_rtranclp_into_rtranclp)
  qed (use less.prems in blast)
qed

section \<open>Bounded overtaking\<close>

text \<open>Rounds of the selection loop of \<open>next\<close> with the requests that arrive between
  them: the requests selected, in order.\<close>

fun dispatch_rounds ::
  "(go_time \<Rightarrow> queue_request \<Rightarrow> int) \<Rightarrow> (go_time \<times> queue_request list) list \<Rightarrow> queue_request list \<Rightarrow>
   queue_request list" where
  "dispatch_rounds score [] pending = []"
| "dispatch_rounds score ((now, arrivals) # rounds) pending =
     (let p = pending @ arrivals
      in if p = [] then dispatch_rounds score rounds []
         else (let idx = select_index (score now) p
               in p ! idx # dispatch_rounds score rounds (remove_at idx p)))"

text \<open>What fairness needs of a score: it is never negative, and a request that has
  waited long enough has score 0.\<close>

locale aging_policy =
  fixes score :: "go_time \<Rightarrow> queue_request \<Rightarrow> int" and age_limit :: duration
  assumes score_nonneg: "0 \<le> score now r"
    and score_aged: "rq_enqueued_at r + age_limit \<le> now \<Longrightarrow> score now r = 0"
begin

lemma aged_not_overtaken:
  assumes "k < length p" "rq_enqueued_at (p ! k) + age_limit \<le> now"
  shows "select_index (score now) p \<le> k"
proof (rule ccontr)
  assume "\<not> select_index (score now) p \<le> k"
  then have "k < select_index (score now) p" by simp
  moreover have "p \<noteq> []" using assms(1) by auto
  ultimately have "score now (p ! select_index (score now) p) < score now (p ! k)"
    using select_index_spec(3) by blast
  then show False using score_aged [OF assms(2)] score_nonneg by (simp add: leD)
qed

lemma dispatched_within:
  assumes "k < length p" "k < length rounds"
    and "\<And>now arrivals. (now, arrivals) \<in> set rounds \<Longrightarrow> rq_enqueued_at (p ! k) + age_limit \<le> now"
  shows "p ! k \<in> set (take (Suc k) (dispatch_rounds score rounds p))"
  using assms
proof (induction k arbitrary: p rounds)
  case 0
  obtain now arrivals rest where r: "rounds = (now, arrivals) # rest" using 0(2) by (cases rounds) auto
  have "select_index (score now) (p @ arrivals) = 0"
    using aged_not_overtaken [of 0 "p @ arrivals" now] 0(1) 0(3) [of now arrivals] r by (simp add: nth_append)
  then show ?case using 0 r by (auto simp: Let_def nth_append)
next
  case (Suc k)
  obtain now arrivals rest where r: "rounds = (now, arrivals) # rest" using Suc.prems(2) by (cases rounds) auto
  let ?p = "p @ arrivals"
  define idx where "idx = select_index (score now) ?p"
  have ne: "?p \<noteq> []" using Suc.prems(1) by auto
  have idx: "idx \<le> Suc k" "idx < length ?p"
    unfolding idx_def
    using aged_not_overtaken [of "Suc k" ?p now] select_index_spec(1) [OF ne] Suc.prems(1) r
      Suc.prems(3) [of now arrivals]
    by (auto simp: nth_append)
  have sel: "dispatch_rounds score rounds p = ?p ! idx # dispatch_rounds score rest (remove_at idx ?p)"
    using Suc.prems(1) r by (auto simp: Let_def idx_def)
  show ?case
  proof (cases "idx = Suc k")
    case True
    then show ?thesis using sel Suc.prems(1) by (simp add: nth_append)
  next
    case False
    then have "remove_at idx ?p ! k = p ! Suc k" "k < length (remove_at idx ?p)"
      using idx Suc.prems(1) by (auto simp: remove_at_nth nth_append)
    then have "p ! Suc k \<in> set (take (Suc k) (dispatch_rounds score rest (remove_at idx ?p)))"
      using Suc.IH [of "remove_at idx ?p" rest] Suc.prems r by auto
    then show ?thesis using sel by simp
  qed
qed

end

interpretation default_aging: aging_policy "\<lambda>now r. effective_priority (30 * second) r now" "2 * (30 * second)"
  by unfold_locales (auto intro: effective_priority_bounds(1) effective_priority_aged)

section \<open>Properties\<close>

lemma unique_workers:
  assumes "queue_inv s"
  shows "distinct (map fst (qs_workers s))"
proof -
  have "count_list (map fst ws) n = length (worker_at ws n)" for ws n
    by (induction ws) (auto simp: worker_at_def)
  moreover have "length (worker_at (qs_workers s) n) \<le> 1" for n
    using assms nodes_okD [of "qs_manager s" "qs_workers s" n] nodes_okD_none [of "qs_manager s" "qs_workers s" n]
    by (cases "node_queue_of (qs_manager s) n") (auto simp: queue_inv_def)
  ultimately have "unique_mset (mset (map fst (qs_workers s)))"
    unfolding unique_mset_def count_mset by metis
  then show ?thesis by (rule unique_mset_distinct)
qed

lemma unique_keys_live:
  assumes inv: "queue_inv s" and ded: "qc_dedupe (qm_config (qs_manager s))"
    and q: "node_queue_of (qs_manager s) n = Some q"
  shows "distinct (map rq_key (queue_requests q))"
proof -
  have "unique_mset (image_mset rq_key (live_mset (qm_nodes (qs_manager s))))"
    using inv ded by (simp add: queue_inv_def dedupe_ok_def)
  moreover have "image_mset rq_key (mset (queue_requests q)) \<subseteq># image_mset rq_key (live_mset (qm_nodes (qs_manager s)))"
    using q by (intro image_mset_subseteq_mono live_contains) (simp add: node_queue_of_def)
  ultimately have "unique_mset (image_mset rq_key (mset (queue_requests q)))" by (rule unique_mset_subset)
  then show ?thesis by (simp add: unique_mset_distinct)
qed

lemma queue_step_done_mono:
  "queue_step s s' \<Longrightarrow> qm_done (qs_manager s) i = Some e \<Longrightarrow> qm_done (qs_manager s') i = Some e"
proof (induction rule: queue_step.induct)
  case (worker_next j s now)
  then show ?case
    by (auto simp: worker_next_def next_request_def set_node_queue_def Let_def split: prod.splits option.splits if_splits)
next
  case (worker_run j s r v outcome ctx_expired)
  then show ?case by (auto simp: worker_run_def complete_done split: prod.splits)
next
  case (worker_finish j s r)
  then show ?case
    by (auto simp: worker_finish_def finish_def set_node_queue_def Let_def split: option.splits if_splits)
next
  case (caller_gives_up j s)
  then show ?case
    by (auto simp: caller_give_up_def set_caller_def cancel_def complete_done set_node_queue_def Let_def
        split: prod.splits bool.splits option.splits)
qed (auto simp: set_caller_def)

text \<open>C4. One hotplug operation at a time per node: in every reachable state there is
  at most one worker per node, every queued or active request waits in the queue of
  its own node, and the request a worker runs is the active request of its node.\<close>

theorem queue_single_flight:
  assumes "queue_reachable c s"
  shows "distinct (map fst (qs_workers s)) \<and>
    (\<forall>n q. node_queue_of (qs_manager s) n = Some q \<longrightarrow>
       (\<forall>r \<in> set (queue_requests q). rq_node r = n) \<and>
       (\<exists>ph. (n, ph) \<in> set (qs_workers s) \<and> nq_active q = phase_request ph))"
proof -
  have inv: "queue_inv s" using queue_reachable_inv [OF assms] by simp
  have "\<exists>ph. (n, ph) \<in> set (qs_workers s) \<and> nq_active q = phase_request ph \<and>
      (\<forall>r \<in> set (queue_requests q). rq_node r = n)"
    if q: "node_queue_of (qs_manager s) n = Some q" for n q
  proof -
    obtain ph where ph: "worker_at (qs_workers s) n = [(n, ph)]" "node_ok (qs_manager s) n q ph"
      using nodes_okD [OF _ q] inv by (auto simp: queue_inv_def)
    have "(n, ph) \<in> set (worker_at (qs_workers s) n)" using ph(1) by simp
    then show ?thesis using ph(2) by (auto simp: worker_at_def node_ok_def)
  qed
  then show ?thesis using unique_workers [OF inv] by blast
qed

definition sample_config :: queue_config where
  "sample_config = \<lparr>qc_max_wait = 180 * second, qc_age_boost = 30 * second, qc_dedupe = True,
     qc_per_item_wait = 60 * second, qc_max_wait_cap = 900 * second, qc_max_active = 300 * second,
     qc_validates = True\<rparr>"

definition sample_empty :: queue_system where
  "sample_empty = \<lparr>qs_manager = (new_queue_manager 0 0)\<lparr>qm_config := sample_config\<rparr>,
     qs_workers = [], qs_callers = [], qs_ran = []\<rparr>"

definition sample_system :: queue_system where
  "sample_system = worker_next 0 (3 * second)
     (call_run ''n1'' ''attach'' ''7'' priority_normal (3 * second)
       (call_run ''n1'' ''detach'' ''8'' priority_critical (2 * second)
         (call_run ''n1'' ''attach'' ''7'' priority_normal second sample_empty)))"

lemma sample_reachable: "queue_reachable sample_config sample_system"
proof -
  have "queue_reachable sample_config sample_empty"
    unfolding sample_empty_def by (rule queue_reachable.init)
  then have "queue_reachable sample_config
     (call_run ''n1'' ''attach'' ''7'' priority_normal (3 * second)
       (call_run ''n1'' ''detach'' ''8'' priority_critical (2 * second)
         (call_run ''n1'' ''attach'' ''7'' priority_normal second sample_empty)))" (is "queue_reachable _ ?s")
    by (intro queue_reachable.call) simp_all
  moreover have "0 < length (qs_workers ?s)" "snd (qs_workers ?s ! 0) = WNext" by code_simp+
  ultimately show ?thesis
    unfolding sample_system_def by (blast intro: queue_reachable.step queue_step.worker_next)
qed

lemma sample_workers: "map fst (qs_workers sample_system) = [''n1'']"
  by code_simp

lemma sample_callers: "map cl_coalesced (qs_callers sample_system) = [False, False, True]"
  by code_simp

theorem queue_single_flight_witness: "distinct (map fst (qs_workers sample_system))"
  using queue_single_flight [OF sample_reachable] by simp

text \<open>C5. Every call of \<open>Run\<close> is answered: from every reachable state the workers
  and callers can take further steps until every call has returned and no queue
  and no worker is left, and as long as a call waits or a queue exists some step is
  possible.\<close>

theorem queue_answers_all:
  assumes "queue_reachable c s"
  shows "(\<exists>s'. queue_step\<^sup>*\<^sup>* s s' \<and> drained s') \<and> (drained s \<or> (\<exists>s'. queue_step s s'))"
proof -
  have inv: "queue_inv s" using queue_reachable_inv [OF assms] by simp
  show ?thesis using queue_drains [OF inv] queue_progress [OF inv] by blast
qed

theorem queue_answers_all_witness:
  "\<exists>s'. queue_step\<^sup>*\<^sup>* sample_system s' \<and> drained s'"
  using queue_answers_all [OF sample_reachable] by blast



text \<open>The outcome of a request is final: no step of the system changes it.\<close>

lemma queue_outcome_final:
  assumes "queue_step\<^sup>*\<^sup>* s s'" "qm_done (qs_manager s) i = Some e"
  shows "qm_done (qs_manager s') i = Some e"
  using assms by (induction rule: rtranclp_induct) (auto intro: queue_step_done_mono)

text \<open>With deduplication on, at most one queued or active request exists for a
  node, an operation and a volume.\<close>

lemma queue_no_duplicates:
  assumes "queue_reachable c s" "qc_dedupe c"
    and "node_queue_of (qs_manager s) n = Some q"
    and "i < length (queue_requests q)" "j < length (queue_requests q)" "i \<noteq> j"
  shows "\<not> same_queue_request (queue_requests q ! i) (queue_requests q ! j)"
proof -
  have "distinct (map rq_key (queue_requests q))"
    using unique_keys_live [of s n q] queue_reachable_inv [OF assms(1)] assms(2,3) by simp
  then show ?thesis
    using assms(4-6) nth_eq_iff_index_eq [of "map rq_key (queue_requests q)" i j]
    by (simp add: same_queue_request_key)
qed

text \<open>C7. Fairness: a request that has waited two age boosts is overtaken by no
  request behind it; if it is at position \<open>k\<close> it is selected within \<open>k + 1\<close>
  rounds, whatever requests arrive in the meantime.\<close>

theorem queue_bounded_overtaking:
  assumes "0 < age_boost" "k < length pending" "k < length rounds"
    and "\<forall>(now, arrivals) \<in> set rounds. rq_enqueued_at (pending ! k) + 2 * age_boost \<le> now"
  shows "pending ! k \<in> set (take (Suc k)
           (dispatch_rounds (\<lambda>now r. effective_priority age_boost r now) rounds pending))"
proof -
  have "aging_policy (\<lambda>now r. effective_priority age_boost r now) (2 * age_boost)"
    by unfold_locales (auto intro: effective_priority_bounds(1) effective_priority_aged assms(1))
  from aging_policy.dispatched_within [OF this assms(2,3)] assms(4) show ?thesis by auto
qed

definition sample_request :: "nat \<Rightarrow> queue_priority \<Rightarrow> go_time \<Rightarrow> queue_request" where
  "sample_request i prio now = new_request i ''n1'' ''attach'' (itoa (int i)) prio now"

definition sample_active :: queue_request where
  "sample_active = (case snd (qs_workers sample_system ! 0) of WRun r \<Rightarrow> r | WDone r \<Rightarrow> r
     | WNext \<Rightarrow> sample_request 0 priority_normal 0)"

definition sample_after_run :: queue_system where
  "sample_after_run = worker_run 0 sample_active
     \<lparr>v_decision = VValid, v_reason = [], v_message = []\<rparr> FnOk False sample_system"

lemma queue_outcome_final_witness:
  "qm_done (qs_manager (worker_finish 0 sample_active sample_after_run)) (rq_id sample_active) = Some None"
proof -
  have "0 < length (qs_workers sample_after_run)" "snd (qs_workers sample_after_run ! 0) = WDone sample_active"
    by code_simp+
  then have "queue_step sample_after_run (worker_finish 0 sample_active sample_after_run)"
    by (rule queue_step.worker_finish)
  moreover have "qm_done (qs_manager sample_after_run) (rq_id sample_active) = Some None" by code_simp
  ultimately show ?thesis by (rule queue_outcome_final [OF r_into_rtranclp])
qed

lemma queue_no_duplicates_witness:
  "\<not> same_queue_request
     (queue_requests (the (node_queue_of (qs_manager sample_system) ''n1'')) ! 0)
     (queue_requests (the (node_queue_of (qs_manager sample_system) ''n1'')) ! 1)"
proof -
  let ?q = "the (node_queue_of (qs_manager sample_system) ''n1'')"
  have "length (queue_requests ?q) = 2" "\<not> Option.is_none (node_queue_of (qs_manager sample_system) ''n1'')"
    by code_simp+
  then show ?thesis
    by (intro queue_no_duplicates [OF sample_reachable, of "''n1''" ?q])
      (simp_all add: sample_config_def Option.is_none_def)
qed

theorem queue_bounded_overtaking_witness:
  "sample_request 2 priority_background second \<in>
   set (take 2 (dispatch_rounds (\<lambda>now r. effective_priority (30 * second) r now)
     [(61 * second, [sample_request 3 priority_critical (61 * second)]), (70 * second, [])]
     [sample_request 1 priority_background second, sample_request 2 priority_background second]))"
  using queue_bounded_overtaking [of "30 * second" 1
      "[sample_request 1 priority_background second, sample_request 2 priority_background second]"
      "[(61 * second, [sample_request 3 priority_critical (61 * second)]), (70 * second, [])]"]
  by (simp add: sample_request_def new_request_def numeral_2_eq_2)

text \<open>The dispatch order: \<open>next\<close> takes the pending request with the lowest
  effective priority, the first of them in arrival order, makes it active with its
  start time, and keeps all other pending requests in order.\<close>

lemma next_request_selects:
  assumes "node_queue_of m n = Some q" "nq_pending q \<noteq> []"
  shows "\<exists>i < length (nq_pending q).
    (\<forall>j < length (nq_pending q).
       effective_priority (qc_age_boost (qm_config m)) (nq_pending q ! i) now
         \<le> effective_priority (qc_age_boost (qm_config m)) (nq_pending q ! j) now \<and>
       (j < i \<longrightarrow> effective_priority (qc_age_boost (qm_config m)) (nq_pending q ! i) now
         < effective_priority (qc_age_boost (qm_config m)) (nq_pending q ! j) now)) \<and>
    fst (next_request n now m) = Some ((nq_pending q ! i)\<lparr>rq_started_at := now\<rparr>) \<and>
    node_queue_of (snd (next_request n now m)) n =
      Some (q\<lparr>nq_active := Some ((nq_pending q ! i)\<lparr>rq_started_at := now\<rparr>),
              nq_pending := take i (nq_pending q) @ drop (Suc i) (nq_pending q)\<rparr>)"
proof -
  let ?sc = "\<lambda>r. effective_priority (qc_age_boost (qm_config m)) r now"
  let ?i = "select_index ?sc (nq_pending q)"
  note sel = select_index_spec(2,3) [OF assms(2), where sc = ?sc]
  have i: "?i < length (nq_pending q)" by (rule select_index_spec(1) [OF assms(2)])
  have "next_request n now m =
     (Some ((nq_pending q ! ?i)\<lparr>rq_started_at := now\<rparr>),
      set_node_queue n (q\<lparr>nq_pending := remove_at ?i (nq_pending q),
        nq_active := Some ((nq_pending q ! ?i)\<lparr>rq_started_at := now\<rparr>)\<rparr>) m)"
    using assms by (simp add: next_request_def Let_def)
  then show ?thesis
    using i sel
    by (intro exI [of _ ?i])
      (simp add: set_node_queue_def node_queue_of_def update_conv' remove_at_take_drop)
qed

definition sample_waiting :: queue_manager where
  "sample_waiting = set_node_queue ''n1'' \<lparr>nq_active = None,
     nq_pending = [sample_request 1 priority_normal second], nq_running = True\<rparr> (new_queue_manager 0 (30 * second))"

lemma sample_waiting_queue:
  "node_queue_of sample_waiting ''n1'' = Some \<lparr>nq_active = None,
     nq_pending = [sample_request 1 priority_normal second], nq_running = True\<rparr>"
  by (simp add: sample_waiting_def node_queue_of_def set_node_queue_def update_conv')

lemma next_request_selects_witness:
  "fst (next_request ''n1'' 5 sample_waiting) = Some ((sample_request 1 priority_normal second)\<lparr>rq_started_at := 5\<rparr>)"
  using next_request_selects [OF sample_waiting_queue, of 5] by auto

text \<open>The wait limit of a call: none when no maximal wait is configured; otherwise
  positive, at least the maximal wait or the cap, never above a configured cap, and
  growing by the per-item wait with every request ahead, as long as the durations
  do not exceed 64 bits.\<close>

lemma wait_limit_bounds:
  assumes "0 \<le> qc_per_item_wait c"
    and "in_int64 (qc_max_wait c + (int (length (nq_pending q)) + 1) * qc_per_item_wait c)"
  shows "(qc_max_wait c \<le> 0 \<longrightarrow> effective_wait_limit c q = 0) \<and>
    (0 < qc_max_wait c \<longrightarrow> 0 < effective_wait_limit c q \<and>
       (0 < qc_max_wait_cap c \<longrightarrow> effective_wait_limit c q \<le> qc_max_wait_cap c) \<and>
       (qc_max_wait_cap c \<le> 0 \<longrightarrow> effective_wait_limit c q =
          qc_max_wait c + (int (length (nq_pending q)) + (if nq_active q \<noteq> None then 1 else 0)) * qc_per_item_wait c))"
proof -
  define d where "d = int (length (nq_pending q)) + (if nq_active q \<noteq> None then 1 else (0::int))"
  have d: "0 \<le> d" "d \<le> int (length (nq_pending q)) + 1" by (simp_all add: d_def)
  have mul: "0 \<le> d * qc_per_item_wait c"
    "d * qc_per_item_wait c \<le> (int (length (nq_pending q)) + 1) * qc_per_item_wait c"
    using assms(1) d by (simp_all add: mult_right_mono)
  show ?thesis
  proof (cases "0 < qc_max_wait c")
    case True
    define w where "w = qc_max_wait c + d * qc_per_item_wait c"
    have "in_int64 (d * qc_per_item_wait c)" "in_int64 w"
      using True mul assms(2) by (auto simp: in_int64_def w_def)
    then have "int64 (qc_max_wait c + int64 (d * qc_per_item_wait c)) = w" by (simp add: w_def)
    moreover have "qc_per_item_wait c = 0 \<Longrightarrow> w = qc_max_wait c" by (simp add: w_def)
    ultimately have "effective_wait_limit c q =
        (if 0 < qc_max_wait_cap c \<and> qc_max_wait_cap c < w then qc_max_wait_cap c else w)"
      using True assms(1) unfolding effective_wait_limit_def Let_def d_def [symmetric] by auto
    moreover have "0 < w" using True mul by (simp add: w_def)
    ultimately show ?thesis using True by (auto simp: w_def d_def)
  qed (simp add: effective_wait_limit_def)
qed

lemma wait_limit_bounds_witness:
  "effective_wait_limit sample_config \<lparr>nq_active = None, nq_pending = replicate 20 (sample_request 1 priority_normal 0), nq_running = True\<rparr>
     \<le> 900 * second"
  using wait_limit_bounds [of sample_config "\<lparr>nq_active = None,
      nq_pending = replicate 20 (sample_request 1 priority_normal 0), nq_running = True\<rparr>"]
  by (simp add: sample_config_def in_int64_def)

text \<open>The persisted view of a node converges: whatever was persisted or held back
  before, once a snapshot has been handed over and the debounce timer of its node
  has fired, the ConfigMap entry of the node is that snapshot, or absent when the
  snapshot is empty, nothing is held back for the node and no timer is armed, and the
  entries of other nodes are untouched.\<close>

lemma snapshot_converges:
  assumes "ss_enabled s" "ns_node sn = n" "n \<noteq> []"
  defines "s' \<equiv> flush_pending_snapshot True n (persist_snapshot True sn s)"
  shows "ss_store s' n = (if empty_snapshot sn then None else Some sn) \<and>
    ss_pending s' n = None \<and> \<not> ss_timers s' n \<and> (\<forall>k. k \<noteq> n \<longrightarrow> ss_store s' k = ss_store s k)"
  using assms(1-3)
  by (auto simp: s'_def flush_pending_snapshot_def persist_snapshot_def persist_snapshot_now_def
      defer_snapshot_def Let_def)

definition sample_snapshots :: snapshot_state where
  "sample_snapshots = \<lparr>ss_enabled = True, ss_debounce = 2 * second, ss_pending = (\<lambda>_. None),
     ss_timers = (\<lambda>_. False), ss_store = (\<lambda>_. None)\<rparr>"

lemma snapshot_converges_witness:
  "ss_store (flush_pending_snapshot True ''n1'' (persist_snapshot True
      (snapshot_locked sample_waiting (9 * second) ''n1'') sample_snapshots)) ''n1''
   = Some (snapshot_locked sample_waiting (9 * second) ''n1'')"
proof -
  have "ns_node (snapshot_locked sample_waiting (9 * second) ''n1'') = ''n1''"
    "\<not> empty_snapshot (snapshot_locked sample_waiting (9 * second) ''n1'')"
    by (simp_all add: snapshot_locked_def sample_waiting_queue empty_snapshot_def)
  then show ?thesis
    using snapshot_converges [of sample_snapshots "snapshot_locked sample_waiting (9 * second) ''n1''" "''n1''"]
    by (simp add: sample_snapshots_def)
qed

end
