(* ===== verification/Quarantine.thy ===== *)
theory Quarantine
  imports Config_Store
begin

text \<open>
  The two quarantine managers of the controller: per volume
  (\<open>driver/volume_quarantine.go\<close>) and per host artifact
  (\<open>driver/host_artifact_quarantine.go\<close>).  A manager is its map of entries; the clock,
  the outcome of the ConfigMap write and JSON decoding are arguments.  The locale
  \<open>quarantine_store\<close> is the contract both share, with the counting of a series of
  failures proved once; each manager interprets it.
\<close>

section \<open>Volume quarantine\<close>

record volume_quarantine =
  vq_volume :: string
  vq_reason :: string
  vq_classification :: string
  vq_message :: string
  vq_node :: string
  vq_owners :: "int list"
  vq_count :: int
  vq_first_at :: go_time
  vq_last_at :: go_time
  vq_expires_at :: go_time

definition vq_load_entry ::
  "(string \<Rightarrow> volume_quarantine option) \<Rightarrow> go_time \<Rightarrow> string \<times> string \<Rightarrow> (string \<times> volume_quarantine) option" where
  "vq_load_entry decode now entry =
     (case decode (snd entry) of
        None \<Rightarrow> None
      | Some st \<Rightarrow>
          (let st = (if trim_space (vq_volume st) = [] then st\<lparr>vq_volume := fst entry\<rparr> else st)
           in if is_zero (vq_expires_at st) \<or> now < vq_expires_at st then Some (vq_volume st, st) else None))"

text \<open>\<open>LoadFromConfigMap\<close> with the reply of the API server; the second component is whether
  an error is returned.\<close>

definition vq_load ::
  "bool \<Rightarrow> (string \<Rightarrow> volume_quarantine option) \<Rightarrow> go_time \<Rightarrow> (string \<times> string) list kube_reply \<Rightarrow>
   (string \<Rightarrow> volume_quarantine option) \<Rightarrow> (string \<Rightarrow> volume_quarantine option) \<times> bool" where
  "vq_load enabled decode now reply m =
     (if \<not> enabled then (m, False)
      else (case reply of
              KubeNotFound \<Rightarrow> (m, False)
            | KubeError \<Rightarrow> (m, True)
            | KubeOk data \<Rightarrow> (load_entries (vq_load_entry decode now) data, False)))"

definition vq_get_active ::
  "go_time \<Rightarrow> string \<Rightarrow> go_time \<Rightarrow> (string \<Rightarrow> volume_quarantine option) \<Rightarrow> volume_quarantine option" where
  "vq_get_active clock volume now m =
     (if trim_space volume = [] then None
      else (let now = (if is_zero now then clock else now)
            in case m volume of
                 None \<Rightarrow> None
               | Some st \<Rightarrow> if is_zero (vq_expires_at st) \<or> \<not> now < vq_expires_at st then None else Some st))"

definition same_quarantine_series :: "volume_quarantine \<Rightarrow> volume_quarantine \<Rightarrow> bool" where
  "same_quarantine_series previous next_state \<longleftrightarrow>
     trim_space (vq_reason previous) = trim_space (vq_reason next_state) \<and>
     trim_space (vq_classification previous) = trim_space (vq_classification next_state) \<and>
     trim_space (vq_node previous) = trim_space (vq_node next_state)"

text \<open>\<open>MarkFailure\<close> up to the persistence of the entry: the stored state, whether the
  quarantine is active, and the new entries.\<close>

definition vq_mark ::
  "go_time \<Rightarrow> volume_quarantine \<Rightarrow> int \<Rightarrow> duration \<Rightarrow> (string \<Rightarrow> volume_quarantine option) \<Rightarrow>
   volume_quarantine \<times> bool \<times> (string \<Rightarrow> volume_quarantine option)" where
  "vq_mark now st threshold ttl m =
     (if trim_space (vq_volume st) = [] then (st, False, m)
      else (let threshold = (if threshold \<le> 0 then 2 else threshold);
                ttl = (if ttl \<le> 0 then 30 * minute else ttl);
                st = st\<lparr>vq_volume := trim_space (vq_volume st), vq_reason := trim_space (vq_reason st),
                   vq_classification := trim_space (vq_classification st), vq_node := trim_space (vq_node st),
                   vq_owners := sort (vq_owners st), vq_last_at := now\<rparr>;
                st = (case m (vq_volume st) of
                        Some previous \<Rightarrow>
                          if same_quarantine_series previous st
                          then st\<lparr>vq_first_at := vq_first_at previous, vq_count := vq_count previous + 1\<rparr>
                          else st\<lparr>vq_first_at := now, vq_count := 1\<rparr>
                      | None \<Rightarrow> st\<lparr>vq_first_at := now, vq_count := 1\<rparr>);
                active = (vq_count st \<ge> threshold);
                st = st\<lparr>vq_expires_at := (if active then now + ttl else 0)\<rparr>
            in (st, active, m(vq_volume st \<mapsto> st))))"

text \<open>The whole \<open>MarkFailure\<close>: the entry is written to the ConfigMap when the Kubernetes
  runtime is enabled; an error of that write is returned with the state.\<close>

definition vq_mark_failure ::
  "(volume_quarantine \<Rightarrow> string) \<Rightarrow> bool \<Rightarrow> write_outcome \<Rightarrow> go_time \<Rightarrow> volume_quarantine \<Rightarrow> int \<Rightarrow> duration \<Rightarrow>
   (string \<Rightarrow> volume_quarantine option) \<times> (string \<Rightarrow> string option) \<Rightarrow>
   (volume_quarantine \<times> bool \<times> bool) \<times> (string \<Rightarrow> volume_quarantine option) \<times> (string \<Rightarrow> string option)" where
  "vq_mark_failure encode enabled w now st threshold ttl s =
     (let (m, cm) = s; (st', active, m') = vq_mark now st threshold ttl m
      in if trim_space (vq_volume st) = [] then ((st', active, False), m', cm)
         else if \<not> enabled then ((st', active, False), m', cm)
         else ((st', active, write_failed w), m', write_key w (vq_volume st') (Some (encode st')) cm))"

text \<open>\<open>volumeQuarantineMessage\<close>\<close>

definition vq_message_text :: "volume_quarantine \<Rightarrow> string" where
  "vq_message_text st =
     (let until = '' until '' @ rfc3339 (vq_expires_at st) @ '' after '' @ itoa (vq_count st) @ '' matching failure(s)''
      in if trim_space (vq_message st) \<noteq> [] then vq_message st @ ''; volume quarantine active'' @ until
         else ''volume '' @ vq_volume st @ '' is quarantined for '' @ vq_reason st @ until)"

definition vq_clear ::
  "bool \<Rightarrow> write_outcome \<Rightarrow> string \<Rightarrow> (string \<Rightarrow> volume_quarantine option) \<times> (string \<Rightarrow> string option) \<Rightarrow>
   bool \<times> (string \<Rightarrow> volume_quarantine option) \<times> (string \<Rightarrow> string option)" where
  "vq_clear enabled w volume s =
     (let (m, cm) = s; key = trim_space volume
      in if key = [] then (False, m, cm)
         else if \<not> enabled then (False, m(key := None), cm)
         else (write_failed w, m(key := None), write_key w key None cm))"

section \<open>Host artifact quarantine\<close>

record artifact_quarantine =
  aq_key :: string
  aq_classification :: string
  aq_reason :: string
  aq_message :: string
  aq_volume :: string
  aq_image :: int
  aq_node :: string
  aq_vm :: int
  aq_host_id :: int
  aq_host :: string
  aq_ds_id :: int
  aq_ds_name :: string
  aq_ds_tm :: string
  aq_disk :: int
  aq_target :: string
  aq_lv :: string
  aq_count :: int
  aq_first_at :: go_time
  aq_last_at :: go_time
  aq_expires_at :: go_time
  aq_hint :: string

definition aq_load_entry ::
  "(string \<Rightarrow> artifact_quarantine option) \<Rightarrow> go_time \<Rightarrow> string \<times> string \<Rightarrow> (string \<times> artifact_quarantine) option" where
  "aq_load_entry decode now entry =
     (case decode (snd entry) of
        None \<Rightarrow> None
      | Some st \<Rightarrow>
          (let st = (if trim_space (aq_key st) = [] then st\<lparr>aq_key := fst entry\<rparr> else st)
           in if is_zero (aq_expires_at st) \<or> now < aq_expires_at st then Some (aq_key st, st) else None))"

definition aq_load ::
  "bool \<Rightarrow> (string \<Rightarrow> artifact_quarantine option) \<Rightarrow> go_time \<Rightarrow> (string \<times> string) list kube_reply \<Rightarrow>
   (string \<Rightarrow> artifact_quarantine option) \<Rightarrow> (string \<Rightarrow> artifact_quarantine option) \<times> bool" where
  "aq_load enabled decode now reply m =
     (if \<not> enabled then (m, False)
      else (case reply of
              KubeNotFound \<Rightarrow> (m, False)
            | KubeError \<Rightarrow> (m, True)
            | KubeOk data \<Rightarrow> (load_entries (aq_load_entry decode now) data, False)))"

definition aq_get_active ::
  "go_time \<Rightarrow> string \<Rightarrow> go_time \<Rightarrow> (string \<Rightarrow> artifact_quarantine option) \<Rightarrow> artifact_quarantine option" where
  "aq_get_active clock key now m =
     (if trim_space key = [] then None
      else (let now = (if is_zero now then clock else now)
            in case m (trim_space key) of
                 None \<Rightarrow> None
               | Some st \<Rightarrow> if is_zero (aq_expires_at st) \<or> \<not> now < aq_expires_at st then None else Some st))"

definition same_host_artifact_series :: "artifact_quarantine \<Rightarrow> artifact_quarantine \<Rightarrow> bool" where
  "same_host_artifact_series previous next_state \<longleftrightarrow>
     trim_space (aq_classification previous) = trim_space (aq_classification next_state) \<and>
     aq_vm previous = aq_vm next_state \<and> aq_disk previous = aq_disk next_state \<and>
     trim_space (aq_lv previous) = trim_space (aq_lv next_state)"

definition default_to :: "string \<Rightarrow> string \<Rightarrow> string" where
  "default_to d s = (if s = [] then d else s)"

definition aq_mark ::
  "go_time \<Rightarrow> artifact_quarantine \<Rightarrow> int \<Rightarrow> duration \<Rightarrow> (string \<Rightarrow> artifact_quarantine option) \<Rightarrow>
   artifact_quarantine \<times> bool \<times> (string \<Rightarrow> artifact_quarantine option)" where
  "aq_mark now st threshold ttl m =
     (let st = st\<lparr>aq_key := trim_space (aq_key st)\<rparr>
      in if aq_key st = [] then (st, False, m)
         else (let threshold = (if threshold \<le> 0 then 1 else threshold);
                   ttl = (if ttl \<le> 0 then 60 * minute else ttl);
                   st = st\<lparr>aq_classification := default_to ''host_local_lv_conflict'' (trim_space (aq_classification st)),
                      aq_reason := default_to ''external_host_artifact_repair_required'' (trim_space (aq_reason st)),
                      aq_last_at := now\<rparr>;
                   st = (case m (aq_key st) of
                           Some previous \<Rightarrow>
                             if same_host_artifact_series previous st
                             then st\<lparr>aq_first_at := aq_first_at previous, aq_count := aq_count previous + 1\<rparr>
                             else st\<lparr>aq_first_at := now, aq_count := 1\<rparr>
                         | None \<Rightarrow> st\<lparr>aq_first_at := now, aq_count := 1\<rparr>);
                   active = (aq_count st \<ge> threshold);
                   st = st\<lparr>aq_expires_at := (if active then now + ttl else 0)\<rparr>
               in (st, active, m(aq_key st \<mapsto> st))))"

definition aq_mark_failure ::
  "(artifact_quarantine \<Rightarrow> string) \<Rightarrow> bool \<Rightarrow> write_outcome \<Rightarrow> go_time \<Rightarrow> artifact_quarantine \<Rightarrow> int \<Rightarrow> duration \<Rightarrow>
   (string \<Rightarrow> artifact_quarantine option) \<times> (string \<Rightarrow> string option) \<Rightarrow>
   (artifact_quarantine \<times> bool \<times> bool) \<times> (string \<Rightarrow> artifact_quarantine option) \<times> (string \<Rightarrow> string option)" where
  "aq_mark_failure encode enabled w now st threshold ttl s =
     (let (m, cm) = s; (st', active, m') = aq_mark now st threshold ttl m
      in if aq_key st' = [] \<or> \<not> enabled then ((st', active, False), m', cm)
         else ((st', active, write_failed w), m', write_key w (aq_key st') (Some (encode st')) cm))"

text \<open>\<open>hostArtifactQuarantineMessage\<close>\<close>

definition aq_message_text :: "artifact_quarantine \<Rightarrow> string" where
  "aq_message_text st =
     (let until = '' until '' @ rfc3339 (aq_expires_at st) @ '' after '' @ itoa (aq_count st) @ '' matching failure(s)''
      in if trim_space (aq_message st) = [] then ''host artifact quarantine active for '' @ aq_key st @ until
         else if trim_space (aq_hint st) \<noteq> [] then aq_message st @ ''; '' @ aq_hint st @ ''; host artifact quarantine active'' @ until
         else aq_message st @ ''; host artifact quarantine active'' @ until)"

definition aq_clear ::
  "bool \<Rightarrow> write_outcome \<Rightarrow> string \<Rightarrow> (string \<Rightarrow> artifact_quarantine option) \<times> (string \<Rightarrow> string option) \<Rightarrow>
   bool \<times> (string \<Rightarrow> artifact_quarantine option) \<times> (string \<Rightarrow> string option)" where
  "aq_clear enabled w key s =
     (let (m, cm) = s; key = trim_space key
      in if key = [] then (False, m, cm)
         else if \<not> enabled then (False, m(key := None), cm)
         else (write_failed w, m(key := None), write_key w key None cm))"

section \<open>The contract of a quarantine store\<close>

text \<open>A report has a key and a series; an entry has its series, a count, the instant of
  the first report and the end of the quarantine.  \<open>limit\<close> and \<open>period\<close> are the threshold
  and the duration after the defaults.\<close>

locale quarantine_store =
  fixes mark :: "go_time \<Rightarrow> 'st \<Rightarrow> int \<Rightarrow> duration \<Rightarrow> (string \<Rightarrow> 'st option) \<Rightarrow> 'st \<times> bool \<times> (string \<Rightarrow> 'st option)"
    and get_active :: "go_time \<Rightarrow> string \<Rightarrow> go_time \<Rightarrow> (string \<Rightarrow> 'st option) \<Rightarrow> 'st option"
    and load_entry :: "(string \<Rightarrow> 'st option) \<Rightarrow> go_time \<Rightarrow> string \<times> string \<Rightarrow> (string \<times> 'st) option"
    and key :: "'st \<Rightarrow> string"
    and stored_key :: "'st \<Rightarrow> string"
    and series :: "'st \<Rightarrow> 'k"
    and report_series :: "'st \<Rightarrow> 'k"
    and count :: "'st \<Rightarrow> int"
    and first_at :: "'st \<Rightarrow> go_time"
    and expires :: "'st \<Rightarrow> go_time"
    and limit :: "int \<Rightarrow> int"
    and period :: "duration \<Rightarrow> duration"
  assumes mark_store: "key st \<noteq> [] \<Longrightarrow> \<exists>st'. mark now st th ttl m = (st', limit th \<le> count st', m(key st \<mapsto> st')) \<and>
      stored_key st' = key st \<and> series st' = report_series st \<and>
      (case m (key st) of
         Some p \<Rightarrow> if series p = report_series st then count st' = count p + 1 \<and> first_at st' = first_at p
                  else count st' = 1 \<and> first_at st' = now
       | None \<Rightarrow> count st' = 1 \<and> first_at st' = now) \<and>
      expires st' = (if limit th \<le> count st' then now + period ttl else 0)"
    and get_active_lookup: "trim_space k = k \<Longrightarrow> k \<noteq> [] \<Longrightarrow> t \<noteq> 0 \<Longrightarrow>
      get_active clock k t m = (case m k of None \<Rightarrow> None
        | Some st \<Rightarrow> if expires st = 0 \<or> \<not> t < expires st then None else Some st)"
    and key_trimmed: "trim_space (key st) = key st"
    and load_entry_decoded: "decode raw = Some st \<Longrightarrow> trim_space (stored_key st) \<noteq> [] \<Longrightarrow>
      load_entry decode now (k, raw) = (if expires st = 0 \<or> now < expires st then Some (stored_key st, st) else None)"
begin

definition mark_all :: "int \<Rightarrow> duration \<Rightarrow> (go_time \<times> 'st) list \<Rightarrow> (string \<Rightarrow> 'st option) \<Rightarrow> string \<Rightarrow> 'st option" where
  "mark_all th ttl rs m = foldl (\<lambda>m r. snd (snd (mark (fst r) (snd r) th ttl m))) m rs"

definition counted :: "int \<Rightarrow> duration \<Rightarrow> 'k \<Rightarrow> string \<Rightarrow> (go_time \<times> 'st) list \<Rightarrow> 'st option \<Rightarrow> bool" where
  "counted th ttl ser k rs e \<longleftrightarrow>
     (\<exists>st. e = Some st \<and> stored_key st = k \<and> series st = ser \<and> count st = int (length rs) \<and> first_at st = fst (hd rs) \<and>
        expires st = (if limit th \<le> int (length rs) then fst (last rs) + period ttl else 0))"

lemma mark_all_counted:
  assumes "rs \<noteq> []" "\<And>r. r \<in> set rs \<Longrightarrow> key (snd r) = k \<and> report_series (snd r) = ser" "k \<noteq> []"
    and "\<And>p. m k = Some p \<Longrightarrow> series p \<noteq> ser"
  shows "counted th ttl ser k rs (mark_all th ttl rs m k) \<and> (\<forall>k'. k' \<noteq> k \<longrightarrow> mark_all th ttl rs m k' = m k')"
  using assms(1,2)
proof (induction rs rule: rev_nonempty_induct)
  case (single r)
  then have r: "key (snd r) = k" "report_series (snd r) = ser" by simp_all
  obtain st' where "mark (fst r) (snd r) th ttl m = (st', limit th \<le> count st', m(k \<mapsto> st'))" "stored_key st' = k" "series st' = ser"
      "count st' = 1 \<and> first_at st' = fst r" "expires st' = (if limit th \<le> count st' then fst r + period ttl else 0)"
    using mark_store [of "snd r" "fst r" th ttl m] assms(3,4) r by (fastforce split: option.splits)
  then show ?case by (simp add: mark_all_def counted_def)
next
  case (snoc r rs)
  then have r: "key (snd r) = k" "report_series (snd r) = ser" by simp_all
  let ?m = "mark_all th ttl rs m"
  have IH: "counted th ttl ser k rs (?m k)" "\<forall>k'. k' \<noteq> k \<longrightarrow> ?m k' = m k'"
    using snoc.IH snoc.prems by simp_all
  then obtain p where p: "?m k = Some p" "series p = ser" "count p = int (length rs)" "first_at p = fst (hd rs)"
    by (auto simp: counted_def)
  obtain st' where st': "mark (fst r) (snd r) th ttl ?m = (st', limit th \<le> count st', ?m(k \<mapsto> st'))" "stored_key st' = k" "series st' = ser"
      "count st' = count p + 1 \<and> first_at st' = first_at p" "expires st' = (if limit th \<le> count st' then fst r + period ttl else 0)"
    using mark_store [of "snd r" "fst r" th ttl ?m] assms(3) r p by fastforce
  have "mark_all th ttl (rs @ [r]) m = ?m(k \<mapsto> st')" using st'(1) by (simp add: mark_all_def)
  then show ?case using st' p IH(2) snoc(1) by (simp add: counted_def add.commute)
qed

lemma quarantine_exact:
  assumes "rs \<noteq> []" "\<And>r. r \<in> set rs \<Longrightarrow> key (snd r) = k \<and> report_series (snd r) = ser" "k \<noteq> []"
    and "\<And>p. m k = Some p \<Longrightarrow> series p \<noteq> ser" "0 < fst (last rs) + period ttl" "t \<noteq> 0"
  shows "(get_active clock k t (mark_all th ttl rs m) \<noteq> None) =
    (limit th \<le> int (length rs) \<and> t < fst (last rs) + period ttl)"
proof -
  have "trim_space k = k" using assms(1,2) key_trimmed by (metis last_in_set)
  moreover obtain st where "mark_all th ttl rs m k = Some st"
      "expires st = (if limit th \<le> int (length rs) then fst (last rs) + period ttl else 0)"
    using mark_all_counted [of rs k ser m th ttl, OF assms(1-4)] by (auto simp: counted_def)
  ultimately show ?thesis using get_active_lookup [of k t clock] assms(3,5,6) by simp
qed

lemma reload_keeps:
  assumes "counted th ttl ser k rs (mark_all th ttl rs m k)" "k \<noteq> []" "trim_space k = k"
    and json: "decode (encode (the (mark_all th ttl rs m k))) = Some (the (mark_all th ttl rs m k))"
    and "(k, encode (the (mark_all th ttl rs m k))) \<in> set data" "distinct (map fst data)"
    and others: "\<And>k' raw st. (k', raw) \<in> set data \<Longrightarrow> load_entry decode now (k', raw) = Some (k, st) \<Longrightarrow> k' = k"
    and "0 < now" "now \<le> t"
  shows "get_active clock k t (load_entries (load_entry decode now) data) = get_active clock k t (mark_all th ttl rs m)"
proof -
  obtain st where st: "mark_all th ttl rs m k = Some st" "stored_key st = k" using assms(1) by (auto simp: counted_def)
  have entry: "load_entry decode now (k, encode st) = (if expires st = 0 \<or> now < expires st then Some (k, st) else None)"
    using load_entry_decoded [of decode "encode st" st now k] json st assms(2,3) by simp
  have only: "e = (k, encode st)" if "e \<in> set data" "load_entry decode now e = Some (k, v)" for e v
  proof -
    obtain k' raw where e: "e = (k', raw)" by fastforce
    then have "k' = k" using that others [of k' raw v] by simp
    moreover have "(k, encode st) \<in> set data" using assms(5) st(1) by simp
    ultimately show ?thesis using e that(1) assms(6) eq_key_imp_eq_value [of data k raw "encode st"] by simp
  qed
  have mem: "(k, encode st) \<in> set data" using assms(5) st(1) by simp
  have loaded: "load_entries (load_entry decode now) data k = (if expires st = 0 \<or> now < expires st then Some st else None)"
  proof (cases "expires st = 0 \<or> now < expires st")
    case True
    then have kept: "load_entry decode now (k, encode st) = Some (k, st)" using entry by simp
    have "v = st" if "e \<in> set data" "load_entry decode now e = Some (k, v)" for e v
      using only [OF that] that(2) kept by simp
    then have "load_entries (load_entry decode now) data k = Some st" by (rule load_entries_some [where f = "load_entry decode now", OF mem kept])
    then show ?thesis using True by simp
  next
    case False
    then have dropped: "load_entry decode now (k, encode st) = None" using entry by simp
    have "load_entry decode now e \<noteq> Some (k, v)" if "e \<in> set data" for e v
      using only [of e v] that dropped by auto
    then show ?thesis using False load_entries_none [of data "load_entry decode now" k] by auto
  qed
  then show ?thesis
    using get_active_lookup [of k t clock] assms(2,3,8,9) st(1) by auto
qed

end

section \<open>Both managers are quarantine stores\<close>

text \<open>What tells one series of failures from another, and the defaults of \<open>MarkFailure\<close>.\<close>

definition volume_series :: "volume_quarantine \<Rightarrow> string \<times> string \<times> string" where
  "volume_series st = (trim_space (vq_reason st), trim_space (vq_classification st), trim_space (vq_node st))"

definition volume_limit :: "int \<Rightarrow> int" where "volume_limit th = (if th \<le> 0 then 2 else th)"
definition volume_period :: "duration \<Rightarrow> duration" where "volume_period ttl = (if ttl \<le> 0 then 30 * minute else ttl)"

definition artifact_series :: "artifact_quarantine \<Rightarrow> string \<times> int \<times> int \<times> string" where
  "artifact_series st = (trim_space (aq_classification st), aq_vm st, aq_disk st, trim_space (aq_lv st))"

definition artifact_report_series :: "artifact_quarantine \<Rightarrow> string \<times> int \<times> int \<times> string" where
  "artifact_report_series st =
     (default_to ''host_local_lv_conflict'' (trim_space (aq_classification st)), aq_vm st, aq_disk st, trim_space (aq_lv st))"

definition artifact_limit :: "int \<Rightarrow> int" where "artifact_limit th = (if th \<le> 0 then 1 else th)"
definition artifact_period :: "duration \<Rightarrow> duration" where "artifact_period ttl = (if ttl \<le> 0 then 60 * minute else ttl)"

lemma same_quarantine_series_alt: "same_quarantine_series p st \<longleftrightarrow> volume_series p = volume_series st"
  by (auto simp: same_quarantine_series_def volume_series_def)

lemma same_host_artifact_series_alt: "same_host_artifact_series p st \<longleftrightarrow> artifact_series p = artifact_series st"
  by (auto simp: same_host_artifact_series_def artifact_series_def)

lemma trim_default_class:
  "trim_space (default_to ''host_local_lv_conflict'' (trim_space s)) = default_to ''host_local_lv_conflict'' (trim_space s)"
  by (simp add: default_to_def trim_space_idem) (simp add: trim_space_def is_space_def)

interpretation volumes: quarantine_store vq_mark vq_get_active vq_load_entry "\<lambda>st. trim_space (vq_volume st)" vq_volume
  volume_series volume_series vq_count vq_first_at vq_expires_at volume_limit volume_period
proof (unfold_locales, goal_cases)
  case (1 st now th ttl m)
  then show ?case
    by (cases "m (trim_space (vq_volume st))")
      (auto simp: vq_mark_def Let_def same_quarantine_series_alt volume_series_def volume_limit_def volume_period_def trim_space_idem)
qed (auto simp: vq_get_active_def vq_load_entry_def is_zero_def trim_space_idem Let_def split: option.splits)

interpretation artifacts: quarantine_store aq_mark aq_get_active aq_load_entry "\<lambda>st. trim_space (aq_key st)" aq_key
  artifact_series artifact_report_series aq_count aq_first_at aq_expires_at artifact_limit artifact_period
proof (unfold_locales, goal_cases)
  case (1 st now th ttl m)
  then show ?case
    by (cases "m (trim_space (aq_key st))")
      (auto simp: aq_mark_def Let_def same_host_artifact_series_alt artifact_series_def artifact_report_series_def
        artifact_limit_def artifact_period_def trim_space_idem trim_default_class)
qed (auto simp: aq_get_active_def aq_load_entry_def is_zero_def trim_space_idem Let_def split: option.splits)

section \<open>Runs of failures\<close>

text \<open>A run of calls of \<open>MarkFailure\<close>: the outcome of the ConfigMap write, the instant and
  the report of each.\<close>

definition volume_failures ::
  "(volume_quarantine \<Rightarrow> string) \<Rightarrow> bool \<Rightarrow> int \<Rightarrow> duration \<Rightarrow> (write_outcome \<times> go_time \<times> volume_quarantine) list \<Rightarrow>
   (string \<Rightarrow> volume_quarantine option) \<times> (string \<Rightarrow> string option) \<Rightarrow>
   (string \<Rightarrow> volume_quarantine option) \<times> (string \<Rightarrow> string option)" where
  "volume_failures encode enabled th ttl rs s =
     foldl (\<lambda>s r. snd (vq_mark_failure encode enabled (fst r) (fst (snd r)) (snd (snd r)) th ttl s)) s rs"

definition artifact_failures ::
  "(artifact_quarantine \<Rightarrow> string) \<Rightarrow> bool \<Rightarrow> int \<Rightarrow> duration \<Rightarrow> (write_outcome \<times> go_time \<times> artifact_quarantine) list \<Rightarrow>
   (string \<Rightarrow> artifact_quarantine option) \<times> (string \<Rightarrow> string option) \<Rightarrow>
   (string \<Rightarrow> artifact_quarantine option) \<times> (string \<Rightarrow> string option)" where
  "artifact_failures encode enabled th ttl rs s =
     foldl (\<lambda>s r. snd (aq_mark_failure encode enabled (fst r) (fst (snd r)) (snd (snd r)) th ttl s)) s rs"

lemma volume_failures_entries:
  "fst (volume_failures encode enabled th ttl rs s) = volumes.mark_all th ttl (map snd rs) (fst s)"
  unfolding volume_failures_def volumes.mark_all_def
  by (induction rs arbitrary: s) (auto simp: vq_mark_failure_def Let_def split: prod.splits)

lemma artifact_failures_entries:
  "fst (artifact_failures encode enabled th ttl rs s) = artifacts.mark_all th ttl (map snd rs) (fst s)"
  unfolding artifact_failures_def artifacts.mark_all_def
  by (induction rs arbitrary: s) (auto simp: aq_mark_failure_def Let_def split: prod.splits)

lemma volume_failures_persisted:
  assumes "rs \<noteq> []" "fst (last rs) = Written" "trim_space (vq_volume (snd (snd (last rs)))) = vol" "vol \<noteq> []"
  shows "snd (volume_failures encode True th ttl rs s) vol =
    map_option encode (fst (volume_failures encode True th ttl rs s) vol)"
proof -
  let ?r = "last rs"
  obtain m cm where s: "volume_failures encode True th ttl (butlast rs) s = (m, cm)" by fastforce
  have run: "volume_failures encode True th ttl rs s =
      snd (vq_mark_failure encode True (fst ?r) (fst (snd ?r)) (snd (snd ?r)) th ttl (m, cm))"
    unfolding volume_failures_def
    by (subst append_butlast_last_id [OF assms(1), symmetric]) (simp add: s [unfolded volume_failures_def])
  have key: "trim_space (vq_volume (snd (snd ?r))) \<noteq> []" using assms(3,4) by simp
  obtain st' where "vq_mark (fst (snd ?r)) (snd (snd ?r)) th ttl m = (st', volume_limit th \<le> vq_count st', m(vol \<mapsto> st'))"
      "vq_volume st' = vol"
    using volumes.mark_store [OF key] assms(3) by blast
  then show ?thesis unfolding run using assms(2-4) by (simp add: vq_mark_failure_def write_key_def)
qed

section \<open>Properties\<close>

text \<open>C38. Volume quarantine: after a run of failures of one volume with the same reason,
  classification and node, and no entry of that series before, the volume is reported
  as quarantined at time \<open>t\<close> exactly if the run has reached the threshold (default 2) and
  \<open>t\<close> is before the last failure plus the duration (default 30 minutes), whatever
  happened to the ConfigMap writes; no other volume is affected.\<close>

theorem volume_quarantine_exact:
  assumes "rs \<noteq> []" "list_all (\<lambda>(w, now, st). trim_space (vq_volume st) = vol \<and> volume_series st = ser) rs"
    and "vol \<noteq> []" "case m vol of None \<Rightarrow> True | Some p \<Rightarrow> volume_series p \<noteq> ser"
    and "0 < fst (snd (last rs)) + volume_period ttl" "t \<noteq> 0"
    and m': "m' = fst (volume_failures encode enabled th ttl rs (m, cm))"
  shows "(vq_get_active clock vol t m' \<noteq> None) =
      (volume_limit th \<le> int (length rs) \<and> t < fst (snd (last rs)) + volume_period ttl) \<and>
    (\<forall>vol'. vol' \<noteq> vol \<longrightarrow> m' vol' = m vol')"
proof -
  have "\<And>r. r \<in> set (map snd rs) \<Longrightarrow> trim_space (vq_volume (snd r)) = vol \<and> volume_series (snd r) = ser"
      "\<And>p. m vol = Some p \<Longrightarrow> volume_series p \<noteq> ser" "map snd rs \<noteq> []" "fst (last (map snd rs)) = fst (snd (last rs))"
    using assms(1,2,4) by (auto simp: list_all_iff last_map)
  then show ?thesis
    unfolding m' volume_failures_entries
    using volumes.quarantine_exact [of "map snd rs" vol ser m ttl t clock th]
      volumes.mark_all_counted [of "map snd rs" vol ser m th ttl] assms(3,5,6) by auto
qed

definition sample_report :: "string \<Rightarrow> volume_quarantine" where
  "sample_report vol = \<lparr>vq_volume = vol, vq_reason = ''attach'', vq_classification = ''stuck '', vq_message = [],
     vq_node = ''n1'', vq_owners = [9, 4], vq_count = 0, vq_first_at = 0, vq_last_at = 0, vq_expires_at = 0\<rparr>"

theorem volume_quarantine_exact_witness:
  "vq_get_active 0 ''7'' 900 (fst (volume_failures (\<lambda>_. []) True 2 500
     [(Written, 300, sample_report '' 7''), (Rejected, 450, sample_report ''7'')] (Map.empty, Map.empty))) \<noteq> None"
proof -
  have "trim_space '' 7'' = ''7''" "trim_space ''7'' = ''7''" by (simp_all add: trim_space_def is_space_def)
  then show ?thesis
    using volume_quarantine_exact [where vol = "''7''" and ser = "volume_series (sample_report ''7'')" and m = Map.empty
      and th = 2 and ttl = 500 and t = 900 and encode = "\<lambda>_. []" and enabled = True and cm = Map.empty and clock = 0
      and rs = "[(Written, 300, sample_report '' 7''), (Rejected, 450, sample_report ''7'')]", OF _ _ _ _ _ _ refl]
    by (simp add: sample_report_def volume_series_def volume_limit_def volume_period_def)
qed

text \<open>Host artifact quarantine: the same for a run of conflicts with one key and the
  same classification, virtual machine, disk and logical volume; the default
  threshold is one failure and the default duration one hour.\<close>

lemma artifact_quarantine_exact:
  assumes "rs \<noteq> []" "list_all (\<lambda>(w, now, st). trim_space (aq_key st) = key \<and> artifact_report_series st = ser) rs"
    and "key \<noteq> []" "case m key of None \<Rightarrow> True | Some p \<Rightarrow> artifact_series p \<noteq> ser"
    and "0 < fst (snd (last rs)) + artifact_period ttl" "t \<noteq> 0"
    and m': "m' = fst (artifact_failures encode enabled th ttl rs (m, cm))"
  shows "(aq_get_active clock key t m' \<noteq> None) =
      (artifact_limit th \<le> int (length rs) \<and> t < fst (snd (last rs)) + artifact_period ttl) \<and>
    (\<forall>key'. key' \<noteq> key \<longrightarrow> m' key' = m key')"
proof -
  have "\<And>r. r \<in> set (map snd rs) \<Longrightarrow> trim_space (aq_key (snd r)) = key \<and> artifact_report_series (snd r) = ser"
      "\<And>p. m key = Some p \<Longrightarrow> artifact_series p \<noteq> ser" "map snd rs \<noteq> []" "fst (last (map snd rs)) = fst (snd (last rs))"
    using assms(1,2,4) by (auto simp: list_all_iff last_map)
  then show ?thesis
    unfolding m' artifact_failures_entries
    using artifacts.quarantine_exact [of "map snd rs" key ser m ttl t clock th]
      artifacts.mark_all_counted [of "map snd rs" key ser m th ttl] assms(3,5,6) by auto
qed

definition sample_conflict :: artifact_quarantine where
  "sample_conflict = \<lparr>aq_key = ''h1:lv'', aq_classification = [], aq_reason = [], aq_message = [], aq_volume = ''7'',
     aq_image = 7, aq_node = ''n1'', aq_vm = 3, aq_host_id = 1, aq_host = ''h1'', aq_ds_id = 0, aq_ds_name = [],
     aq_ds_tm = [], aq_disk = 2, aq_target = ''sdc'', aq_lv = ''lv-one-3-2'', aq_count = 0, aq_first_at = 0,
     aq_last_at = 0, aq_expires_at = 0, aq_hint = []\<rparr>"

lemma artifact_quarantine_exact_witness:
  "aq_get_active 0 ''h1:lv'' 900 (fst (artifact_failures (\<lambda>_. []) True 0 500 [(Written, 300, sample_conflict)]
     (Map.empty, Map.empty))) = None \<and>
   aq_get_active 0 ''h1:lv'' 700 (fst (artifact_failures (\<lambda>_. []) True 0 500 [(Written, 300, sample_conflict)]
     (Map.empty, Map.empty))) \<noteq> None"
proof -
  have "trim_space ''h1:lv'' = ''h1:lv''" by (simp add: trim_space_def is_space_def)
  then have "(aq_get_active 0 ''h1:lv'' t (fst (artifact_failures (\<lambda>_. []) True 0 500 [(Written, 300, sample_conflict)]
     (Map.empty, Map.empty))) \<noteq> None) = (t < 800)" if "t \<noteq> 0" for t
    using artifact_quarantine_exact [where key = "''h1:lv''" and ser = "artifact_report_series sample_conflict"
        and m = Map.empty and th = 0 and ttl = 500 and encode = "\<lambda>_. []" and enabled = True and cm = Map.empty and clock = 0
        and rs = "[(Written, 300, sample_conflict)]" and t = t, OF _ _ _ _ _ _ refl] that
    by (simp add: sample_conflict_def artifact_limit_def artifact_period_def)
  from this [of 900] this [of 700] show ?thesis by simp
qed

text \<open>A volume quarantine survives a restart: if the last failure of the run was
  written to the ConfigMap, every entry is stored under its own volume, and decoding
  inverts encoding, then the manager rebuilt at \<open>now\<close> from the ConfigMap answers every
  later query for the volume as the old one would have.\<close>

lemma volume_quarantine_restart:
  assumes "rs \<noteq> []" "list_all (\<lambda>(w, now, st). trim_space (vq_volume st) = vol \<and> volume_series st = ser) rs"
    and "vol \<noteq> []" "case m vol of None \<Rightarrow> True | Some p \<Rightarrow> volume_series p \<noteq> ser"
    and "fst (last rs) = Written"
    and s': "(m', cm') = volume_failures encode True th ttl rs (m, cm)"
    and json: "decode (encode (the (m' vol))) = Some (the (m' vol))"
    and data: "map_of data = cm'" "distinct (map fst data)"
    and own: "list_all (\<lambda>(k, raw). case decode raw of None \<Rightarrow> True | Some st \<Rightarrow> vq_volume st = k) data"
    and "0 < now" "now \<le> t"
  shows "vq_get_active clock vol t (fst (vq_load True decode now (KubeOk data) old)) = vq_get_active clock vol t m'"
proof -
  have run: "volumes.mark_all th ttl (map snd rs) m = m'" using s' volume_failures_entries [of encode True th ttl rs "(m, cm)"]
    by (metis fst_conv)
  have reports: "\<And>r. r \<in> set (map snd rs) \<Longrightarrow> trim_space (vq_volume (snd r)) = vol \<and> volume_series (snd r) = ser"
      "\<And>p. m vol = Some p \<Longrightarrow> volume_series p \<noteq> ser" "map snd rs \<noteq> []" "trim_space (vq_volume (snd (snd (last rs)))) = vol"
    using assms(1,2,4) by (auto simp: list_all_iff split: prod.splits) (metis last_in_set prod.collapse)
  have "trim_space vol = vol" using reports(4) trim_space_idem by metis
  have counted: "volumes.counted th ttl ser vol (map snd rs) (volumes.mark_all th ttl (map snd rs) m vol)"
    using volumes.mark_all_counted [OF reports(3) reports(1) assms(3) reports(2)] by blast
  then have "m' vol \<noteq> None" unfolding run by (auto simp: volumes.counted_def)
  moreover have "cm' vol = map_option encode (m' vol)"
    using volume_failures_persisted [OF assms(1,5) reports(4) assms(3), of encode th ttl "(m, cm)"] s' [symmetric] by simp
  ultimately have mem: "(vol, encode (the (m' vol))) \<in> set data" using data(1) by (auto dest: map_of_SomeD)
  have others: "k' = vol" if "(k', raw) \<in> set data" "vq_load_entry decode now (k', raw) = Some (vol, st)" for k' raw st
    using own that by (auto simp: list_all_iff vq_load_entry_def Let_def split: option.splits if_splits)
  show ?thesis
    using volumes.reload_keeps [where decode = decode and encode = encode, OF counted assms(3) \<open>trim_space vol = vol\<close>, unfolded run, OF json mem data(2) others assms(11,12)]
    by (simp add: vq_load_def)
qed

lemma volume_quarantine_restart_witness:
  "\<exists>m' cm'. (m', cm') = volume_failures (\<lambda>_. ''x'') True 1 500 [(Written, 300, sample_report ''7'')] (Map.empty, Map.empty) \<and>
     vq_get_active 0 ''7'' 700 (fst (vq_load True (\<lambda>_. m' ''7'') 600 (KubeOk [(''7'', ''x'')]) Map.empty)) =
     vq_get_active 0 ''7'' 700 m'"
proof -
  have trim: "trim_space ''7'' = ''7''" by (simp add: trim_space_def is_space_def)
  obtain m' cm' where s': "(m', cm') = volume_failures (\<lambda>_. ''x'') True 1 500 [(Written, 300, sample_report ''7'')] (Map.empty, Map.empty)"
    by (metis prod.collapse)
  obtain st where st: "m' ''7'' = Some st" "vq_volume st = ''7''" "cm' = [''7'' \<mapsto> ''x'']"
    using s' trim unfolding volume_failures_def vq_mark_failure_def vq_mark_def sample_report_def
    by (simp add: Let_def write_key_def)
  have "vq_get_active 0 ''7'' 700 (fst (vq_load True (\<lambda>_. m' ''7'') 600 (KubeOk [(''7'', ''x'')]) Map.empty)) =
     vq_get_active 0 ''7'' 700 m'"
    by (rule volume_quarantine_restart [OF _ _ _ _ _ s', where ser = "volume_series (sample_report ''7'')"])
      (use st trim in \<open>simp_all add: sample_report_def fun_eq_iff\<close>)
  then show ?thesis using s' by blast
qed

end
