(* ===== verification/Controller_Attach.thy ===== *)
theory Controller_Attach
  imports Maintenance_Mode Disk_Operations Adaptive_Timeout Hotplug_Guard Hotplug_Queue Quarantine "HOL-Library.State_Monad"
begin

text \<open>
  Publishing and unpublishing of volumes (\<open>driver/controllerserver.go\<close>,
  \<open>driver/metadata_drift.go\<close>, \<open>driver/host_artifact_controller.go\<close>): the handlers with
  their fast paths, the delayed detach, the reuse of a held attachment, the move of a volume
  from one node to another and the expiry of a hold.  The handlers compose the components of
  the other theories: the provider, the sticky manager, the quarantines, the hotplug guard
  and the adaptive timeouts.

  The state of the driver and the outside world are threaded through a state monad; every
  access to the API server or to OpenNebula may change the outside world.  The hotplug queue
  is represented by its answer: it runs the closure of this call, or it does not and returns
  an error or success.  Events, metrics and asynchronous annotations are left out.  The text
  of a status is the text the source gives it; where the source appends the error of a failed
  ConfigMap write, the text stops before it.
\<close>

section \<open>State\<close>

text \<open>A history of what the driver saw and did to attachments, in order: the disk of a volume
  looked up on a node, the replies to attach and detach, and that the cluster wants a volume
  on a node.  No operation reads it.\<close>

datatype attach_event =
    Observed string string "string option"
  | DetachReply string string bool
  | AttachReply string string bool
  | WantedOn string string

record ('r, 's) driver_world =
  w_sticky :: "'r sticky_manager"
  w_vq :: "(string \<Rightarrow> volume_quarantine option) \<times> (string \<Rightarrow> string option)"
  w_aq :: "(string \<Rightarrow> artifact_quarantine option) \<times> (string \<Rightarrow> string option)"
  w_aq_keys :: "string list"
  w_guard :: hotplug_guard
  w_guard_log :: "snapshot_action list"
  w_tracker :: tracker
  w_maintenance :: bool
  w_log :: "attach_event list"
  w_out :: 's

text \<open>What the handlers read of the configuration; an option is a setting that may be absent.\<close>

record settings =
  st_kube :: bool
  st_queue :: "bool option"
  st_guard :: guard_policy
  st_restart :: "bool option"
  st_require_ready :: "bool option"
  st_grace :: "int option"
  st_grace_max :: "int option"
  st_drift :: "bool option"
  st_drift_threshold :: "int option"
  st_drift_ttl :: "int option"
  st_artifact :: "bool option"
  st_artifact_threshold :: "int option"
  st_artifact_ttl :: "int option"
  st_discovery :: "int option"
  st_release_min :: "int option"
  st_release_max :: "int option"

text \<open>The answer of the hotplug queue to a call: the closure of this call runs and its result is
  the answer; it runs but the queue reports that it took too long; or it does not run, and the
  call returns an error of the queue, the status of the request it joined, or success.\<close>

datatype hotplug_error = QueueFailed queue_error | BodyFailed "grpc_code \<times> string"

datatype queue_answer = Runs | RunsLate queue_error | Skips "hotplug_error option"

text \<open>What the driver is connected to: the two APIs, the queue, the shared filesystem provider, the
  outcomes of ConfigMap writes, the encodings, and floating point arithmetic.\<close>

record ('r, 's) environment =
  ev_api :: "'s one_api"
  ev_kube :: "'s kube_api"
  ev_shared_publish :: "(string \<Rightarrow> bool \<Rightarrow> ('s, str_map) op) option"
  ev_health :: "string \<Rightarrow> 's \<Rightarrow> (bool \<Rightarrow> node_health) \<times> 's"
  ev_pause :: "string \<Rightarrow> 's \<Rightarrow> cooldown_state option \<times> 's"
  ev_write :: "'s \<Rightarrow> write_outcome \<times> 's"
  ev_writes :: "'s \<Rightarrow> (string \<Rightarrow> write_outcome) \<times> 's"
  ev_sticky_json :: "sticky_state \<Rightarrow> 'r"
  ev_volume_json :: "volume_quarantine \<Rightarrow> string"
  ev_artifact_json :: "artifact_quarantine \<Rightarrow> string"
  ev_ceil :: "int \<Rightarrow> int \<Rightarrow> int"
  ev_percentile :: "nat \<Rightarrow> int"
  ev_queue :: "string \<Rightarrow> string \<Rightarrow> string \<Rightarrow> queue_priority \<Rightarrow> 's \<Rightarrow> queue_answer \<times> 's"
  ev_diagnose :: "string \<Rightarrow> 's \<Rightarrow> 's"
  ev_policy :: hotplug_policy
  ev_fuel :: nat

type_synonym ('r, 's, 'a) handler = "(('r, 's) driver_world, 'a) state"

definition enabled_by_default :: "bool option \<Rightarrow> bool" where
  "enabled_by_default x \<longleftrightarrow> x \<noteq> Some False"

definition outside :: "('s \<Rightarrow> 'a \<times> 's) \<Rightarrow> ('r, 's, 'a) handler" where
  "outside f = State (\<lambda>w. case f (w_out w) of (a, s) \<Rightarrow> (a, w\<lparr>w_out := s\<rparr>))"

definition time_now :: "('r, 's) environment \<Rightarrow> ('r, 's, go_time) handler" where
  "time_now e = State (\<lambda>w. (api_now (ev_api e) (w_out w), w))"

definition maintenance_on :: "('r, 's, bool) handler" where
  "maintenance_on = State (\<lambda>w. (w_maintenance w, w))"

definition hold_of :: "string \<Rightarrow> ('r, 's, sticky_state option) handler" where
  "hold_of volume = State (\<lambda>w. (sticky_get volume (w_sticky w), w))"

text \<open>An operation of the sticky manager with the outcome of its write; whether it failed.\<close>

definition with_sticky ::
  "('r, 's) environment \<Rightarrow> (write_outcome \<Rightarrow> 'r sticky_manager \<Rightarrow> bool \<times> 'r sticky_manager) \<Rightarrow> ('r, 's, bool) handler" where
  "with_sticky e f = do {
     wo \<leftarrow> outside (ev_write e);
     State (\<lambda>w. case f wo (w_sticky w) of (err, m) \<Rightarrow> (err, w\<lparr>w_sticky := m\<rparr>)) }"

definition clear_hold :: "('r, 's) environment \<Rightarrow> string \<Rightarrow> ('r, 's, bool) handler" where
  "clear_hold e volume = with_sticky e (\<lambda>wo. sticky_clear wo volume)"

definition start_hold :: "('r, 's) environment \<Rightarrow> sticky_state \<Rightarrow> ('r, 's, bool) handler" where
  "start_hold e st = with_sticky e (\<lambda>wo. start_grace (ev_sticky_json e) wo st)"

definition update_hold :: "('r, 's) environment \<Rightarrow> sticky_state \<Rightarrow> ('r, 's, bool) handler" where
  "update_hold e st = with_sticky e (\<lambda>wo. sticky_update (ev_sticky_json e) wo st)"

section \<open>Guard, quarantines and timeouts\<close>

definition cooldown :: "('r, 's) environment \<Rightarrow> settings \<Rightarrow> string \<Rightarrow> ('r, 's, cooldown_state option) handler" where
  "cooldown e cfg node = do {
     now \<leftarrow> time_now e;
     pause \<leftarrow> outside (ev_pause e node);
     health \<leftarrow> outside (ev_health e node);
     State (\<lambda>w. case hotplug_cooldown_state (st_guard cfg) now pause health node (w_guard w) of
       (r, g, acts) \<Rightarrow> (r, w\<lparr>w_guard := g, w_guard_log := w_guard_log w @ acts\<rparr>)) }"

text \<open>\<open>formatHotplugGuardMessage\<close>\<close>

definition guard_message :: "cooldown_state \<Rightarrow> string" where
  "guard_message st =
     (if cs_pause_until_ready st
      then ''node '' @ cs_node st @ '' hotplug operations are paused after '' @ itoa (cs_failure_count st) @
        '' unhealthy-node failure(s) during '' @ cs_operation st @ '' of volume '' @ cs_volume st @
        ''; waiting for required readiness gates (kubernetesReady='' @ bool_string (cs_kubernetes_ready st) @
        '' openNebulaReady='' @ bool_string (cs_opennebula_ready st) @ '' unschedulable='' @ bool_string (cs_unschedulable st) @
        '' lastObservedAttached='' @ bool_string (cs_last_attached st) @ '')''
      else ''node '' @ cs_node st @ '' is in hotplug recovery cooldown until '' @ rfc3339 (cs_expires_at st) @ '' after timed out '' @
        cs_operation st @ '' (last observed attached='' @ bool_string (cs_last_attached st) @ '' ready='' @ bool_string (cs_last_ready st) @ '')'')"

fun timeout_of :: "prov_error \<Rightarrow> timeout_error option" where
  "timeout_of (HotplugTimeout operation volume node timeout attached ready) =
     Some \<lparr>te_timeout = timeout, te_last_attached = attached, te_last_ready = ready\<rparr>"
| "timeout_of (Wrapped w e) = timeout_of e"
| "timeout_of (Noted e m) = timeout_of e"
| "timeout_of _ = None"

definition note_timeout :: "('r, 's) environment \<Rightarrow> settings \<Rightarrow> string \<Rightarrow> string \<Rightarrow> string \<Rightarrow> prov_error \<Rightarrow> ('r, 's, unit) handler" where
  "note_timeout e cfg node volume operation err = (if timeout_of err = None then State_Monad.return () else do {
     now \<leftarrow> time_now e;
     health \<leftarrow> outside (ev_health e node);
     State (\<lambda>w. case handle_hotplug_timeout (st_guard cfg) now health node volume operation (timeout_of err) (w_guard w) of
       (g, acts) \<Rightarrow> ((), w\<lparr>w_guard := g, w_guard_log := w_guard_log w @ acts\<rparr>)) })"

definition clear_guard :: "string \<Rightarrow> ('r, 's, unit) handler" where
  "clear_guard node = State (\<lambda>w. case clear_hotplug_guard_state node (w_guard w) of
     (g, acts) \<Rightarrow> ((), w\<lparr>w_guard := g, w_guard_log := w_guard_log w @ acts\<rparr>))"

definition clear_volume_quarantine :: "('r, 's) environment \<Rightarrow> settings \<Rightarrow> string \<Rightarrow> ('r, 's, bool) handler" where
  "clear_volume_quarantine e cfg volume = do {
     wo \<leftarrow> outside (ev_write e);
     State (\<lambda>w. case vq_clear (st_kube cfg) wo volume (w_vq w) of (err, q) \<Rightarrow> (err, w\<lparr>w_vq := q\<rparr>)) }"

text \<open>All artifact entries of a volume are cleared, each with the outcome of its own write; \<open>w_aq_keys\<close> are
  the keys that have had an entry, and \<open>Snapshot\<close> goes through them.\<close>

definition clear_artifacts ::
  "bool \<Rightarrow> (string \<Rightarrow> write_outcome) \<Rightarrow> string \<Rightarrow> string list \<Rightarrow> (string \<Rightarrow> artifact_quarantine option) \<times> (string \<Rightarrow> string option) \<Rightarrow>
   (string \<Rightarrow> artifact_quarantine option) \<times> (string \<Rightarrow> string option)" where
  "clear_artifacts enabled wo volume keys q =
     (if trim_space volume = [] then q
      else fold (\<lambda>k q. case fst q k of
          None \<Rightarrow> q
        | Some st \<Rightarrow> if trim_space (aq_volume st) \<noteq> trim_space volume then q else snd (aq_clear enabled (wo k) k q)) keys q)"

definition clear_artifact_quarantine :: "('r, 's) environment \<Rightarrow> settings \<Rightarrow> string \<Rightarrow> ('r, 's, unit) handler" where
  "clear_artifact_quarantine e cfg volume = do {
     wo \<leftarrow> outside (ev_writes e);
     State (\<lambda>w. ((), w\<lparr>w_aq := clear_artifacts (st_kube cfg) wo volume (w_aq_keys w) (w_aq w)\<rparr>)) }"

definition observe_timeout :: "('r, 's) environment \<Rightarrow> string \<Rightarrow> string \<Rightarrow> int \<Rightarrow> go_time \<Rightarrow> ('r, 's, unit) handler" where
  "observe_timeout e operation backend bytes started = do {
     now \<leftarrow> time_now e;
     State (\<lambda>w. ((), if now - started \<le> 0 then w
       else w\<lparr>w_tracker := observe now (normalize_observation_key operation backend bytes) (now - started) (w_tracker w)\<rparr>)) }"

definition recommended :: "('r, 's) environment \<Rightarrow> string \<Rightarrow> string \<Rightarrow> int \<Rightarrow> duration \<Rightarrow> ('r, 's, duration) handler" where
  "recommended e operation backend bytes static_floor =
     State (\<lambda>w. (rc_recommended (recommend (ev_percentile e) (normalize_observation_key operation backend bytes) static_floor (w_tracker w)), w))"

definition discovery_timeout :: "('r, 's) environment \<Rightarrow> settings \<Rightarrow> string \<Rightarrow> int \<Rightarrow> duration \<Rightarrow> ('r, 's, duration) handler" where
  "discovery_timeout e cfg backend bytes hotplug = do {
     t \<leftarrow> recommended e ''device_resolution'' backend bytes (int64 (positive_default (st_discovery cfg) 30 * second));
     State_Monad.return (if 0 < hotplug \<and> hotplug < t then hotplug else t) }"

section \<open>Results\<close>

type_synonym csi_error = "grpc_code \<times> string"

definition is_config_error :: "prov_error \<Rightarrow> bool" where
  "is_config_error e \<longleftrightarrow>
     (case e of ConfigError _ \<Rightarrow> True | DsError d \<Rightarrow> is_datastore_config_error d | _ \<Rightarrow> False)"

definition is_capacity_error :: "prov_error \<Rightarrow> bool" where
  "is_capacity_error e \<longleftrightarrow>
     (case e of NoCapacity _ \<Rightarrow> True | DsError d \<Rightarrow> is_datastore_capacity_error d | _ \<Rightarrow> False)"

text \<open>The code of a provider error: the two classes of datastore errors have their own.\<close>

definition provider_code :: "string \<Rightarrow> prov_error \<Rightarrow> csi_error" where
  "provider_code message e =
     (if is_config_error e then (FailedPrecondition, error_text e)
      else if is_capacity_error e then (ResourceExhausted, error_text e) else (InternalCode, message))"

definition volume_id :: "('r, 's) environment \<Rightarrow> string \<Rightarrow> ('r, 's, int option) handler" where
  "volume_id e volume = do {
     r \<leftarrow> outside (volume_exists (ev_api e) volume);
     State_Monad.return (case r of Inl _ \<Rightarrow> None | Inr (i, _) \<Rightarrow> if i = -1 then None else Some i) }"

definition node_id :: "('r, 's) environment \<Rightarrow> string \<Rightarrow> ('r, 's, int option) handler" where
  "node_id e node = do {
     r \<leftarrow> outside (node_exists (ev_api e) node);
     State_Monad.return (case r of Inl _ \<Rightarrow> None | Inr i \<Rightarrow> if i = -1 then None else Some i) }"

definition record_event :: "attach_event \<Rightarrow> ('r, 's, unit) handler" where
  "record_event ev = State (\<lambda>w. ((), w\<lparr>w_log := w_log w @ [ev]\<rparr>))"

definition target_on :: "('r, 's) environment \<Rightarrow> string \<Rightarrow> string \<Rightarrow> int \<Rightarrow> int \<Rightarrow> ('r, 's, string option) handler" where
  "target_on e volume node i vm = do {
     r \<leftarrow> outside (get_volume_in_node (ev_api e) i vm);
     let t = (case r of Inl _ \<Rightarrow> None | Inr t \<Rightarrow> Some t);
     record_event (Observed volume node t);
     State_Monad.return t }"

definition attach_to ::
  "('r, 's) environment \<Rightarrow> string \<Rightarrow> string \<Rightarrow> bool \<Rightarrow> (string \<times> string) list \<Rightarrow> ('r, 's, prov_error option) handler" where
  "attach_to e volume node immutable params = do {
     r \<leftarrow> outside (attach_volume (ev_fuel e) (ev_ceil e) (ev_policy e) (ev_api e) volume node immutable params);
     let err = (case r of Inl x \<Rightarrow> Some x | Inr _ \<Rightarrow> None);
     record_event (AttachReply volume node (err = None));
     State_Monad.return err }"

definition detach_from :: "('r, 's) environment \<Rightarrow> string \<Rightarrow> string \<Rightarrow> ('r, 's, prov_error option) handler" where
  "detach_from e volume node = do {
     r \<leftarrow> outside (detach_volume (ev_fuel e) (ev_ceil e) (ev_policy e) (ev_api e) volume node);
     let err = (case r of Inl x \<Rightarrow> Some x | Inr _ \<Rightarrow> None);
     record_event (DetachReply volume node (err = None));
     State_Monad.return err }"

definition context_of :: "('r, 's) environment \<Rightarrow> settings \<Rightarrow> string \<Rightarrow> ('r, 's, string + runtime_context) handler" where
  "context_of e cfg volume = outside (resolve_runtime_context (st_kube cfg) (ev_kube e) volume)"

definition desired_on :: "('r, 's) environment \<Rightarrow> settings \<Rightarrow> string \<Rightarrow> string \<Rightarrow> ('r, 's, string option) handler" where
  "desired_on e cfg volume node = do {
     r \<leftarrow> outside (volume_desired_on_node (st_kube cfg) (ev_kube e) volume node);
     (case r of
        Inr (True, reason) \<Rightarrow> do { record_event (WantedOn volume node); State_Monad.return (Some reason) }
      | _ \<Rightarrow> State_Monad.return None) }"

text \<open>The runtime context of a volume that the driver keeps on one node, if it is one.\<close>

definition local_context :: "('r, 's) environment \<Rightarrow> settings \<Rightarrow> string \<Rightarrow> ('r, 's, runtime_context option) handler" where
  "local_context e cfg volume = (if \<not> st_kube cfg then State_Monad.return None else do {
     r \<leftarrow> context_of e cfg volume;
     State_Monad.return (case r of Inl _ \<Rightarrow> None | Inr rt \<Rightarrow> if eligible_for_maintenance rt volume then Some rt else None) })"

section \<open>Publish contexts\<close>

definition put_trimmed :: "str_map \<Rightarrow> string \<Rightarrow> str_map \<Rightarrow> str_map" where
  "put_trimmed src k m = (case src k of None \<Rightarrow> m | Some v \<Rightarrow> if trim_space v = [] then m else m(k \<mapsto> trim_space v))"

definition put_missing :: "string \<Rightarrow> string \<Rightarrow> str_map \<Rightarrow> str_map" where
  "put_missing k v m = (if (m k = None \<or> m k = Some []) \<and> v \<noteq> [] then m(k \<mapsto> v) else m)"

definition param_pvc_name :: string where "param_pvc_name = ''csi.storage.k8s.io/pvc/name''"
definition param_pvc_namespace :: string where "param_pvc_namespace = ''csi.storage.k8s.io/pvc/namespace''"
definition param_pv_name :: string where "param_pv_name = ''csi.storage.k8s.io/pv/name''"

definition runtime_entries :: "runtime_context \<Rightarrow> str_map \<Rightarrow> str_map" where
  "runtime_entries rt m =
     (let m = put_missing param_pv_name (rt_pv rt) (put_missing param_pvc_name (rt_claim rt)
                (put_missing param_pvc_namespace (rt_namespace rt) m))
      in if trim_space (rt_backend rt) = [] then m else m(annotation_backend \<mapsto> trim_space (rt_backend rt)))"

definition publish_context ::
  "('r, 's) environment \<Rightarrow> settings \<Rightarrow> string \<Rightarrow> string \<Rightarrow> duration \<Rightarrow> str_map \<Rightarrow> ('r, 's, str_map) handler" where
  "publish_context e cfg volume target discovery src = do {
     let m = put_trimmed src param_pv_name (put_trimmed src param_pvc_namespace (put_trimmed src param_pvc_name [''volumeName'' \<mapsto> target]));
     i \<leftarrow> volume_id e volume;
     let m = (case i of None \<Rightarrow> m
              | Some i \<Rightarrow> if 0 < i then m(''opennebulaImageID'' \<mapsto> itoa i, ''deviceSerial'' \<mapsto> ''onecsi-'' @ itoa i) else m);
     rt \<leftarrow> (if st_kube cfg then context_of e cfg volume else State_Monad.return (Inl []));
     let m = (case rt of Inl _ \<Rightarrow> m | Inr rt \<Rightarrow> runtime_entries rt m);
     bytes \<leftarrow> outside (resolve_volume_size (ev_api e) volume);
     (case bytes of
        Inl _ \<Rightarrow> State_Monad.return m
      | Inr bytes \<Rightarrow> do {
          let hotplug = compute_hotplug_timeout (ev_ceil e) (ev_policy e) bytes;
          d \<leftarrow> (if discovery \<le> 0 then discovery_timeout e cfg ''disk'' bytes hotplug else State_Monad.return discovery);
          State_Monad.return (m(''hotplugTimeoutSeconds'' \<mapsto> itoa (go_div hotplug second),
            ''deviceDiscoveryTimeoutSeconds'' \<mapsto> itoa (go_div d second))) }) }"

section \<open>Metadata drift\<close>

definition image_state_in_use :: "string \<Rightarrow> bool" where
  "image_state_in_use st \<longleftrightarrow> upper_trim st \<in> set [''USED'', ''USED_PERS'', ''LOCKED_USED'', ''LOCKED_USED_PERS'']"

definition drift_detected :: "attachment_metadata \<Rightarrow> bool" where
  "drift_detected md \<longleftrightarrow>
     conflicting_owners md \<noteq> [] \<or> \<not> md_attached_here md \<and> 0 < md_running md \<and> image_state_in_use (md_image_state md)"

definition still_owned :: "attachment_metadata \<Rightarrow> bool" where
  "still_owned md \<longleftrightarrow> md_attached_here md \<or> 0 < md_running md \<or> md_image_vms md \<noteq> [] \<or> md_records md \<noteq> []"

definition first_non_empty :: "string list \<Rightarrow> string" where
  "first_non_empty vs = (case filter (\<lambda>v. v \<noteq> []) (map trim_space vs) of [] \<Rightarrow> [] | v # _ \<Rightarrow> v)"

definition int_list :: "int list \<Rightarrow> string" where "int_list vs = join_with '','' (map itoa vs)"

definition disk_record_summary :: "disk_record list \<Rightarrow> string" where
  "disk_record_summary rs = join_with '','' (map (\<lambda>r. join_with ''/''
     ((if 0 < rec_node r then [''vm='' @ itoa (rec_node r)] else []) @
      (if trim_space (rec_node_name r) \<noteq> [] then [''node='' @ rec_node_name r] else []) @
      (if 0 < rec_disk r then [''disk='' @ itoa (rec_disk r)] else []) @
      (if trim_space (rec_target r) \<noteq> [] then [''target='' @ rec_target r] else []) @
      (if trim_space (rec_serial r) \<noteq> [] then [''serial='' @ rec_serial r] else []))) rs)"

definition drift_message :: "attachment_metadata \<Rightarrow> string \<Rightarrow> string \<Rightarrow> string" where
  "drift_message md volume node =
     (let owners = int_list (conflicting_owners md);
          owners = (if owners = [] \<and> 0 < md_running md then ''unknown image owner count '' @ itoa (md_running md) else owners);
          records = disk_record_summary (md_records md);
          records = (if records = [] then ''no matching VM disk records found'' else records)
      in ''OpenNebula metadata drift detected for local RWO volume '' @ first_non_empty [md_volume md, volume] @ ''/image '' @
         itoa (md_image md) @ '' while publishing to node '' @ first_non_empty [md_requested_node md, node] @ '': image state='' @
         first_non_empty [md_image_state md, ''unknown''] @ '' runningVMs='' @ itoa (md_running md) @ '' ownerVMs='' @
         first_non_empty [owners, ''none''] @ '' diskRecords='' @ records @
         ''; external OpenNebula repair is required before the driver will attempt another cross-node attach'')"

definition drift_report :: "string \<Rightarrow> string \<Rightarrow> string \<Rightarrow> string \<Rightarrow> attachment_metadata \<Rightarrow> volume_quarantine" where
  "drift_report reason message volume node md =
     \<lparr>vq_volume = volume, vq_reason = reason, vq_classification = ''opennebula_metadata_drift'', vq_message = message,
      vq_node = node, vq_owners = conflicting_owners md, vq_count = 0, vq_first_at = 0, vq_last_at = 0, vq_expires_at = 0\<rparr>"

definition mark_drift :: "('r, 's) environment \<Rightarrow> settings \<Rightarrow> volume_quarantine \<Rightarrow> ('r, 's, unit) handler" where
  "mark_drift e cfg st = do {
     now \<leftarrow> time_now e;
     wo \<leftarrow> outside (ev_write e);
     State (\<lambda>w. case vq_mark_failure (ev_volume_json e) (st_kube cfg) wo now st
         (positive_default (st_drift_threshold cfg) 2) (int64 (positive_default (st_drift_ttl cfg) 1800 * second)) (w_vq w) of
       (_, q) \<Rightarrow> ((), w\<lparr>w_vq := q\<rparr>)) }"

definition active_quarantine :: "('r, 's) environment \<Rightarrow> string \<Rightarrow> ('r, 's, volume_quarantine option) handler" where
  "active_quarantine e volume = State (\<lambda>w.
     let now = api_now (ev_api e) (w_out w) in (vq_get_active now volume now (fst (w_vq w)), w))"

definition reject_if_drift :: "('r, 's) environment \<Rightarrow> settings \<Rightarrow> string \<Rightarrow> string \<Rightarrow> ('r, 's, csi_error option) handler" where
  "reject_if_drift e cfg volume node = (if \<not> enabled_by_default (st_drift cfg) then State_Monad.return None else do {
     rt \<leftarrow> local_context e cfg volume;
     if rt = None then State_Monad.return None else do {
       q \<leftarrow> active_quarantine e volume;
       md \<leftarrow> outside (inspect_volume_attachment (ev_api e) volume node);
       (case md of
          Inl _ \<Rightarrow> State_Monad.return (map_option (\<lambda>st. (FailedPrecondition, vq_message_text st)) q)
        | Inr md \<Rightarrow>
            if drift_detected md then do {
              mark_drift e cfg (drift_report ''external_repair_required'' (drift_message md volume node) volume node md);
              State_Monad.return (Some (FailedPrecondition, drift_message md volume node)) }
            else if q = None then State_Monad.return None
            else do { clear_volume_quarantine e cfg volume; State_Monad.return None }) } })"

definition detach_drift_message :: "attachment_metadata \<Rightarrow> string \<Rightarrow> string \<Rightarrow> prov_error \<Rightarrow> string" where
  "detach_drift_message md volume node cause =
     drift_message md volume node @ ''; OpenNebula detach failed while metadata still reports an owner for local RWO volume '' @
     volume @ '' on node '' @ node @ '': '' @ error_text cause"

definition detach_drift_error ::
  "('r, 's) environment \<Rightarrow> settings \<Rightarrow> string \<Rightarrow> string \<Rightarrow> prov_error \<Rightarrow> ('r, 's, csi_error option) handler" where
  "detach_drift_error e cfg volume node cause = (if \<not> enabled_by_default (st_drift cfg) then State_Monad.return None else do {
     rt \<leftarrow> local_context e cfg volume;
     if rt = None then State_Monad.return None else do {
       md \<leftarrow> outside (inspect_volume_attachment (ev_api e) volume node);
       (case md of
          Inl _ \<Rightarrow> State_Monad.return None
        | Inr md \<Rightarrow>
            if still_owned md then do {
              mark_drift e cfg (drift_report ''detach_failed_metadata_drift'' (detach_drift_message md volume node cause) volume node md);
              State_Monad.return (Some (FailedPrecondition, detach_drift_message md volume node cause)) }
            else State_Monad.return None) } })"

section \<open>Host artifacts\<close>

definition has_artifacts :: "('r, 's, bool) handler" where
  "has_artifacts = State (\<lambda>w. (list_ex (\<lambda>k. fst (w_aq w) k \<noteq> None) (w_aq_keys w), w))"

definition reject_if_artifact ::
  "('r, 's) environment \<Rightarrow> settings \<Rightarrow> string \<Rightarrow> string \<Rightarrow> str_map \<Rightarrow> ('r, 's, csi_error option) handler" where
  "reject_if_artifact e cfg volume node params = (if \<not> enabled_by_default (st_artifact cfg) then State_Monad.return None else do {
     some \<leftarrow> has_artifacts;
     if \<not> some then State_Monad.return None else do {
       t \<leftarrow> outside (inspect_artifact_target (ev_api e) volume node params);
       (case t of
          Inr (Some target) \<Rightarrow> State (\<lambda>w.
            let now = api_now (ev_api e) (w_out w)
            in (case aq_get_active now (artifact_key target) now (fst (w_aq w)) of
                  None \<Rightarrow> None
                | Some st \<Rightarrow> Some (FailedPrecondition, aq_message_text st), w))
        | _ \<Rightarrow> State_Monad.return None) } })"

definition repair_hint :: "string \<Rightarrow> string \<Rightarrow> string" where
  "repair_hint lv key =
     (if lv \<noteq> [] then ''read-only quarantine: inspect the OpenNebula VM log and host-local LV '' @ lv @
        ''; after an operator confirms it is stale and not attached to the VM, repair the host artifact externally, then delete ConfigMap '' @
        ''opennebula-csi-host-artifact-state key '' @ key @ '' or wait for the TTL before retrying''
      else ''read-only quarantine: inspect the OpenNebula VM log and host-local LVM artifacts; '' @
        ''after an operator confirms the artifact is stale, repair it externally, then delete ConfigMap '' @
        ''opennebula-csi-host-artifact-state key '' @ key @ '' or wait for the TTL before retrying'')"

definition artifact_state :: "string \<Rightarrow> artifact_target \<Rightarrow> string \<Rightarrow> artifact_quarantine" where
  "artifact_state volume target message =
     (let key = (if artifact_key target = [] then trim_space volume else artifact_key target)
      in \<lparr>aq_key = key, aq_classification = ''host_local_lv_conflict'', aq_reason = ''external_host_artifact_repair_required'', aq_message = message,
          aq_volume = trim_space volume, aq_image = at_image target, aq_node = at_node target, aq_vm = at_vm target,
          aq_host_id = at_host_id target, aq_host = at_host target, aq_ds_id = at_ds_id target, aq_ds_name = at_ds_name target,
          aq_ds_tm = at_ds_tm target, aq_disk = at_disk target, aq_target = at_target target, aq_lv = at_lv target, aq_count = 0,
          aq_first_at = 0, aq_last_at = 0, aq_expires_at = 0, aq_hint = repair_hint (at_lv target) key\<rparr>)"

definition handle_artifact_conflict ::
  "('r, 's) environment \<Rightarrow> settings \<Rightarrow> string \<Rightarrow> artifact_target \<Rightarrow> string \<Rightarrow> ('r, 's, csi_error) handler" where
  "handle_artifact_conflict e cfg volume target message =
     (if \<not> enabled_by_default (st_artifact cfg) then State_Monad.return (FailedPrecondition, message) else do {
        now \<leftarrow> time_now e;
        wo \<leftarrow> outside (ev_write e);
        State (\<lambda>w. case aq_mark_failure (ev_artifact_json e) (st_kube cfg) wo now (artifact_state volume target message)
            (positive_default (st_artifact_threshold cfg) 1) (int64 (positive_default (st_artifact_ttl cfg) 3600 * second)) (w_aq w) of
          ((st, active, _), q) \<Rightarrow> ((FailedPrecondition, if active then aq_message_text st else aq_message st),
            w\<lparr>w_aq := q, w_aq_keys := trim_space (aq_key (artifact_state volume target message)) # w_aq_keys w\<rparr>)) })"

section \<open>Holds\<close>

definition hold_state ::
  "string \<Rightarrow> string \<Rightarrow> runtime_context \<Rightarrow> go_time \<Rightarrow> int \<Rightarrow> string \<Rightarrow> sticky_state" where
  "hold_state volume node rt now grace reason =
     \<lparr>sa_volume = volume, sa_node = node, sa_backend = ''local'', sa_datastore = rt_datastore rt, sa_pvc_namespace = rt_namespace rt,
      sa_pvc_name = rt_claim rt, sa_started_at = now, sa_expires_at = now + int64 (grace * second), sa_grace_seconds = grace,
      sa_reason = reason, sa_node_ready = True\<rparr>"

definition same_node :: "string \<Rightarrow> string \<Rightarrow> bool" where "same_node a b \<longleftrightarrow> trim_space a = trim_space b"

definition maintenance_blocks ::
  "('r, 's) environment \<Rightarrow> settings \<Rightarrow> string \<Rightarrow> string \<Rightarrow> ('r, 's, string option) handler" where
  "maintenance_blocks e cfg volume node = do {
     on \<leftarrow> maintenance_on;
     if \<not> on then State_Monad.return None else do {
       rt \<leftarrow> local_context e cfg volume;
       (case rt of
          None \<Rightarrow> State_Monad.return None
        | Some rt \<Rightarrow> State (\<lambda>w.
            let last = last_node_for_volume (w_sticky w) rt volume
            in (if trim_space last = [] \<or> same_node last node then None
                else Some (''maintenance mode is active for local RWO volume '' @ volume @ '': refusing cross-node attach to '' @ node @
                  '' while last attached node is '' @ last), w))) } }"

text \<open>The outcome of a step that may answer the request itself.\<close>

datatype 'a early = Continue | Answer 'a

definition maintenance_hold ::
  "('r, 's) environment \<Rightarrow> settings \<Rightarrow> string \<Rightarrow> string \<Rightarrow> ('r, 's, (csi_error + unit) early) handler" where
  "maintenance_hold e cfg volume node = do {
     on \<leftarrow> maintenance_on;
     if \<not> on then State_Monad.return Continue else do {
       rt \<leftarrow> local_context e cfg volume;
       (case rt of
          None \<Rightarrow> State_Monad.return Continue
        | Some rt \<Rightarrow> do {
            now \<leftarrow> time_now e;
            err \<leftarrow> start_hold e (hold_state volume node rt now (sticky_grace_seconds (st_release_min cfg) (st_release_max cfg)) sticky_reason);
            State_Monad.return (Answer (if err then Inl (InternalCode, ''failed to persist maintenance hold'') else Inr ())) }) } }"

definition rescue_same_node ::
  "('r, 's) environment \<Rightarrow> settings \<Rightarrow> string \<Rightarrow> string \<Rightarrow> int \<Rightarrow> int \<Rightarrow> ('r, 's, (csi_error + unit) early) handler" where
  "rescue_same_node e cfg volume node i vm = do {
     rt \<leftarrow> local_context e cfg volume;
     if rt = None then State_Monad.return Continue else do {
       desired \<leftarrow> desired_on e cfg volume node;
       if desired = None then State_Monad.return Continue else do {
         t \<leftarrow> target_on e volume node i vm;
         if t = None then State_Monad.return Continue else do {
           h \<leftarrow> hold_of volume;
           if (case h of None \<Rightarrow> False | Some st \<Rightarrow> same_node (sa_node st) node) then do {
             err \<leftarrow> clear_hold e volume;
             State_Monad.return (Answer (if err
               then Inl (InternalCode, ''failed to clear sticky attachment state after same-node detach rescue'') else Inr ())) }
           else State_Monad.return (Answer (Inr ())) } } } }"

text \<open>Whether a detach is delayed: the hold to take, or nothing.\<close>

definition should_delay_detach ::
  "('r, 's) environment \<Rightarrow> settings \<Rightarrow> string \<Rightarrow> string \<Rightarrow> ('r, 's, sticky_state option) handler" where
  "should_delay_detach e cfg volume node =
     (if \<not> enabled_by_default (st_restart cfg) \<or> \<not> st_kube cfg then State_Monad.return None else do {
        rt \<leftarrow> context_of e cfg volume;
        (case rt of
           Inl _ \<Rightarrow> State_Monad.return None
         | Inr rt \<Rightarrow>
             if rt_restart_mode rt \<noteq> restart_optimization_value \<or> \<not> equal_fold (trim_space (rt_backend rt)) ''local'' \<or>
                is_shared_volume_id volume \<or> \<not> has_single_writer (rt_access rt)
             then State_Monad.return None
             else do {
               c \<leftarrow> cooldown e cfg node;
               if c \<noteq> None then State_Monad.return None else do {
                 ready \<leftarrow> (if \<not> enabled_by_default (st_require_ready cfg) then State_Monad.return True else do {
                   k \<leftarrow> outside (kube_node_ready (st_kube cfg) (ev_kube e) node);
                   if k \<noteq> Inr True then State_Monad.return False else do {
                     v \<leftarrow> outside (node_ready (ev_api e) node);
                     State_Monad.return (v = Inr True) } });
                 if \<not> ready then State_Monad.return None else do {
                   now \<leftarrow> time_now e;
                   State_Monad.return (Some (hold_state volume node rt now
                     (effective_grace_seconds (st_grace cfg) (st_grace_max cfg) (Some rt)) ''stateful_restart'')) } } }) })"

definition clear_reuse_state :: "('r, 's) environment \<Rightarrow> string \<Rightarrow> string \<Rightarrow> ('r, 's, unit) handler" where
  "clear_reuse_state e volume node = do {
     h \<leftarrow> hold_of volume;
     if (case h of None \<Rightarrow> False | Some st \<Rightarrow> same_node (sa_node st) node)
     then do { clear_hold e volume; State_Monad.return () } else State_Monad.return () }"

text \<open>\<open>reuseStickyAttachment\<close>: an answer for the publish request, or the volume is held nowhere
  any more.\<close>

definition detach_old_node ::
  "('r, 's) environment \<Rightarrow> settings \<Rightarrow> string \<Rightarrow> string \<Rightarrow> string \<Rightarrow> ('r, 's, (csi_error + str_map) early) handler" where
  "detach_old_node e cfg volume old node = do {
     r \<leftarrow> detach_from e volume old;
     (case r of
        Some cause \<Rightarrow> do {
          drift \<leftarrow> detach_drift_error e cfg volume old cause;
          State_Monad.return (Answer (Inl (case drift of 
              None \<Rightarrow> (InternalCode, ''failed to detach stale attachment for local RWO volume '' @ volume @ '' from old node '' @ old @
                '' before publishing to requested node '' @ node @ '': '' @ error_text cause)
            | Some d \<Rightarrow> d))) }
      | None \<Rightarrow> do {
          clear_guard old;
          clear_volume_quarantine e cfg volume;
          err \<leftarrow> clear_hold e volume;
          State_Monad.return (if err then Answer (Inl (InternalCode, ''failed to clear sticky attachment state'')) else Continue) }) }"

definition move_refused :: "string \<Rightarrow> string \<Rightarrow> string \<Rightarrow> string" where
  "move_refused volume old node = ''refusing to move local RWO volume '' @ volume @ '' from node '' @ old @ '' to node '' @ node"

definition reuse_sticky ::
  "('r, 's) environment \<Rightarrow> settings \<Rightarrow> string \<Rightarrow> string \<Rightarrow> str_map \<Rightarrow> int \<Rightarrow> int \<Rightarrow> ('r, 's, (csi_error + str_map) early) handler" where
  "reuse_sticky e cfg volume node params i vm = do {
     h \<leftarrow> hold_of volume;
     (case h of
        None \<Rightarrow> State_Monad.return Continue
      | Some st \<Rightarrow>
          if same_node (sa_node st) node then do {
            t \<leftarrow> target_on e volume node i vm;
            err \<leftarrow> clear_hold e volume;
            (case t of
               None \<Rightarrow> State_Monad.return Continue
             | Some target \<Rightarrow>
                 if err then State_Monad.return (Answer (Inl (InternalCode, ''failed to clear sticky attachment state'')))
                 else do { m \<leftarrow> publish_context e cfg volume target 0 params; State_Monad.return (Answer (Inr m)) }) }
          else do {
            c \<leftarrow> cooldown e cfg (sa_node st);
            if c \<noteq> None then State_Monad.return (Answer (Inl (Unavailable, move_refused volume (sa_node st) node @
                '' while old node hotplug is paused: '' @ guard_message (the c)))) else do {
              desired \<leftarrow> desired_on e cfg volume (sa_node st);
              if desired \<noteq> None then State_Monad.return (Answer (Inl (Unavailable, move_refused volume (sa_node st) node @
                  '' because Kubernetes still desires it on the old node ('' @ the desired @ '')''))) else do {
                old \<leftarrow> node_id e (sa_node st);
                absent \<leftarrow> (case old of None \<Rightarrow> State_Monad.return False
                  | Some j \<Rightarrow> do { t \<leftarrow> target_on e volume (sa_node st) i j; State_Monad.return (t = None) });
                if absent then do {
                  err \<leftarrow> clear_hold e volume;
                  State_Monad.return (if err then Answer (Inl (InternalCode, ''failed to clear sticky attachment state'')) else Continue) }
                else detach_old_node e cfg volume (sa_node st) node } } }) }"

end
