(* ===== verification/Controller_Publish.thy ===== *)
theory Controller_Publish
  imports Controller_Attach
begin

text \<open>
  The handlers of \<open>driver/controllerserver.go\<close> that move attachments:
  \<open>ControllerPublishVolume\<close>, \<open>ControllerUnpublishVolume\<close>, the expiry of holds with its reaper, and
  the validation of queued requests.

  The locks the closures take are those of the theory of operation locks; here a closure runs
  without interference.  \<open>Publish_Safety\<close> and \<open>Detach_Safety\<close> hold the properties.
\<close>

section \<open>The queue\<close>

definition with_queue ::
  "('r, 's) environment \<Rightarrow> settings \<Rightarrow> string \<Rightarrow> string \<Rightarrow> string \<Rightarrow> queue_priority \<Rightarrow> ('r, 's, csi_error + 'a) handler \<Rightarrow>
   ('r, 's, hotplug_error + 'a option) handler" where
  "with_queue e cfg node operation volume priority body = do {
     a \<leftarrow> (if enabled_by_default (st_queue cfg) then outside (ev_queue e node operation volume priority) else State_Monad.return Runs);
     (case a of
        Runs \<Rightarrow> do { r \<leftarrow> body; State_Monad.return (case r of Inl x \<Rightarrow> Inl (BodyFailed x) | Inr y \<Rightarrow> Inr (Some y)) }
      | RunsLate q \<Rightarrow> do { body; State_Monad.return (Inl (QueueFailed q)) }
      | Skips r \<Rightarrow> State_Monad.return (case r of None \<Rightarrow> Inr None | Some x \<Rightarrow> Inl x)) }"

text \<open>The status of a failed call.  An error of a closure carries its status.\<close>

fun hotplug_status :: "hotplug_error \<Rightarrow> csi_error" where
  "hotplug_status (QueueFailed q) =
     ((case q of
         QueuePausedError _ _ _ _ _ \<Rightarrow> Unavailable
       | QueueTimeoutError _ _ _ _ \<Rightarrow> DeadlineExceeded
       | QueueActiveTimeoutError _ _ _ _ \<Rightarrow> DeadlineExceeded
       | QueueStaleRequestError _ _ _ _ _ \<Rightarrow> Aborted
       | FnError _ \<Rightarrow> Aborted), queue_error_message duration_string q)"
| "hotplug_status (BodyFailed x) = x"

definition fail_hotplug :: "('r, 's) environment \<Rightarrow> string \<Rightarrow> hotplug_error \<Rightarrow> ('r, 's, csi_error + 'a) handler" where
  "fail_hotplug e node x = do {
     (case x of
        QueueFailed (QueueActiveTimeoutError _ _ _ _) \<Rightarrow> outside (\<lambda>s. ((), ev_diagnose e node s))
      | _ \<Rightarrow> State_Monad.return ());
     State_Monad.return (Inl (hotplug_status x)) }"

section \<open>Publish\<close>

datatype csi_access =
    UnknownMode | SingleNodeWriter | SingleNodeReaderOnly | MultiNodeReaderOnly | MultiNodeSingleWriter | MultiNodeMultiWriter
  | SingleNodeSingleWriter | SingleNodeMultiWriter

text \<open>A capability may lack its access mode.\<close>

record publish_request =
  pb_volume :: string
  pb_node :: string
  pb_capability :: "csi_access option option"
  pb_readonly :: bool
  pb_context :: "(string \<times> string) list"

definition pb_immutable :: "publish_request \<Rightarrow> bool" where
  "pb_immutable req \<longleftrightarrow> pb_capability req = Some (Some MultiNodeReaderOnly)"

fun conflict_of :: "prov_error \<Rightarrow> (artifact_target \<times> string) option" where
  "conflict_of (ArtifactConflict t raw) = Some (t, raw)"
| "conflict_of (Wrapped w e) = conflict_of e"
| "conflict_of (Noted e m) = conflict_of e"
| "conflict_of _ = None"

definition conflict_message :: "artifact_target \<Rightarrow> string \<Rightarrow> string" where
  "conflict_message t raw = ''OpenNebula local host artifact conflict detected: '' @ join_with '' ''
     ([''classification=host_local_lv_conflict''] @
      (if 0 < at_vm t then [''vm='' @ itoa (at_vm t)] else []) @
      (if trim_space (at_node t) \<noteq> [] then [''node='' @ at_node t] else []) @
      (if 0 < at_disk t then [''disk='' @ itoa (at_disk t)] else []) @
      (if trim_space (at_target t) \<noteq> [] then [''target='' @ at_target t] else []) @
      (if trim_space (at_lv t) \<noteq> [] then [''lv='' @ at_lv t] else []) @
      (if trim_space raw \<noteq> [] then [''error='' @ trim_space raw] else []))"

definition publish_attached :: "('r, 's) environment \<Rightarrow> settings \<Rightarrow> publish_request \<Rightarrow> string \<Rightarrow> ('r, 's, str_map) handler" where
  "publish_attached e cfg req target = do {
     clear_volume_quarantine e cfg (pb_volume req);
     clear_artifact_quarantine e cfg (pb_volume req);
     clear_reuse_state e (pb_volume req) (pb_node req);
     publish_context e cfg (pb_volume req) target 0 (map_of (pb_context req)) }"

definition attach_failed :: "('r, 's) environment \<Rightarrow> settings \<Rightarrow> publish_request \<Rightarrow> prov_error \<Rightarrow> ('r, 's, csi_error) handler" where
  "attach_failed e cfg req err =
     (case conflict_of err of
        Some (t, raw) \<Rightarrow> handle_artifact_conflict e cfg (pb_volume req) t (conflict_message t raw)
      | None \<Rightarrow> do {
          note_timeout e cfg (pb_node req) (pb_volume req) ''attach'' err;
          State_Monad.return (provider_code ''failed to attach volume'' err) })"

definition attach_new :: "('r, 's) environment \<Rightarrow> settings \<Rightarrow> publish_request \<Rightarrow> int \<Rightarrow> int \<Rightarrow> ('r, 's, csi_error + str_map) handler" where
  "attach_new e cfg req i vm = do {
     size \<leftarrow> outside (resolve_volume_size (ev_api e) (pb_volume req));
     (case size of
        Inl _ \<Rightarrow> State_Monad.return (Inl (InternalCode, ''failed to resolve volume size''))
      | Inr bytes \<Rightarrow> do {
          hotplug \<leftarrow> recommended e ''attach'' ''disk'' bytes (compute_hotplug_timeout (ev_ceil e) (ev_policy e) bytes);
          discovery \<leftarrow> discovery_timeout e cfg ''disk'' bytes hotplug;
          started \<leftarrow> time_now e;
          r \<leftarrow> attach_to e (pb_volume req) (pb_node req) (pb_immutable req) (pb_context req);
          (case r of
             Some err \<Rightarrow> do { x \<leftarrow> attach_failed e cfg req err; State_Monad.return (Inl x) }
           | None \<Rightarrow> do {
               clear_guard (pb_node req);
               clear_volume_quarantine e cfg (pb_volume req);
               clear_artifact_quarantine e cfg (pb_volume req);
               t \<leftarrow> target_on e (pb_volume req) (pb_node req) i vm;
               (case t of
                  None \<Rightarrow> State_Monad.return (Inl (InternalCode, ''failed to get volume in node''))
                | Some target \<Rightarrow> do {
                    observe_timeout e ''attach'' ''disk'' bytes started;
                    m \<leftarrow> publish_context e cfg (pb_volume req) target discovery (map_of (pb_context req));
                    State_Monad.return (Inr m) }) }) }) }"

definition publish_body :: "('r, 's) environment \<Rightarrow> settings \<Rightarrow> publish_request \<Rightarrow> int \<Rightarrow> int \<Rightarrow> ('r, 's, csi_error + str_map) handler" where
  "publish_body e cfg req i vm = do {
     reused \<leftarrow> reuse_sticky e cfg (pb_volume req) (pb_node req) (map_of (pb_context req)) i vm;
     (case reused of
        Answer r \<Rightarrow> State_Monad.return r
      | Continue \<Rightarrow> do {
          t \<leftarrow> target_on e (pb_volume req) (pb_node req) i vm;
          (case t of
             Some target \<Rightarrow> do { m \<leftarrow> publish_attached e cfg req target; State_Monad.return (Inr m) }
           | None \<Rightarrow> do {
               drift \<leftarrow> reject_if_drift e cfg (pb_volume req) (pb_node req);
               (case drift of
                  Some x \<Rightarrow> State_Monad.return (Inl x)
                | None \<Rightarrow> do {
                    artifact \<leftarrow> reject_if_artifact e cfg (pb_volume req) (pb_node req) (map_of (pb_context req));
                    (case artifact of
                       Some x \<Rightarrow> State_Monad.return (Inl x)
                     | None \<Rightarrow> attach_new e cfg req i vm) }) }) }) }"

definition publish_disk :: "('r, 's) environment \<Rightarrow> settings \<Rightarrow> publish_request \<Rightarrow> int \<Rightarrow> int \<Rightarrow> ('r, 's, csi_error + str_map option) handler" where
  "publish_disk e cfg req i vm = do {
     t \<leftarrow> target_on e (pb_volume req) (pb_node req) i vm;
     (case t of
        Some target \<Rightarrow> do { m \<leftarrow> publish_attached e cfg req target; State_Monad.return (Inr (Some m)) }
      | None \<Rightarrow> do {
          blocked \<leftarrow> maintenance_blocks e cfg (pb_volume req) (pb_node req);
          if blocked \<noteq> None then State_Monad.return (Inl (Unavailable, the blocked)) else do {
            c \<leftarrow> cooldown e cfg (pb_node req);
            if c \<noteq> None then State_Monad.return (Inl (Unavailable, guard_message (the c))) else do {
              h \<leftarrow> hold_of (pb_volume req);
              r \<leftarrow> with_queue e cfg (pb_node req) ''attach'' (pb_volume req)
                     (if h \<noteq> None then priority_critical else priority_normal) (publish_body e cfg req i vm);
              (case r of
                 Inl x \<Rightarrow> fail_hotplug e (pb_node req) x
               | Inr m \<Rightarrow> State_Monad.return (Inr m)) } } }) }"

text \<open>A shared filesystem is published by its own provider.\<close>

definition publish_shared :: "('r, 's) environment \<Rightarrow> publish_request \<Rightarrow> ('r, 's, csi_error + str_map option) handler" where
  "publish_shared e req =
     (case ev_shared_publish e of
        None \<Rightarrow> State_Monad.return (Inl (FailedPrecondition, ''shared filesystem provider is not configured''))
      | Some publish \<Rightarrow> do {
          vm \<leftarrow> node_id e (pb_node req);
          if vm = None then State_Monad.return (Inl (NotFoundCode, ''node not found'')) else do {
            r \<leftarrow> outside (publish (pb_volume req) (pb_readonly req \<or> pb_immutable req));
            State_Monad.return (case r of
                Inl x \<Rightarrow> Inl (provider_code ''failed to publish volume'' x)
              | Inr m \<Rightarrow>
                  let mounter = (case map_of (pb_context req) ''cephfsMounter'' of None \<Rightarrow> [] | Some v \<Rightarrow> trim_space v)
                  in Inr (Some (if mounter \<noteq> [] then m(''cephfsMounter'' \<mapsto> mounter) else m))) } })"

text \<open>The answer is an error or a response; the response is absent when the queue reports success
  without having run the closure of the call.\<close>

definition controller_publish :: "('r, 's) environment \<Rightarrow> settings \<Rightarrow> publish_request \<Rightarrow> ('r, 's, csi_error + str_map option) handler" where
  "controller_publish e cfg req =
     (if pb_volume req = [] then State_Monad.return (Inl (InvalidArgument, ''missing volume ID''))
      else if pb_node req = [] then State_Monad.return (Inl (InvalidArgument, ''missing node ID''))
      else if pb_capability req = None then State_Monad.return (Inl (InvalidArgument, ''missing volume capability''))
      else if pb_capability req = Some None then State_Monad.return (Inl (InvalidArgument, ''missing access mode''))
      else if is_shared_volume_id (pb_volume req) then publish_shared e req
      else do {
        i \<leftarrow> volume_id e (pb_volume req);
        (case i of
           None \<Rightarrow> State_Monad.return (Inl (NotFoundCode, ''volume not found''))
         | Some i \<Rightarrow> do {
             vm \<leftarrow> node_id e (pb_node req);
             (case vm of
                None \<Rightarrow> State_Monad.return (Inl (NotFoundCode, ''node not found''))
              | Some vm \<Rightarrow> publish_disk e cfg req i vm) }) })"

section \<open>Unpublish\<close>

definition volume_ready_with_timeout :: "nat \<Rightarrow> 's one_api \<Rightarrow> int \<Rightarrow> ('s, bool) op" where
  "volume_ready_with_timeout fuel api i =
     bind_op (wrap_op ''failed to wait for volume ready'' (wait_for_resource fuel (done_when (volume_ready api i)) (api_tick api))) (\<lambda>_.
       volume_ready api i)"

definition observe_detach :: "('r, 's) environment \<Rightarrow> string \<Rightarrow> go_time \<Rightarrow> ('r, 's, unit) handler" where
  "observe_detach e volume started = do {
     size \<leftarrow> outside (resolve_volume_size (ev_api e) volume);
     (case size of Inl _ \<Rightarrow> State_Monad.return () | Inr bytes \<Rightarrow> observe_timeout e ''detach'' ''disk'' bytes started) }"

definition detach_now :: "('r, 's) environment \<Rightarrow> settings \<Rightarrow> string \<Rightarrow> string \<Rightarrow> ('r, 's, csi_error + unit) handler" where
  "detach_now e cfg volume node = do {
     started \<leftarrow> time_now e;
     r \<leftarrow> detach_from e volume node;
     (case r of
        Some cause \<Rightarrow> do {
          note_timeout e cfg node volume ''detach'' cause;
          drift \<leftarrow> detach_drift_error e cfg volume node cause;
          State_Monad.return (Inl (case drift of None \<Rightarrow> (InternalCode, ''failed to detach volume'') | Some x \<Rightarrow> x)) }
      | None \<Rightarrow> do {
          clear_guard node;
          observe_detach e volume started;
          State_Monad.return (Inr ()) }) }"

definition unpublish_body ::
  "('r, 's) environment \<Rightarrow> settings \<Rightarrow> string \<Rightarrow> string \<Rightarrow> int \<Rightarrow> int \<Rightarrow> ('r, 's, csi_error + unit) handler" where
  "unpublish_body e cfg volume node i vm = do {
     t \<leftarrow> target_on e volume node i vm;
     if t = None then State_Monad.return (Inr ()) else do {
       h \<leftarrow> should_delay_detach e cfg volume node;
       held \<leftarrow> (case h of
           None \<Rightarrow> State_Monad.return False
         | Some st \<Rightarrow> do { err \<leftarrow> start_hold e st; State_Monad.return (\<not> err) });
       if held then State_Monad.return (Inr ()) else detach_now e cfg volume node } }"

definition unpublish_disk ::
  "('r, 's) environment \<Rightarrow> settings \<Rightarrow> string \<Rightarrow> string \<Rightarrow> int \<Rightarrow> int \<Rightarrow> ('r, 's, csi_error + unit) handler" where
  "unpublish_disk e cfg volume node i vm = do {
     t \<leftarrow> target_on e volume node i vm;
     if t = None then State_Monad.return (Inr ()) else do {
       rescued \<leftarrow> rescue_same_node e cfg volume node i vm;
       (case rescued of
          Answer r \<Rightarrow> State_Monad.return r
        | Continue \<Rightarrow> do {
            held \<leftarrow> maintenance_hold e cfg volume node;
            (case held of
               Answer r \<Rightarrow> State_Monad.return r
             | Continue \<Rightarrow> do {
                 c \<leftarrow> cooldown e cfg node;
                 if c \<noteq> None then State_Monad.return (Inl (Unavailable, guard_message (the c))) else do {
                   r \<leftarrow> with_queue e cfg node ''detach'' volume priority_normal (unpublish_body e cfg volume node i vm);
                   (case r of
                      Inl x \<Rightarrow> fail_hotplug e node x
                    | Inr _ \<Rightarrow> State_Monad.return (Inr ())) } }) }) } }"

definition unpublish_without_node :: "('r, 's) environment \<Rightarrow> int \<Rightarrow> ('r, 's, csi_error + unit) handler" where
  "unpublish_without_node e i = do {
     r \<leftarrow> outside (volume_ready_with_timeout (ev_fuel e) (ev_api e) i);
     State_Monad.return (case r of
         Inl _ \<Rightarrow> Inl (InternalCode, ''failed to check if volume is used'')
       | Inr ready \<Rightarrow> if ready then Inr () else Inl (NotFoundCode, ''node not found and volume is still in use'')) }"

definition controller_unpublish :: "('r, 's) environment \<Rightarrow> settings \<Rightarrow> string \<Rightarrow> string \<Rightarrow> ('r, 's, csi_error + unit) handler" where
  "controller_unpublish e cfg volume node =
     (if volume = [] then State_Monad.return (Inl (InvalidArgument, ''missing volume ID''))
      else if node = [] then State_Monad.return (Inl (InvalidArgument, ''missing node ID''))
      else if is_shared_volume_id volume then State_Monad.return (Inr ())
      else do {
        i \<leftarrow> volume_id e volume;
        (case i of
           None \<Rightarrow> State_Monad.return (Inr ())
         | Some i \<Rightarrow> do {
             vm \<leftarrow> node_id e node;
             (case vm of
                None \<Rightarrow> unpublish_without_node e i
              | Some vm \<Rightarrow> unpublish_disk e cfg volume node i vm) }) })"

section \<open>Expiry of holds\<close>

definition defer_sticky :: "('r, 's) environment \<Rightarrow> sticky_state \<Rightarrow> duration \<Rightarrow> ('r, 's, unit) handler" where
  "defer_sticky e st delay = do {
     now \<leftarrow> time_now e;
     update_hold e (st\<lparr>sa_expires_at := now + (if delay \<le> 0 then minute else delay)\<rparr>);
     State_Monad.return () }"

text \<open>The hold of a volume, if it has expired.\<close>

definition expired_hold :: "('r, 's) environment \<Rightarrow> string \<Rightarrow> ('r, 's, sticky_state option) handler" where
  "expired_hold e volume = do {
     h \<leftarrow> hold_of volume;
     now \<leftarrow> time_now e;
     State_Monad.return (case h of None \<Rightarrow> None | Some st \<Rightarrow> if now < sa_expires_at st then None else Some st) }"

text \<open>Whether the volume and the node exist, and the disk of the volume on the node.\<close>

definition look_up :: "('r, 's) environment \<Rightarrow> string \<Rightarrow> string \<Rightarrow> ('r, 's, string option option) handler" where
  "look_up e volume node = do {
     i \<leftarrow> volume_id e volume;
     vm \<leftarrow> node_id e node;
     (case (i, vm) of
        (Some i, Some vm) \<Rightarrow> do { t \<leftarrow> target_on e volume node i vm; State_Monad.return (Some t) }
      | _ \<Rightarrow> State_Monad.return None) }"

definition cleared :: "bool \<Rightarrow> csi_error + unit" where
  "cleared err = (if err then Inl (InternalCode, ''failed to clear sticky attachment state'') else Inr ())"

definition expire_detach :: "('r, 's) environment \<Rightarrow> settings \<Rightarrow> sticky_state \<Rightarrow> ('r, 's, csi_error + unit) handler" where
  "expire_detach e cfg st = do {
     started \<leftarrow> time_now e;
     r \<leftarrow> detach_from e (sa_volume st) (sa_node st);
     (case r of
        Some cause \<Rightarrow> do {
          drift \<leftarrow> detach_drift_error e cfg (sa_volume st) (sa_node st) cause;
          State_Monad.return (Inl (case drift of None \<Rightarrow> (InternalCode, error_text cause) | Some x \<Rightarrow> x)) }
      | None \<Rightarrow> do {
          clear_guard (sa_node st);
          clear_volume_quarantine e cfg (sa_volume st);
          observe_detach e (sa_volume st) started;
          err \<leftarrow> clear_hold e (sa_volume st);
          State_Monad.return (cleared err) }) }"

definition expire_absent :: "('r, 's) environment \<Rightarrow> settings \<Rightarrow> sticky_state \<Rightarrow> ('r, 's, csi_error + unit) handler" where
  "expire_absent e cfg st = do {
     t \<leftarrow> look_up e (sa_volume st) (sa_node st);
     if t = Some None then do {
       err \<leftarrow> clear_hold e (sa_volume st);
       if err then State_Monad.return (cleared True)
       else do { clear_volume_quarantine e cfg (sa_volume st); State_Monad.return (Inr ()) } }
     else expire_detach e cfg st }"

definition expire_body :: "('r, 's) environment \<Rightarrow> settings \<Rightarrow> string \<Rightarrow> ('r, 's, csi_error + unit) handler" where
  "expire_body e cfg volume = do {
     h \<leftarrow> expired_hold e volume;
     (case h of
        None \<Rightarrow> State_Monad.return (Inr ())
      | Some st \<Rightarrow> do {
          c \<leftarrow> cooldown e cfg (sa_node st);
          if c \<noteq> None then do { defer_sticky e st minute; State_Monad.return (Inr ()) } else do {
            desired \<leftarrow> desired_on e cfg (sa_volume st) (sa_node st);
            t \<leftarrow> (if desired \<noteq> None then look_up e (sa_volume st) (sa_node st) else State_Monad.return None);
            (case t of
               Some (Some _) \<Rightarrow> do { err \<leftarrow> clear_hold e (sa_volume st); State_Monad.return (cleared err) }
             | _ \<Rightarrow> expire_absent e cfg st) } }) }"

definition expire_now :: "('r, 's) environment \<Rightarrow> settings \<Rightarrow> sticky_state \<Rightarrow> ('r, 's, unit) handler" where
  "expire_now e cfg current = do {
     c \<leftarrow> cooldown e cfg (sa_node current);
     if c \<noteq> None then defer_sticky e current minute else do {
       with_queue e cfg (sa_node current) ''detach'' (sa_volume current) priority_background (expire_body e cfg (sa_volume current));
       State_Monad.return () } }"

definition expire_sticky :: "('r, 's) environment \<Rightarrow> settings \<Rightarrow> sticky_state \<Rightarrow> ('r, 's, unit) handler" where
  "expire_sticky e cfg st = do {
     h \<leftarrow> expired_hold e (sa_volume st);
     (case h of None \<Rightarrow> State_Monad.return () | Some current \<Rightarrow> expire_now e cfg current) }"

fun expire_all :: "('r, 's) environment \<Rightarrow> settings \<Rightarrow> sticky_state list \<Rightarrow> ('r, 's, unit) handler" where
  "expire_all e cfg [] = State_Monad.return ()"
| "expire_all e cfg (st # sts) = do {
     on \<leftarrow> maintenance_on;
     (if sa_reason st = sticky_reason \<and> on then State_Monad.return () else expire_sticky e cfg st);
     expire_all e cfg sts }"

definition reaper_tick :: "('r, 's) environment \<Rightarrow> settings \<Rightarrow> bool \<Rightarrow> ('r, 's, unit) handler" where
  "reaper_tick e cfg leader = (if \<not> leader then State_Monad.return () else do {
     now \<leftarrow> time_now e;
     expired \<leftarrow> State (\<lambda>w. (list_expired now (w_sticky w), w));
     expire_all e cfg expired })"

section \<open>Validation of queued requests\<close>

definition attach_request_stale :: "('r, 's) environment \<Rightarrow> settings \<Rightarrow> string \<Rightarrow> string \<Rightarrow> ('r, 's, string option) handler" where
  "attach_request_stale e cfg node volume = (if \<not> st_kube cfg then State_Monad.return None else do {
     rt \<leftarrow> context_of e cfg volume;
     (case rt of
        Inl m \<Rightarrow> State_Monad.return (if contains_sub m ''persistent volume for handle'' then Some ''persistent_volume_not_found'' else None)
      | Inr rt \<Rightarrow> do {
          pv \<leftarrow> outside (k_pv (ev_kube e) (rt_pv rt));
          (case pv of
             KubeNotFound \<Rightarrow> State_Monad.return (Some ''persistent_volume_not_found'')
           | KubeError \<Rightarrow> State_Monad.return None
           | KubeOk pv \<Rightarrow>
               if pv_deleting pv then State_Monad.return (Some ''persistent_volume_deleting'')
               else if pv_phase pv \<in> {''Released'', ''Failed''}
               then State_Monad.return (Some (''persistent_volume_'' @ to_lower (pv_phase pv)))
               else do {
                 vas \<leftarrow> outside (k_vas (ev_kube e));
                 State_Monad.return (case vas of
                     Inl _ \<Rightarrow> None
                   | Inr vas \<Rightarrow>
                       if list_ex (\<lambda>va. va_pv va = Some (rt_pv rt) \<and> va_node va = node \<and> \<not> va_deleting va) vas then None
                       else Some ''volume_attachment_not_found'') }) }) })"

text \<open>The decision and its reason.\<close>

definition validate_request ::
  "('r, 's) environment \<Rightarrow> settings \<Rightarrow> string \<Rightarrow> string \<Rightarrow> string \<Rightarrow> ('r, 's, validation_decision \<times> string) handler" where
  "validate_request e cfg node operation volume =
     (if trim_space node = [] \<or> trim_space volume = [] then State_Monad.return (VValid, []) else do {
        v \<leftarrow> outside (volume_exists (ev_api e) volume);
        (case v of
           Inl _ \<Rightarrow> State_Monad.return (VValid, [])
         | Inr (i, _) \<Rightarrow>
             if i = -1 then State_Monad.return (VStale, ''volume_not_found'') else do {
               n \<leftarrow> outside (node_exists (ev_api e) node);
               (case n of
                  Inl _ \<Rightarrow> State_Monad.return (VValid, [])
                | Inr vm \<Rightarrow>
                    if vm = -1 then State_Monad.return (VStale, ''node_not_found'') else do {
                      c \<leftarrow> cooldown e cfg node;
                      (case c of
                         Some st \<Rightarrow> State_Monad.return (VPaused, cs_reason st)
                       | None \<Rightarrow> do {
                           t \<leftarrow> target_on e volume node i vm;
                           let operation = to_lower (trim_space operation);
                           if operation = ''attach'' then
                             (if t \<noteq> None then State_Monad.return (VCompleted, ''already_attached'') else do {
                                stale \<leftarrow> attach_request_stale e cfg node volume;
                                State_Monad.return (case stale of None \<Rightarrow> (VValid, []) | Some r \<Rightarrow> (VStale, r)) })
                           else if operation = ''detach'' \<and> t = None then State_Monad.return (VCompleted, ''already_detached'')
                           else State_Monad.return (VValid, []) }) }) }) })"

end
