(* ===== verification/Handler_Calculus.thy ===== *)
theory Handler_Calculus
  imports Controller_Publish
begin

text \<open>
  A weakest precondition calculus for the handlers: \<open>wp m Q w\<close> says that running \<open>m\<close> in \<open>w\<close> ends in a
  result and a world that satisfy \<open>Q\<close>.  The collection \<open>wp_rules\<close> has one rule for each construct of
  the state monad and each operation the handlers are made of, so that \<open>intro wp_rules\<close> turns
  a handler into its paths.  \<open>steady\<close> operations leave the holds, the history and the
  maintenance mode alone.
\<close>

section \<open>Weakest preconditions\<close>

definition wp :: "('w, 'a) state \<Rightarrow> ('a \<Rightarrow> 'w \<Rightarrow> bool) \<Rightarrow> 'w \<Rightarrow> bool" where
  "wp m Q w \<longleftrightarrow> (case run_state m w of (a, w') \<Rightarrow> Q a w')"

named_theorems wp_simps

lemma wp_return [wp_simps]: "wp (State_Monad.return a) Q w \<longleftrightarrow> Q a w"
  by (simp add: wp_def State_Monad.return_def)

lemma wp_bind [wp_simps]: "wp (State_Monad.bind m f) Q w \<longleftrightarrow> wp m (\<lambda>a. wp (f a) Q) w"
  by (simp add: wp_def State_Monad.bind_def split: prod.splits)

lemma wp_State [wp_simps]: "wp (State f) Q w \<longleftrightarrow> (case f w of (a, w') \<Rightarrow> Q a w')"
  by (simp add: wp_def)

lemma wp_if [wp_simps]: "wp (if b then m else m') Q w \<longleftrightarrow> (if b then wp m Q w else wp m' Q w)"
  by simp

lemma wp_option [wp_simps]: "wp (case x of None \<Rightarrow> m | Some a \<Rightarrow> f a) Q w \<longleftrightarrow> (case x of None \<Rightarrow> wp m Q w | Some a \<Rightarrow> wp (f a) Q w)"
  by (simp split: option.split)

lemma wp_sum [wp_simps]: "wp (case x of Inl a \<Rightarrow> f a | Inr b \<Rightarrow> g b) Q w \<longleftrightarrow> (case x of Inl a \<Rightarrow> wp (f a) Q w | Inr b \<Rightarrow> wp (g b) Q w)"
  by (simp split: sum.split)

lemma wp_early [wp_simps]: "wp (case x of Continue \<Rightarrow> m | Answer a \<Rightarrow> f a) Q w \<longleftrightarrow> (case x of Continue \<Rightarrow> wp m Q w | Answer a \<Rightarrow> wp (f a) Q w)"
  by (simp split: early.split)

lemma wp_mono: "wp m Q w \<Longrightarrow> (\<And>a w'. Q a w' \<Longrightarrow> Q' a w') \<Longrightarrow> wp m Q' w"
  by (auto simp: wp_def split: prod.splits)

lemma wp_run: "wp m Q w \<Longrightarrow> run_state m w = (a, w') \<Longrightarrow> Q a w'"
  by (simp add: wp_def)

text \<open>Operations that leave the holds, the history and the maintenance mode alone.\<close>

definition steady :: "('r, 's, 'a) handler \<Rightarrow> bool" where
  "steady m \<longleftrightarrow> (\<forall>w. wp m (\<lambda>_ w'. w_log w' = w_log w \<and> w_sticky w' = w_sticky w \<and> w_maintenance w' = w_maintenance w) w)"

named_theorems steady_intros

lemma steady_return [steady_intros]: "steady (State_Monad.return a)"
  by (simp add: steady_def wp_simps)

lemma steady_bind [steady_intros]: "steady m \<Longrightarrow> (\<And>a. steady (f a)) \<Longrightarrow> steady (State_Monad.bind m f)"
  unfolding steady_def wp_def by (fastforce simp: State_Monad.bind_def split: prod.splits)

lemma steady_State [steady_intros]: "(\<And>w. w_log (snd (f w)) = w_log w \<and> w_sticky (snd (f w)) = w_sticky w \<and> w_maintenance (snd (f w)) = w_maintenance w) \<Longrightarrow> steady (State f)"
  by (simp add: steady_def wp_simps case_prod_beta)

lemma steady_if [steady_intros]: "steady m \<Longrightarrow> steady m' \<Longrightarrow> steady (if b then m else m')" by simp

lemma steady_option [steady_intros]: "steady m \<Longrightarrow> (\<And>a. steady (f a)) \<Longrightarrow> steady (case x of None \<Rightarrow> m | Some a \<Rightarrow> f a)"
  by (simp split: option.split)

lemma steady_sum [steady_intros]: "(\<And>a. steady (f a)) \<Longrightarrow> (\<And>b. steady (g b)) \<Longrightarrow> steady (case x of Inl a \<Rightarrow> f a | Inr b \<Rightarrow> g b)"
  by (simp split: sum.split)

lemma steady_let [steady_intros]: "steady (f a) \<Longrightarrow> steady (let x = a in f x)" by simp

lemma steady_outside [steady_intros]: "steady (outside f)"
  by (simp add: outside_def steady_def wp_simps split: prod.splits)

lemma steady_now [steady_intros]: "steady (time_now e)" "steady maintenance_on" "steady (hold_of v)" "steady has_artifacts" "steady (recommended e a b c d)" "steady (active_quarantine e v)"
  by (simp_all add: time_now_def maintenance_on_def hold_of_def has_artifacts_def recommended_def active_quarantine_def steady_State Let_def)

lemma steady_cooldown [steady_intros]: "steady (cooldown e cfg node)"
  unfolding cooldown_def by (intro steady_intros) (auto split: prod.splits)

lemma steady_clear_guard [steady_intros]: "steady (clear_guard node)"
  unfolding clear_guard_def by (intro steady_intros) (auto split: prod.splits)

lemma steady_note_timeout [steady_intros]: "steady (note_timeout e cfg node volume operation err)"
  unfolding note_timeout_def by (intro steady_intros) (auto split: prod.splits)

lemma steady_quarantine [steady_intros]:
  "steady (clear_volume_quarantine e cfg v)" "steady (clear_artifact_quarantine e cfg v)" "steady (mark_drift e cfg q)"
  unfolding clear_volume_quarantine_def clear_artifact_quarantine_def mark_drift_def by (intro steady_intros; auto split: prod.splits)+

lemma steady_observe [steady_intros]: "steady (observe_timeout e operation backend bytes started)"
  unfolding observe_timeout_def by (intro steady_intros) auto

lemma steady_ids [steady_intros]: "steady (volume_id e v)" "steady (node_id e n)" "steady (context_of e cfg v)" "steady (local_context e cfg v)"
  "steady (discovery_timeout e cfg backend bytes hotplug)"
  unfolding volume_id_def node_id_def context_of_def local_context_def discovery_timeout_def by (intro steady_intros)+

lemma steady_publish_context [steady_intros]: "steady (publish_context e cfg volume target discovery src)"
  unfolding publish_context_def Let_def by (intro steady_intros)

lemma steady_rejections [steady_intros]:
  "steady (reject_if_drift e cfg v n)" "steady (detach_drift_error e cfg v n cause)" "steady (reject_if_artifact e cfg v n params)"
  "steady (handle_artifact_conflict e cfg v t m)" "steady (maintenance_blocks e cfg v n)" "steady (should_delay_detach e cfg v n)"
  unfolding reject_if_drift_def detach_drift_error_def reject_if_artifact_def handle_artifact_conflict_def maintenance_blocks_def should_delay_detach_def
  by (intro steady_intros; auto simp: Let_def split: prod.splits option.splits intro!: steady_intros)+

lemma steady_wp: "steady m \<Longrightarrow> (\<And>a w'. w_log w' = w_log w \<Longrightarrow> w_maintenance w' = w_maintenance w \<Longrightarrow> w_sticky w' = w_sticky w \<Longrightarrow> Q a w') \<Longrightarrow> wp m Q w"
  by (auto simp: steady_def wp_def split: prod.splits)

lemma steadyD: "steady m \<Longrightarrow> wp m (\<lambda>_ w'. w_log w' = w_log w \<and> w_sticky w' = w_sticky w \<and> w_maintenance w' = w_maintenance w) w"
  by (simp add: steady_def)

lemma wp_record_event: "wp (record_event ev) Q w \<longleftrightarrow> Q () (w\<lparr>w_log := w_log w @ [ev]\<rparr>)"
  by (simp add: record_event_def wp_simps)

lemma wp_outside: "(\<And>a s. Q a (w\<lparr>w_out := s\<rparr>)) \<Longrightarrow> wp (outside f) Q w"
  by (simp add: outside_def wp_simps split: prod.splits)

lemma wp_hold_of [wp_simps]: "wp (hold_of v) Q w \<longleftrightarrow> Q (sticky_get v (w_sticky w)) w"
  by (simp add: hold_of_def wp_simps)

lemma wp_target_on:
  "(\<And>t w'. w_log w' = w_log w @ [Observed v n t] \<Longrightarrow> w_maintenance w' = w_maintenance w \<Longrightarrow> w_sticky w' = w_sticky w \<Longrightarrow> Q t w') \<Longrightarrow> wp (target_on e v n i vm) Q w"
  unfolding target_on_def Let_def wp_simps by (rule wp_outside) (simp add: wp_record_event wp_simps)

lemma wp_attach_to:
  "(\<And>r w'. w_log w' = w_log w @ [AttachReply v n (r = None)] \<Longrightarrow> w_maintenance w' = w_maintenance w \<Longrightarrow> w_sticky w' = w_sticky w \<Longrightarrow> Q r w') \<Longrightarrow> wp (attach_to e v n im ps) Q w"
  unfolding attach_to_def Let_def wp_simps by (rule wp_outside) (simp add: wp_record_event wp_simps)

lemma wp_detach_from:
  "(\<And>r w'. w_log w' = w_log w @ [DetachReply v n (r = None)] \<Longrightarrow> w_maintenance w' = w_maintenance w \<Longrightarrow> w_sticky w' = w_sticky w \<Longrightarrow> Q r w') \<Longrightarrow> wp (detach_from e v n) Q w"
  unfolding detach_from_def Let_def wp_simps by (rule wp_outside) (simp add: wp_record_event wp_simps)

lemma wp_desired_on:
  "(\<And>d w'. w_log w' = w_log w @ (if d = None then [] else [WantedOn v n]) \<Longrightarrow> w_maintenance w' = w_maintenance w \<Longrightarrow> w_sticky w' = w_sticky w \<Longrightarrow> Q d w') \<Longrightarrow> wp (desired_on e cfg v n) Q w"
  unfolding desired_on_def Let_def wp_simps by (rule wp_outside) (auto simp: wp_record_event wp_simps split: sum.split bool.split)

lemma wp_with_sticky:
  "(\<And>wo w'. w_log w' = w_log w \<Longrightarrow> w_maintenance w' = w_maintenance w \<Longrightarrow> w_sticky w' = snd (f wo (w_sticky w)) \<Longrightarrow> Q (fst (f wo (w_sticky w))) w') \<Longrightarrow> wp (with_sticky e f) Q w"
  unfolding with_sticky_def wp_simps by (rule wp_outside) (simp add: case_prod_beta)

lemma sticky_get_clear: "sticky_get u (snd (sticky_clear wo v m)) = (if u = v \<and> trim_space v \<noteq> [] then None else sticky_get u m)"
  by (auto simp: sticky_clear_def sticky_get_def delete_entry_def drop_entry_def Let_def delete_conv')

lemma sticky_get_start:
  "sticky_get u (snd (start_grace encode wo st m)) =
     (if u = sa_volume st \<and> trim_space u \<noteq> [] then (if fst (start_grace encode wo st m) then None else Some st) else sticky_get u m)"
  by (auto simp: start_grace_def sticky_get_def persist_entry_def put_entry_def drop_entry_def Let_def delete_conv' update_conv')

lemma start_grace_blank: "trim_space (sa_volume st) = [] \<Longrightarrow> fst (start_grace encode wo st m)"
  by (simp add: start_grace_def)

lemma wp_clear_hold:
  "(\<And>err w'. w_log w' = w_log w \<Longrightarrow> w_maintenance w' = w_maintenance w \<Longrightarrow>
      (\<And>u. sticky_get u (w_sticky w') = (if u = v \<and> trim_space v \<noteq> [] then None else sticky_get u (w_sticky w))) \<Longrightarrow> Q err w')
   \<Longrightarrow> wp (clear_hold e v) Q w"
  unfolding clear_hold_def by (rule wp_with_sticky) (simp add: sticky_get_clear)

lemma wp_start_hold:
  "(\<And>err w'. w_log w' = w_log w \<Longrightarrow> w_maintenance w' = w_maintenance w \<Longrightarrow>
      (\<And>u. sticky_get u (w_sticky w') = (if u = sa_volume st \<and> trim_space u \<noteq> [] then (if err then None else Some st) else sticky_get u (w_sticky w))) \<Longrightarrow>
      (trim_space (sa_volume st) = [] \<Longrightarrow> err) \<Longrightarrow> Q err w')
   \<Longrightarrow> wp (start_hold e st) Q w"
  unfolding start_hold_def by (rule wp_with_sticky) (simp add: sticky_get_start start_grace_blank)



lemma put_trimmed_other: "k \<noteq> x \<Longrightarrow> put_trimmed src k m x = m x"
  by (simp add: put_trimmed_def split: option.split)

lemma runtime_entries_name: "runtime_entries rt m ''volumeName'' = m ''volumeName''"
  by (simp add: runtime_entries_def Let_def put_missing_def param_pvc_name_def param_pvc_namespace_def param_pv_name_def annotation_backend_def)

lemma wp_case_sum: "(\<And>a. x = Inl a \<Longrightarrow> wp (f a) Q w) \<Longrightarrow> (\<And>b. x = Inr b \<Longrightarrow> wp (g b) Q w) \<Longrightarrow> wp (case x of Inl a \<Rightarrow> f a | Inr b \<Rightarrow> g b) Q w"
  by (simp split: sum.split)

lemma wp_case_if: "(b \<Longrightarrow> wp m Q w) \<Longrightarrow> (\<not> b \<Longrightarrow> wp m' Q w) \<Longrightarrow> wp (if b then m else m') Q w"
  by simp

lemma publish_context_name: "wp (publish_context e cfg v target d src) (\<lambda>m _. m ''volumeName'' = Some target) w"
proof -
  let ?m = "put_trimmed src param_pv_name (put_trimmed src param_pvc_namespace (put_trimmed src param_pvc_name [''volumeName'' \<mapsto> target]))"
  have base: "?m ''volumeName'' = Some target"
    by (simp add: put_trimmed_other param_pvc_name_def param_pvc_namespace_def param_pv_name_def)
  show ?thesis
    unfolding publish_context_def Let_def wp_bind
    apply (rule steady_wp [OF steady_ids(1)])
    apply (rule steady_wp, (rule steady_intros)+)
    apply (rule steady_wp [OF steady_outside])
    apply (rule wp_case_sum)
     apply (simp add: wp_return base runtime_entries_name split: option.split sum.split)
    apply (simp only: wp_bind)
    apply (rule steady_wp, (rule steady_intros)+)
    apply (simp add: wp_return base runtime_entries_name split: option.split sum.split)
    done
qed

lemma wp_conj: "wp m Q w \<Longrightarrow> wp m Q' w \<Longrightarrow> wp m (\<lambda>a w'. Q a w' \<and> Q' a w') w"
  by (auto simp: wp_def)

lemma wp_publish_context:
  "(\<And>m w'. w_log w' = w_log w \<Longrightarrow> w_maintenance w' = w_maintenance w \<Longrightarrow> w_sticky w' = w_sticky w \<Longrightarrow> m ''volumeName'' = Some target \<Longrightarrow> Q m w') \<Longrightarrow>
   wp (publish_context e cfg v target d src) Q w"
  by (rule wp_mono [OF wp_conj [OF publish_context_name steadyD [OF steady_publish_context]]]) auto

named_theorems wp_rules

lemma wp_bindI [wp_rules]: "wp m (\<lambda>a. wp (f a) Q) w \<Longrightarrow> wp (State_Monad.bind m f) Q w"
  by (simp add: wp_bind)

lemma wp_returnI [wp_rules]: "Q a w \<Longrightarrow> wp (State_Monad.return a) Q w"
  by (simp add: wp_return)

lemma wp_optionI [wp_rules]:
  "(x = None \<Longrightarrow> wp m Q w) \<Longrightarrow> (\<And>a. x = Some a \<Longrightarrow> wp (f a) Q w) \<Longrightarrow> wp (case x of None \<Rightarrow> m | Some a \<Rightarrow> f a) Q w"
  by (simp split: option.split)

lemma wp_earlyI [wp_rules]:
  "(x = Continue \<Longrightarrow> wp m Q w) \<Longrightarrow> (\<And>a. x = Answer a \<Longrightarrow> wp (f a) Q w) \<Longrightarrow> wp (case x of Continue \<Rightarrow> m | Answer a \<Rightarrow> f a) Q w"
  by (simp split: early.split)

lemma wp_hold_ofI [wp_rules]: "Q (sticky_get v (w_sticky w)) w \<Longrightarrow> wp (hold_of v) Q w"
  by (simp add: wp_hold_of)

lemmas [wp_rules] = wp_case_sum wp_case_if wp_target_on wp_attach_to wp_detach_from wp_desired_on wp_clear_hold wp_start_hold wp_publish_context
lemmas steady_ops = steady_outside steady_now(1,2,4-6) steady_cooldown steady_clear_guard steady_note_timeout steady_quarantine steady_observe steady_ids steady_rejections
lemmas [wp_rules] = steady_ops [THEN steady_wp]

text \<open>The events of a run.\<close>

definition news :: "('r, 's) driver_world \<Rightarrow> ('r, 's) driver_world \<Rightarrow> attach_event list" where
  "news w w' = drop (length (w_log w)) (w_log w')"

definition log_grows :: "('r, 's) driver_world \<Rightarrow> ('r, 's) driver_world \<Rightarrow> bool" where
  "log_grows w w' \<longleftrightarrow> w_log w' = w_log w @ news w w'"

lemma news_log: "w_log w' = w_log w @ evs \<Longrightarrow> news w w' = evs" by (simp add: news_def)

text \<open>That a volume has left a node, as far as a history shows.\<close>

definition settled :: "string \<Rightarrow> string \<Rightarrow> attach_event list \<Rightarrow> bool" where
  "settled v n evs \<longleftrightarrow> Observed v n None \<in> set evs \<or> DetachReply v n True \<in> set evs"

definition attaches :: "attach_event list \<Rightarrow> bool" where
  "attaches evs \<longleftrightarrow> list_ex (\<lambda>ev. case ev of AttachReply _ _ _ \<Rightarrow> True | _ \<Rightarrow> False) evs"

definition other_holds_kept :: "string \<Rightarrow> ('r, 's) driver_world \<Rightarrow> ('r, 's) driver_world \<Rightarrow> bool" where
  "other_holds_kept v w w' \<longleftrightarrow> (\<forall>u. u \<noteq> v \<longrightarrow> sticky_get u (w_sticky w') = sticky_get u (w_sticky w))"

lemmas world_defs = news_def log_grows_def settled_def attaches_def other_holds_kept_def

lemma wp_answerI [wp_rules]:
  "(x = Runs \<Longrightarrow> wp m Q w) \<Longrightarrow> (\<And>q. x = RunsLate q \<Longrightarrow> wp (f q) Q w) \<Longrightarrow> (\<And>r. x = Skips r \<Longrightarrow> wp (g r) Q w) \<Longrightarrow>
   wp (case x of Runs \<Rightarrow> m | RunsLate q \<Rightarrow> f q | Skips r \<Rightarrow> g r) Q w"
  by (simp split: queue_answer.split)

lemma steady_fail_hotplug: "steady (fail_hotplug e n x)"
  unfolding fail_hotplug_def by (intro steady_intros) (auto intro: steady_intros split: hotplug_error.split queue_error.split)

lemma wp_fail_hotplug [wp_rules]:
  "(\<And>w'. w_log w' = w_log w \<Longrightarrow> w_sticky w' = w_sticky w \<Longrightarrow> Q (Inl (hotplug_status x)) w') \<Longrightarrow> wp (fail_hotplug e n x) Q w"
proof -
  have "wp (fail_hotplug e n x) (\<lambda>r w'. r = Inl (hotplug_status x)) w"
    unfolding fail_hotplug_def by (simp add: wp_bind wp_return) (auto simp: wp_def outside_def State_Monad.return_def split: prod.splits hotplug_error.split queue_error.split)
  from wp_conj [OF this steadyD [OF steady_fail_hotplug]]
  show "(\<And>w'. w_log w' = w_log w \<Longrightarrow> w_sticky w' = w_sticky w \<Longrightarrow> Q (Inl (hotplug_status x)) w') \<Longrightarrow> wp (fail_hotplug e n x) Q w"
    by (rule wp_mono) auto
qed

definition queue_skips :: "('r, 's) environment \<Rightarrow> string \<Rightarrow> string \<Rightarrow> string \<Rightarrow> queue_priority \<Rightarrow> bool" where
  "queue_skips e n op v prio \<longleftrightarrow> (\<exists>s s'. ev_queue e n op v prio s = (Skips None, s'))"

text \<open>The queue runs the closure at most once; when it does not, the world is as before.\<close>

lemma wp_with_queue:
  assumes "\<And>w1. w_log w1 = w_log w \<Longrightarrow> w_sticky w1 = w_sticky w \<Longrightarrow> w_maintenance w1 = w_maintenance w \<Longrightarrow> wp body (P w1) w1"
    and "\<And>w1 r w'. w_log w1 = w_log w \<Longrightarrow> w_sticky w1 = w_sticky w \<Longrightarrow> w_maintenance w1 = w_maintenance w \<Longrightarrow> P w1 r w' \<Longrightarrow>
           Q (case r of Inl x \<Rightarrow> Inl (BodyFailed x) | Inr y \<Rightarrow> Inr (Some y)) w' \<and> (\<forall>q. Q (Inl (QueueFailed q)) w')"
    and "\<And>w' r. w_log w' = w_log w \<Longrightarrow> w_sticky w' = w_sticky w \<Longrightarrow> w_maintenance w' = w_maintenance w \<Longrightarrow>
           r = Inr None \<and> queue_skips e n op v prio \<or> isl r \<Longrightarrow> Q r w'"
  shows "wp (with_queue e cfg n op v prio body) Q w"
proof -
  have "wp (if enabled_by_default (st_queue cfg) then outside (ev_queue e n op v prio) else State_Monad.return Runs)
      (\<lambda>a w'. w_log w' = w_log w \<and> w_sticky w' = w_sticky w \<and> w_maintenance w' = w_maintenance w \<and> (a = Skips None \<longrightarrow> queue_skips e n op v prio)) w"
    by (auto simp: wp_def outside_def State_Monad.return_def queue_skips_def split: prod.splits)
  then show ?thesis
    unfolding with_queue_def
    by (intro wp_bindI, elim wp_mono, intro wp_rules wp_mono [OF assms(1)]) (use assms(2,3) in \<open>auto split: option.splits\<close>)
qed


end
