(* ===== verification/Node_Host.thy ===== *)
theory Node_Host
  imports Handler_Calculus
begin

text \<open>
  The machine a node plugin runs on, and the state of the plugin
  (\<open>driver/nodeserver.go\<close>, \<open>driver/node_device_resolver.go\<close>,
  \<open>driver/nodeserver_localdisk_recovery.go\<close>).  The kernel, the mount library and the programs the
  plugin calls are parameters: the record \<open>host\<close> has one call for each of them.  The plugin itself has a
  cache of resolved devices, a file for each staged volume (its session), and the adaptive
  timeouts.
\<close>

section \<open>The host\<close>

datatype errno = EIO | ENODEV | ENXIO | OtherErrno

datatype stat_reply = IsDirectory | IsRegular int | IsDevice | NotExist string | StatError errno string

fun stat_ok :: "stat_reply \<Rightarrow> bool" where
  "stat_ok (NotExist _) = False"
| "stat_ok (StatError _ _) = False"
| "stat_ok _ = True"

fun stat_text :: "stat_reply \<Rightarrow> string" where
  "stat_text (NotExist m) = m"
| "stat_text (StatError _ m) = m"
| "stat_text _ = []"

record mount_point =
  mp_device :: string
  mp_path :: string
  mp_type :: string
  mp_opts :: "string list"

record fs_stats =
  fs_blocks :: int
  fs_bsize :: int
  fs_bavail :: int
  fs_bfree :: int
  fs_files :: int
  fs_ffree :: int

text \<open>Calls that can only fail return their error; \<open>ho_blockdev\<close> and the two queries of a serial number
  return the output of a program.\<close>

record 's host =
  ho_now :: "'s \<Rightarrow> go_time"
  ho_sleep :: "duration \<Rightarrow> 's \<Rightarrow> 's"
  ho_stat :: "string \<Rightarrow> 's \<Rightarrow> stat_reply \<times> 's"
  ho_glob :: "string \<Rightarrow> 's \<Rightarrow> string list option \<times> 's"
  ho_symlink :: "string \<Rightarrow> 's \<Rightarrow> string option \<times> 's"
  ho_readlink :: "string \<Rightarrow> 's \<Rightarrow> string option \<times> 's"
  ho_udev :: "string \<Rightarrow> 's \<Rightarrow> string option \<times> 's"
  ho_lsblk :: "string \<Rightarrow> 's \<Rightarrow> string option \<times> 's"
  ho_settle :: "int \<Rightarrow> 's \<Rightarrow> 's"
  ho_rescan :: "string \<Rightarrow> 's \<Rightarrow> 's"
  ho_list :: "'s \<Rightarrow> (string + mount_point list) \<times> 's"
  ho_mkdir_all :: "string \<Rightarrow> 's \<Rightarrow> string option \<times> 's"
  ho_create :: "string \<Rightarrow> 's \<Rightarrow> string option \<times> 's"
  ho_format_mount :: "string \<Rightarrow> string \<Rightarrow> string \<Rightarrow> string list \<Rightarrow> 's \<Rightarrow> string option \<times> 's"
  ho_mount :: "string \<Rightarrow> string \<Rightarrow> string \<Rightarrow> string list \<Rightarrow> 's \<Rightarrow> string option \<times> 's"
  ho_cleanup :: "string \<Rightarrow> 's \<Rightarrow> string option \<times> 's"
  ho_statfs :: "string \<Rightarrow> 's \<Rightarrow> (errno \<times> string + fs_stats) \<times> 's"
  ho_blockdev :: "string \<Rightarrow> 's \<Rightarrow> (string + string) \<times> 's"
  ho_resize :: "string \<Rightarrow> string \<Rightarrow> 's \<Rightarrow> (string + bool) \<times> 's"
  ho_session_write :: "'s \<Rightarrow> bool \<times> 's"
  ho_session_read :: "'s \<Rightarrow> bool \<times> 's"
  ho_pod_exists :: "string \<Rightarrow> 's \<Rightarrow> bool \<times> 's"

section \<open>The state of the plugin\<close>

record cache_entry =
  ce_image :: string
  ce_serial :: string
  ce_device :: string
  ce_by_id :: string
  ce_at :: go_time

record published_target =
  pt_path :: string
  pt_options :: "string list"

record local_session =
  ls_volume :: string
  ls_volume_name :: string
  ls_staging :: string
  ls_device :: string
  ls_serial :: string
  ls_image :: string
  ls_fs :: string
  ls_options :: "string list"
  ls_pvc_namespace :: string
  ls_pvc :: string
  ls_pv :: string
  ls_targets :: "published_target list"
  ls_recovered_at :: "go_time option"
  ls_error :: string
  ls_attempts :: int

record 's node_world =
  nw_cache :: "string \<Rightarrow> cache_entry option"
  nw_sessions :: "string \<Rightarrow> local_session option"
  nw_tracker :: tracker
  nw_out :: 's

type_synonym ('s, 'a) node_op = "('s node_world, 'a) state"

definition on_host :: "('s \<Rightarrow> 'a \<times> 's) \<Rightarrow> ('s, 'a) node_op" where
  "on_host f = State (\<lambda>w. case f (nw_out w) of (a, s) \<Rightarrow> (a, w\<lparr>nw_out := s\<rparr>))"

definition host_time :: "'s host \<Rightarrow> ('s, go_time) node_op" where
  "host_time h = State (\<lambda>w. (ho_now h (nw_out w), w))"

definition host_do :: "('s \<Rightarrow> 's) \<Rightarrow> ('s, unit) node_op" where
  "host_do f = State (\<lambda>w. ((), w\<lparr>nw_out := f (nw_out w)\<rparr>))"

section \<open>Paths\<close>

text \<open>\<open>filepath.Base\<close> and \<open>filepath.Dir\<close>.\<close>

definition path_base :: "string \<Rightarrow> string" where
  "path_base s =
     (if s = [] then ''.''
      else (let t = rev (dropWhile (\<lambda>c. c = CHR ''/'') (rev s))
            in if t = [] then ''/'' else rev (takeWhile (\<lambda>c. c \<noteq> CHR ''/'') (rev t))))"

definition path_dir :: "string \<Rightarrow> string" where
  "path_dir s = path_clean (rev (dropWhile (\<lambda>c. c \<noteq> CHR ''/'') (rev s)))"

section \<open>Documented behaviour of the host\<close>

text \<open>Sleeping takes at least the given time and no call turns the clock back.\<close>

definition host_clock :: "'s host \<Rightarrow> bool" where
  "host_clock h \<longleftrightarrow>
     (\<forall>d s. ho_now h s + d \<le> ho_now h (ho_sleep h d s)) \<and>
     (\<forall>p s. ho_now h s \<le> ho_now h (snd (ho_stat h p s))) \<and> (\<forall>p s. ho_now h s \<le> ho_now h (snd (ho_glob h p s))) \<and>
     (\<forall>p s. ho_now h s \<le> ho_now h (snd (ho_symlink h p s))) \<and> (\<forall>p s. ho_now h s \<le> ho_now h (snd (ho_readlink h p s))) \<and>
     (\<forall>p s. ho_now h s \<le> ho_now h (snd (ho_udev h p s))) \<and> (\<forall>p s. ho_now h s \<le> ho_now h (snd (ho_lsblk h p s))) \<and>
     (\<forall>n s. ho_now h s \<le> ho_now h (ho_settle h n s)) \<and> (\<forall>p s. ho_now h s \<le> ho_now h (ho_rescan h p s)) \<and>
     (\<forall>p s. ho_now h s \<le> ho_now h (snd (ho_statfs h p s))) \<and> (\<forall>p s. ho_now h s \<le> ho_now h (snd (ho_blockdev h p s))) \<and>
     (\<forall>d p s. ho_now h s \<le> ho_now h (snd (ho_resize h d p s)))"

text \<open>\<open>mounts\<close> is the mount table, the first entry of a path being the one that counts.  Listing returns
  it; a successful mount puts its entry first, a successful cleanup leaves no entry of the
  path, and nothing else changes it.\<close>

definition mounted_at :: "mount_point list \<Rightarrow> string \<Rightarrow> mount_point option" where
  "mounted_at ms path = find (\<lambda>m. mp_path m = path) ms"

definition host_mounts :: "'s host \<Rightarrow> ('s \<Rightarrow> mount_point list) \<Rightarrow> bool" where
  "host_mounts h mounts \<longleftrightarrow>
     (\<forall>s. mounts (snd (ho_list h s)) = mounts s \<and> (\<forall>ms. fst (ho_list h s) = Inr ms \<longrightarrow> ms = mounts s)) \<and>
     (\<forall>d p fs fl s. fst (ho_format_mount h d p fs fl s) = None \<longrightarrow>
        (\<exists>m. mp_device m = d \<and> mp_path m = p \<and> mounts (snd (ho_format_mount h d p fs fl s)) = m # mounts s)) \<and>
     (\<forall>d p fs fl s. fst (ho_format_mount h d p fs fl s) \<noteq> None \<longrightarrow> mounts (snd (ho_format_mount h d p fs fl s)) = mounts s) \<and>
     (\<forall>d p fs fl s. fst (ho_mount h d p fs fl s) = None \<longrightarrow>
        (\<exists>m. mp_path m = p \<and> mounts (snd (ho_mount h d p fs fl s)) = m # mounts s)) \<and>
     (\<forall>d p fs fl s. fst (ho_mount h d p fs fl s) \<noteq> None \<longrightarrow> mounts (snd (ho_mount h d p fs fl s)) = mounts s) \<and>
     (\<forall>p s. fst (ho_cleanup h p s) = None \<longrightarrow> mounts (snd (ho_cleanup h p s)) = filter (\<lambda>m. mp_path m \<noteq> p) (mounts s)) \<and>
     (\<forall>p s. fst (ho_cleanup h p s) \<noteq> None \<longrightarrow>
        filter (\<lambda>m. mp_path m \<noteq> p) (mounts (snd (ho_cleanup h p s))) = filter (\<lambda>m. mp_path m \<noteq> p) (mounts s)) \<and>
     (\<forall>d s. mounts (ho_sleep h d s) = mounts s) \<and> (\<forall>p s. mounts (snd (ho_stat h p s)) = mounts s) \<and>
     (\<forall>p s. mounts (snd (ho_glob h p s)) = mounts s) \<and> (\<forall>p s. mounts (snd (ho_symlink h p s)) = mounts s) \<and>
     (\<forall>p s. mounts (snd (ho_readlink h p s)) = mounts s) \<and> (\<forall>p s. mounts (snd (ho_udev h p s)) = mounts s) \<and>
     (\<forall>p s. mounts (snd (ho_lsblk h p s)) = mounts s) \<and> (\<forall>n s. mounts (ho_settle h n s) = mounts s) \<and>
     (\<forall>p s. mounts (ho_rescan h p s) = mounts s) \<and> (\<forall>p s. mounts (snd (ho_mkdir_all h p s)) = mounts s) \<and>
     (\<forall>p s. mounts (snd (ho_create h p s)) = mounts s) \<and> (\<forall>p s. mounts (snd (ho_statfs h p s)) = mounts s) \<and>
     (\<forall>p s. mounts (snd (ho_blockdev h p s)) = mounts s) \<and> (\<forall>d p s. mounts (snd (ho_resize h d p s)) = mounts s) \<and>
     (\<forall>s. mounts (snd (ho_session_write h s)) = mounts s) \<and> (\<forall>s. mounts (snd (ho_session_read h s)) = mounts s) \<and>
     (\<forall>p s. mounts (snd (ho_pod_exists h p s)) = mounts s)"

section \<open>Quiet operations\<close>

text \<open>A relation between states of the host that the calls which only look, wait or probe respect.\<close>

definition quiet :: "'s host \<Rightarrow> ('s \<Rightarrow> 's \<Rightarrow> bool) \<Rightarrow> bool" where
  "quiet h R \<longleftrightarrow> reflp R \<and> transp R \<and> (\<forall>d s. 0 \<le> d \<longrightarrow> R s (ho_sleep h d s)) \<and>
     (\<forall>p s. R s (snd (ho_stat h p s))) \<and> (\<forall>p s. R s (snd (ho_glob h p s))) \<and>
     (\<forall>p s. R s (snd (ho_symlink h p s))) \<and> (\<forall>p s. R s (snd (ho_readlink h p s))) \<and>
     (\<forall>p s. R s (snd (ho_udev h p s))) \<and> (\<forall>p s. R s (snd (ho_lsblk h p s))) \<and>
     (\<forall>n s. R s (ho_settle h n s)) \<and> (\<forall>p s. R s (ho_rescan h p s)) \<and>
     (\<forall>p s. R s (snd (ho_statfs h p s))) \<and> (\<forall>p s. R s (snd (ho_blockdev h p s))) \<and>
     (\<forall>d p s. R s (snd (ho_resize h d p s)))"

lemma quiet_clock:
  assumes "host_clock h" shows "quiet h (\<lambda>s s'. ho_now h s \<le> ho_now h s')"
proof -
  have "ho_now h s \<le> ho_now h (ho_sleep h d s)" if "0 \<le> d" for d s
  proof -
    have "ho_now h s + d \<le> ho_now h (ho_sleep h d s)" using assms by (simp add: host_clock_def)
    then show ?thesis using that by linarith
  qed
  then show ?thesis using assms unfolding host_clock_def quiet_def by (simp add: reflp_def transp_def)
qed

lemma quiet_mounts: "host_mounts h mounts \<Longrightarrow> quiet h (\<lambda>s s'. mounts s' = mounts s)"
  unfolding host_mounts_def quiet_def by (simp add: reflp_def transp_def)

text \<open>Operations that change nothing but the host, and the host only along the relation.\<close>

definition unmoved :: "('s \<Rightarrow> 's \<Rightarrow> bool) \<Rightarrow> 's node_world \<Rightarrow> 's node_world \<Rightarrow> bool" where
  "unmoved R w w' \<longleftrightarrow> nw_cache w' = nw_cache w \<and> nw_sessions w' = nw_sessions w \<and> nw_tracker w' = nw_tracker w \<and> R (nw_out w) (nw_out w')"

definition still :: "('s \<Rightarrow> 's \<Rightarrow> bool) \<Rightarrow> ('s, 'a) node_op \<Rightarrow> bool" where
  "still R m \<longleftrightarrow> (\<forall>w. wp m (\<lambda>_. unmoved R w) w)"

named_theorems still_intros

lemma still_return [still_intros]: "reflp R \<Longrightarrow> still R (State_Monad.return a)"
  by (simp add: still_def unmoved_def wp_simps reflp_def)

text \<open>Sequencing, for any transitive relation between worlds.\<close>

lemma wp_sequence:
  assumes "\<And>w. wp m (\<lambda>_. P w) w" "\<And>a w. wp (f a) (\<lambda>_. P w) w" "\<And>u v w. P u v \<Longrightarrow> P v w \<Longrightarrow> P u w"
  shows "wp (State_Monad.bind m f) (\<lambda>_. P w) w"
  unfolding wp_bind using assms by (blast intro: wp_mono)

lemma unmoved_trans: "transp R \<Longrightarrow> unmoved R u v \<Longrightarrow> unmoved R v w \<Longrightarrow> unmoved R u w"
  by (auto simp: unmoved_def transp_def)

lemma still_bind [still_intros]: "transp R \<Longrightarrow> still R m \<Longrightarrow> (\<And>a. still R (f a)) \<Longrightarrow> still R (State_Monad.bind m f)"
  unfolding still_def by (intro allI wp_sequence) (auto elim: unmoved_trans)

lemma still_if [still_intros]: "still R m \<Longrightarrow> still R m' \<Longrightarrow> still R (if b then m else m')" by simp

lemma still_option [still_intros]:
  "still R m \<Longrightarrow> (\<And>a. still R (f a)) \<Longrightarrow> still R (case x of None \<Rightarrow> m | Some a \<Rightarrow> f a)"
  by (simp split: option.split)

lemma still_host [still_intros]: "(\<And>s. R s (snd (f s))) \<Longrightarrow> still R (on_host f)"
  by (simp add: still_def unmoved_def wp_simps on_host_def case_prod_beta)

lemma still_do [still_intros]: "(\<And>s. R s (f s)) \<Longrightarrow> still R (host_do f)"
  by (simp add: still_def unmoved_def wp_simps host_do_def)

lemma still_time [still_intros]: "reflp R \<Longrightarrow> still R (host_time h')"
  by (simp add: still_def unmoved_def wp_simps host_time_def reflp_def)

lemma quiet_calls:
  assumes "quiet h R"
  shows "R s (snd (ho_stat h p s))" "R s (snd (ho_glob h p s))" "R s (snd (ho_symlink h p s))" "R s (snd (ho_readlink h p s))"
    "R s (snd (ho_udev h p s))" "R s (snd (ho_lsblk h p s))" "R s (ho_settle h n s)" "R s (ho_rescan h p s)"
    "R s (snd (ho_statfs h p s))" "R s (snd (ho_blockdev h p s))" "R s (snd (ho_resize h d p s))"
    "reflp R" "transp R"
  using assms by (simp_all add: quiet_def)

lemma still_wp: "still R m \<Longrightarrow> (\<And>a w'. unmoved R w w' \<Longrightarrow> Q a w') \<Longrightarrow> wp m Q w"
  unfolding still_def by (blast intro: wp_mono)

end
