(* ===== verification/Node_Devices.thy ===== *)
theory Node_Devices
  imports Node_Host
begin

text \<open>
  Finding the device of a volume on the node (\<open>driver/node_device_resolver.go\<close> and the device names of
  \<open>driver/nodeserver.go\<close>): the cache of devices, the links under \<open>/dev/disk/by-id\<close>, the names a device may
  have, and the loop that lets the kernel look again until the device appears or the time is
  up.  The loop has fuel; \<open>resolve_device_returns\<close> shows how much is enough.
\<close>

section \<open>Serial numbers\<close>

definition after_equals :: "string \<Rightarrow> string" where
  "after_equals line = fst (snd (cut_on (CHR ''='') line))"

definition udev_line_matches :: "string \<Rightarrow> string \<Rightarrow> bool" where
  "udev_line_matches serial line \<longleftrightarrow>
     (has_prefix line ''ID_SERIAL='' \<or> has_prefix line ''ID_SERIAL_SHORT='') \<and> equal_fold (trim_space (after_equals line)) serial"

definition device_matches_serial :: "'s host \<Rightarrow> string \<Rightarrow> string \<Rightarrow> string \<Rightarrow> ('s, bool) node_op" where
  "device_matches_serial h device serial by_id =
     (let serial = trim_space serial
      in if serial = [] then State_Monad.return True else do {
        u \<leftarrow> on_host (ho_udev h device);
        if (case u of None \<Rightarrow> False | Some out \<Rightarrow> list_ex (udev_line_matches serial) (split_on (CHR 0x0A) out)) then State_Monad.return True else do {
          l \<leftarrow> on_host (ho_lsblk h device);
          if (case l of None \<Rightarrow> False | Some out \<Rightarrow> equal_fold (trim_space out) serial) then State_Monad.return True
          else if trim_space by_id \<noteq> [] \<and> contains_sub (to_lower (path_base by_id)) (to_lower serial) then State_Monad.return True
          else do {
            t \<leftarrow> on_host (ho_readlink h device);
            State_Monad.return (case t of None \<Rightarrow> False | Some target \<Rightarrow> contains_sub (to_lower target) (to_lower serial)) } } })"

section \<open>The cache\<close>

record resolver_config =
  rv_cache :: bool
  rv_ttl :: duration
  rv_settle :: duration
  rv_rescan :: bool

definition new_resolver :: "bool option \<Rightarrow> int option \<Rightarrow> int option \<Rightarrow> bool option \<Rightarrow> resolver_config" where
  "new_resolver cache ttl settle rescan =
     \<lparr>rv_cache = (case cache of None \<Rightarrow> True | Some b \<Rightarrow> b), rv_ttl = int64 (positive_default ttl 600 * second),
      rv_settle = int64 ((case settle of None \<Rightarrow> 10 | Some n \<Rightarrow> n) * second), rv_rescan = (case rescan of None \<Rightarrow> True | Some b \<Rightarrow> b)\<rparr>"

definition invalidate :: "string \<Rightarrow> ('s, unit) node_op" where
  "invalidate volume = (if trim_space volume = [] then State_Monad.return ()
     else State (\<lambda>w. ((), w\<lparr>nw_cache := (nw_cache w)(volume := None)\<rparr>)))"

definition remember :: "'s host \<Rightarrow> resolver_config \<Rightarrow> string \<Rightarrow> string \<Rightarrow> string \<Rightarrow> string \<Rightarrow> string \<Rightarrow> ('s, unit) node_op" where
  "remember h cfg volume img serial device by_id =
     (if \<not> rv_cache cfg \<or> trim_space volume = [] \<or> trim_space device = [] then State_Monad.return ()
      else State (\<lambda>w. ((), w\<lparr>nw_cache := (nw_cache w)(volume \<mapsto>
             \<lparr>ce_image = img, ce_serial = serial, ce_device = device, ce_by_id = by_id, ce_at = ho_now h (nw_out w)\<rparr>)\<rparr>)))"

definition drop_cached :: "string \<Rightarrow> ('s, string option) node_op" where
  "drop_cached volume = do { invalidate volume; State_Monad.return None }"

definition resolve_from_cache :: "'s host \<Rightarrow> resolver_config \<Rightarrow> string \<Rightarrow> string \<Rightarrow> ('s, string option) node_op" where
  "resolve_from_cache h cfg volume serial = (if \<not> rv_cache cfg \<or> trim_space volume = [] then State_Monad.return None else do {
     entry \<leftarrow> State (\<lambda>w. (nw_cache w volume, w));
     (case entry of
        None \<Rightarrow> State_Monad.return None
      | Some ce \<Rightarrow> do {
          now \<leftarrow> host_time h;
          if 0 < rv_ttl cfg \<and> rv_ttl cfg < now - ce_at ce then drop_cached volume
          else if serial \<noteq> [] \<and> ce_serial ce \<noteq> [] \<and> \<not> equal_fold (trim_space serial) (trim_space (ce_serial ce)) then drop_cached volume
          else if ce_device ce = [] then drop_cached volume
          else do {
            st \<leftarrow> on_host (ho_stat h (ce_device ce));
            if \<not> stat_ok st then drop_cached volume
            else do {
              ok \<leftarrow> (if serial \<noteq> [] then device_matches_serial h (ce_device ce) serial (ce_by_id ce) else State_Monad.return True);
              if ok then State_Monad.return (Some (ce_device ce)) else drop_cached volume } } }) })"

section \<open>Links and names\<close>

fun by_id_scan :: "'s host \<Rightarrow> string \<Rightarrow> string list \<Rightarrow> ('s, (string \<times> string) option) node_op" where
  "by_id_scan h serial [] = State_Monad.return None"
| "by_id_scan h serial (link # links) =
     (if \<not> contains_sub (to_lower (path_base link)) (to_lower serial) then by_id_scan h serial links else do {
        t \<leftarrow> on_host (ho_symlink h link);
        (case t of
           None \<Rightarrow> by_id_scan h serial links
         | Some device \<Rightarrow> do {
             st \<leftarrow> on_host (ho_stat h device);
             if \<not> stat_ok st then by_id_scan h serial links else do {
               ok \<leftarrow> device_matches_serial h device serial link;
               if ok then State_Monad.return (Some (device, link)) else by_id_scan h serial links } }) })"

definition resolve_by_id :: "'s host \<Rightarrow> string \<Rightarrow> ('s, (string \<times> string) option) node_op" where
  "resolve_by_id h serial = (if trim_space serial = [] then State_Monad.return None else do {
     links \<leftarrow> on_host (ho_glob h ''/dev/disk/by-id/*'');
     (case links of None \<Rightarrow> State_Monad.return None | Some ls \<Rightarrow> by_id_scan h serial ls) })"

definition get_device_name :: "string \<Rightarrow> string" where
  "get_device_name name = path_join ''/dev/'' name"

definition device_candidates :: "string \<Rightarrow> string list" where
  "device_candidates volume_name =
     (let b = path_base volume_name;
          names = (if has_prefix b ''sd'' then [b, ''vd'' @ trim_prefix b ''sd'', ''xvd'' @ trim_prefix b ''sd'']
                   else if has_prefix b ''vd'' then [b, ''sd'' @ trim_prefix b ''vd'', ''xvd'' @ trim_prefix b ''vd'']
                   else if has_prefix b ''xvd'' then [b, ''vd'' @ trim_prefix b ''xvd'', ''sd'' @ trim_prefix b ''xvd'']
                   else [b])
      in foldl (\<lambda>cs n. if get_device_name n \<in> set cs then cs else cs @ [get_device_name n]) [] names)"

fun alias_scan :: "'s host \<Rightarrow> string list \<Rightarrow> ('s, string option) node_op" where
  "alias_scan h [] = State_Monad.return None"
| "alias_scan h (c # cs) = do {
     st \<leftarrow> on_host (ho_stat h c);
     if stat_ok st then State_Monad.return (Some c) else alias_scan h cs }"

text \<open>How a device was found, and how long it took.\<close>

record resolution =
  re_device :: string
  re_by :: string
  re_latency :: duration

definition resolve_alias :: "'s host \<Rightarrow> string \<Rightarrow> ('s, (string \<times> string) option) node_op" where
  "resolve_alias h volume_name = do {
     c \<leftarrow> alias_scan h (device_candidates volume_name);
     State_Monad.return (map_option (\<lambda>d. (d, if d = path_join ''/dev/'' (path_base volume_name) then ''exact'' else ''alias'')) c) }"

section \<open>Recovery\<close>

fun rescan_all :: "'s host \<Rightarrow> string list \<Rightarrow> ('s, unit) node_op" where
  "rescan_all h [] = State_Monad.return ()"
| "rescan_all h (p # ps) = do { host_do (ho_rescan h p); rescan_all h ps }"

definition run_recovery :: "'s host \<Rightarrow> resolver_config \<Rightarrow> ('s, unit) node_op" where
  "run_recovery h cfg = do {
     (if 0 < rv_settle cfg then host_do (ho_settle h (max 1 (rv_settle cfg div second))) else State_Monad.return ());
     if \<not> rv_rescan cfg then State_Monad.return () else do {
       paths \<leftarrow> on_host (ho_glob h ''/sys/class/scsi_host/host*/scan'');
       (case paths of None \<Rightarrow> State_Monad.return () | Some ps \<Rightarrow> rescan_all h ps) } }"

definition found ::
  "'s host \<Rightarrow> resolver_config \<Rightarrow> string \<Rightarrow> string \<Rightarrow> string \<Rightarrow> go_time \<Rightarrow> string \<Rightarrow> string \<Rightarrow> string \<Rightarrow> ('s, resolution) node_op" where
  "found h cfg volume img serial started device by_id how = do {
     remember h cfg volume img serial device by_id;
     now \<leftarrow> host_time h;
     State_Monad.return \<lparr>re_device = device, re_by = how, re_latency = now - started\<rparr> }"

text \<open>One look at the links and the names; \<open>suffix\<close> tells a look after a recovery.\<close>

definition look ::
  "'s host \<Rightarrow> resolver_config \<Rightarrow> string \<Rightarrow> string \<Rightarrow> string \<Rightarrow> string \<Rightarrow> go_time \<Rightarrow> string \<Rightarrow> ('s, resolution option) node_op" where
  "look h cfg volume volume_name img serial started suffix = do {
     b \<leftarrow> (if serial \<noteq> [] then resolve_by_id h serial else State_Monad.return None);
     (case b of
        Some (device, link) \<Rightarrow> do { r \<leftarrow> found h cfg volume img serial started device link (''by-id'' @ suffix); State_Monad.return (Some r) }
      | None \<Rightarrow> do {
          a \<leftarrow> resolve_alias h volume_name;
          (case a of
             Some (device, how) \<Rightarrow> do { r \<leftarrow> found h cfg volume img serial started device [] (how @ suffix); State_Monad.return (Some r) }
           | None \<Rightarrow> State_Monad.return None) }) }"

fun device_loop ::
  "nat \<Rightarrow> 's host \<Rightarrow> resolver_config \<Rightarrow> string \<Rightarrow> string \<Rightarrow> string \<Rightarrow> string \<Rightarrow> go_time \<Rightarrow> duration \<Rightarrow> go_time \<Rightarrow> ('s, resolution option option) node_op" where
  "device_loop 0 h cfg volume volume_name img serial started timeout deadline = State_Monad.return None"
| "device_loop (Suc n) h cfg volume volume_name img serial started timeout deadline = do {
     now \<leftarrow> host_time h;
     if 0 < timeout \<and> deadline < now then State_Monad.return (Some None) else do {
       run_recovery h cfg;
       r \<leftarrow> look h cfg volume volume_name img serial started ''-recovery'';
       (case r of
          Some r \<Rightarrow> State_Monad.return (Some (Some r))
        | None \<Rightarrow>
            if timeout \<le> 0 then State_Monad.return (Some None)
            else do { host_do (ho_sleep h second); device_loop n h cfg volume volume_name img serial started timeout deadline }) } }"

definition timeout_message :: "string \<Rightarrow> string \<Rightarrow> duration \<Rightarrow> string" where
  "timeout_message volume_name serial timeout =
     ''timed out after '' @ duration_string timeout @ '' waiting for device path for volume '' @ [CHR 0x22] @ volume_name @ [CHR 0x22] @ '' ('' @
     (if serial \<noteq> [] then ''serial '' @ serial @ '', '' else []) @ ''checked '' @ join_with '', '' (device_candidates volume_name) @ '')''"

definition resolve_device ::
  "nat \<Rightarrow> 's host \<Rightarrow> resolver_config \<Rightarrow> string \<Rightarrow> string \<Rightarrow> str_map \<Rightarrow> duration \<Rightarrow> ('s, (string + resolution) option) node_op" where
  "resolve_device fuel h cfg volume volume_name ctx timeout = do {
     started \<leftarrow> host_time h;
     let serial = annotation ctx ''deviceSerial'';
     let img = annotation ctx ''opennebulaImageID'';
     c \<leftarrow> (if volume \<noteq> [] then resolve_from_cache h cfg volume serial else State_Monad.return None);
     (case c of
        Some device \<Rightarrow> do { now \<leftarrow> host_time h; State_Monad.return (Some (Inr \<lparr>re_device = device, re_by = ''cache'', re_latency = now - started\<rparr>)) }
      | None \<Rightarrow> do {
          r \<leftarrow> look h cfg volume volume_name img serial started [];
          (case r of
             Some r \<Rightarrow> State_Monad.return (Some (Inr r))
           | None \<Rightarrow> do {
               now \<leftarrow> host_time h;
               x \<leftarrow> device_loop fuel h cfg volume volume_name img serial started timeout (now + timeout);
               State_Monad.return (case x of
                   None \<Rightarrow> None
                 | Some None \<Rightarrow> Some (Inl (timeout_message volume_name serial timeout))
                 | Some (Some r) \<Rightarrow> Some (Inr r)) }) }) }"

section \<open>Looking is quiet\<close>

lemma still_matches:
  assumes "quiet h R" shows "still R (device_matches_serial h d serial by_id)"
  unfolding device_matches_serial_def Let_def by (intro still_intros quiet_calls [OF assms])

lemma still_by_id_scan:
  assumes "quiet h R" shows "still R (by_id_scan h serial links)"
proof (induction links)
  case (Cons link links)
  show ?case unfolding by_id_scan.simps by (intro still_intros quiet_calls [OF assms] still_matches [OF assms] Cons.IH)
qed (simp add: still_return quiet_calls [OF assms])

lemma still_alias_scan:
  assumes "quiet h R" shows "still R (alias_scan h cs)"
proof (induction cs)
  case (Cons c cs)
  show ?case unfolding alias_scan.simps by (intro still_intros quiet_calls [OF assms] Cons.IH)
qed (simp add: still_return quiet_calls [OF assms])

lemma still_rescan_all:
  assumes "quiet h R" shows "still R (rescan_all h ps)"
proof (induction ps)
  case (Cons p ps)
  show ?case unfolding rescan_all.simps by (intro still_intros quiet_calls [OF assms] Cons.IH)
qed (simp add: still_return quiet_calls [OF assms])

lemma still_probes:
  assumes "quiet h R"
  shows "still R (resolve_by_id h serial)" "still R (resolve_alias h name)" "still R (run_recovery h cfg)"
  unfolding resolve_by_id_def resolve_alias_def run_recovery_def
  by (intro still_intros quiet_calls [OF assms] still_by_id_scan [OF assms] still_alias_scan [OF assms] still_rescan_all [OF assms])+

text \<open>The cache changes only for the volume that is looked up.\<close>

definition cache_only :: "('s \<Rightarrow> 's \<Rightarrow> bool) \<Rightarrow> string \<Rightarrow> 's node_world \<Rightarrow> 's node_world \<Rightarrow> bool" where
  "cache_only R volume w w' \<longleftrightarrow> nw_sessions w' = nw_sessions w \<and> nw_tracker w' = nw_tracker w \<and> R (nw_out w) (nw_out w') \<and>
     (\<forall>v. v \<noteq> volume \<longrightarrow> nw_cache w' v = nw_cache w v)"

definition caches :: "('s \<Rightarrow> 's \<Rightarrow> bool) \<Rightarrow> string \<Rightarrow> ('s, 'a) node_op \<Rightarrow> bool" where
  "caches R volume m \<longleftrightarrow> (\<forall>w. wp m (\<lambda>_. cache_only R volume w) w)"

named_theorems caches_intros

lemma caches_still: "still R m \<Longrightarrow> caches R volume m"
  unfolding caches_def by (intro allI, erule still_wp) (simp add: cache_only_def unmoved_def)

lemma cache_only_trans: "transp R \<Longrightarrow> cache_only R volume u v \<Longrightarrow> cache_only R volume v w \<Longrightarrow> cache_only R volume u w"
  by (auto simp: cache_only_def transp_def)

lemma caches_bind [caches_intros]:
  "transp R \<Longrightarrow> caches R volume m \<Longrightarrow> (\<And>a. caches R volume (f a)) \<Longrightarrow> caches R volume (State_Monad.bind m f)"
  unfolding caches_def by (intro allI wp_sequence) (auto elim: cache_only_trans)

lemma caches_if [caches_intros]: "caches R volume m \<Longrightarrow> caches R volume m' \<Longrightarrow> caches R volume (if b then m else m')" by simp

lemma caches_option [caches_intros]:
  "caches R volume m \<Longrightarrow> (\<And>a. caches R volume (f a)) \<Longrightarrow> caches R volume (case x of None \<Rightarrow> m | Some a \<Rightarrow> f a)"
  by (simp split: option.split)

lemma caches_prod [caches_intros]: "(\<And>a b. caches R volume (f a b)) \<Longrightarrow> caches R volume (case x of (a, b) \<Rightarrow> f a b)"
  by (simp split: prod.split)

lemma caches_cache: "reflp R \<Longrightarrow> caches R volume (invalidate volume)" "reflp R \<Longrightarrow> caches R volume (remember h cfg volume img serial d b)"
  "reflp R \<Longrightarrow> caches R volume (State (\<lambda>w. (nw_cache w volume, w)))"
  unfolding caches_def cache_only_def invalidate_def remember_def
  by (auto simp: wp_simps reflp_def)

lemma caches_ops:
  assumes "quiet h R"
  shows "caches R volume (resolve_from_cache h cfg volume serial)" "caches R volume (look h cfg volume name img serial started suffix)"
  unfolding resolve_from_cache_def drop_cached_def look_def found_def
  by (intro caches_intros caches_cache quiet_calls [OF assms] still_probes [OF assms, THEN caches_still] still_matches [OF assms, THEN caches_still]
      still_intros [THEN caches_still])+

section \<open>The search ends\<close>

definition loop_fuel :: "int \<Rightarrow> nat" where
  "loop_fuel left = (if left < 0 then 1 else nat (left div second) + 2)"

lemma loop_fuel_step: "0 \<le> left \<Longrightarrow> left' \<le> left - second \<Longrightarrow> Suc (loop_fuel left') \<le> loop_fuel left"
proof -
  assume "0 \<le> left" "left' \<le> left - second"
  then have "left' div second \<le> (left - second) div second" by (intro zdiv_mono1) simp_all
  also have "\<dots> = left div second - 1" by simp
  finally show ?thesis using \<open>0 \<le> left\<close> unfolding loop_fuel_def by auto
qed

lemma caches_wp: "caches R volume m \<Longrightarrow> (\<And>a w'. cache_only R volume w w' \<Longrightarrow> Q a w') \<Longrightarrow> wp m Q w"
  unfolding caches_def by (blast intro: wp_mono)

lemma wp_host_time [wp_simps]: "wp (host_time h) Q w \<longleftrightarrow> Q (ho_now h (nw_out w)) w"
  by (simp add: host_time_def wp_simps)

lemma wp_host_do [wp_simps]: "wp (host_do f) Q w \<longleftrightarrow> Q () (w\<lparr>nw_out := f (nw_out w)\<rparr>)"
  by (simp add: host_do_def wp_simps)

lemma wp_bind_fun: "wp (State_Monad.bind m f) Q = wp m (\<lambda>a. wp (f a) Q)" by (rule ext) (simp add: wp_bind)

lemma device_loop_returns:
  assumes clock: "host_clock h" and n: "if 0 < timeout then loop_fuel (deadline - ho_now h (nw_out w)) \<le> n else 0 < n"
  shows "wp (device_loop n h cfg volume name img serial started timeout deadline) (\<lambda>r _. r \<noteq> None) w"
  using n
proof (induction n arbitrary: w)
  case 0
  then show ?case by (auto simp: loop_fuel_def split: if_splits)
next
  case (Suc n)
  let ?R = "\<lambda>s s'. ho_now h s \<le> ho_now h s'"
  note q = quiet_clock [OF clock]
  show ?case
  proof (cases "0 < timeout \<and> deadline < ho_now h (nw_out w)")
    case True
    then show ?thesis by (simp add: wp_simps)
  next
    case False
    have "wp (run_recovery h cfg) (\<lambda>_. wp (look h cfg volume name img serial started ''-recovery'') (\<lambda>r.
        wp (case r of Some r \<Rightarrow> State_Monad.return (Some (Some r)) | None \<Rightarrow>
            if timeout \<le> 0 then State_Monad.return (Some None)
            else do { host_do (ho_sleep h second); device_loop n h cfg volume name img serial started timeout deadline }) (\<lambda>r _. r \<noteq> None))) w"
    proof (rule still_wp [OF still_probes(3) [OF q]], rule caches_wp [OF caches_ops(2) [OF q]])
      fix w1 r w2
      assume "unmoved ?R w w1" "cache_only ?R volume w1 w2"
      then have w2: "ho_now h (nw_out w) \<le> ho_now h (nw_out w2)" by (auto simp: unmoved_def cache_only_def)
      have sleep: "ho_now h (nw_out w2) + second \<le> ho_now h (ho_sleep h second (nw_out w2))" using clock by (simp add: host_clock_def)
      have "wp (device_loop n h cfg volume name img serial started timeout deadline) (\<lambda>r _. r \<noteq> None) (w2\<lparr>nw_out := ho_sleep h second (nw_out w2)\<rparr>)"
        if "0 < timeout"
      proof (rule Suc.IH)
        show "if 0 < timeout then loop_fuel (deadline - ho_now h (nw_out (w2\<lparr>nw_out := ho_sleep h second (nw_out w2)\<rparr>))) \<le> n else 0 < n"
          using loop_fuel_step [of "deadline - ho_now h (nw_out w)" "deadline - ho_now h (ho_sleep h second (nw_out w2))"] Suc.prems that False w2 sleep
          by auto
      qed
      then show "wp (case r of Some r \<Rightarrow> State_Monad.return (Some (Some r)) | None \<Rightarrow>
            if timeout \<le> 0 then State_Monad.return (Some None)
            else do { host_do (ho_sleep h second); device_loop n h cfg volume name img serial started timeout deadline }) (\<lambda>r _. r \<noteq> None) w2"
        by (auto simp: wp_simps split: option.split)
    qed
    then show ?thesis using False by (simp only: device_loop.simps wp_bind_fun wp_host_time if_False False)
  qed
qed

lemma resolve_device_some:
  assumes clock: "host_clock h" and fuel: "nat (timeout div second) + 2 \<le> fuel"
  shows "wp (resolve_device fuel h cfg volume volume_name ctx timeout) (\<lambda>r _. r \<noteq> None) w"
proof -
  note q = quiet_clock [OF clock]
  have loop: "wp (device_loop fuel h cfg volume volume_name img serial started timeout (ho_now h (nw_out w1) + timeout)) (\<lambda>r _. r \<noteq> None) w1" for img serial started w1
    by (rule device_loop_returns [OF clock]) (use fuel in \<open>auto simp: loop_fuel_def\<close>)
  show ?thesis
    unfolding resolve_device_def Let_def
    by (intro wp_bindI wp_optionI wp_case_if wp_returnI wp_host_time [THEN iffD2] caches_wp [OF caches_ops(1) [OF q]]
        caches_wp [OF caches_ops(2) [OF q]] wp_mono [OF loop]) (auto split: option.split)
qed

text \<open>C29. \<open>Resolve\<close> always returns: when the host's clock moves on with every sleep, one round for each second
  of the timeout and two more are enough, whatever the host answers.\<close>

theorem resolve_device_returns:
  assumes "host_clock h" "nat (timeout div second) + 2 \<le> fuel"
  shows "fst (run_state (resolve_device fuel h cfg volume volume_name ctx timeout) w) \<noteq> None"
  using resolve_device_some [OF assms, of cfg volume volume_name ctx w] by (simp add: wp_def case_prod_beta)

section \<open>What the search finds\<close>

text \<open>That the host was seen to have a device, and that a device was found to carry a serial number.\<close>

definition seen_device :: "'s host \<Rightarrow> string \<Rightarrow> bool" where
  "seen_device h d \<longleftrightarrow> (\<exists>s. stat_ok (fst (ho_stat h d s)))"

definition serial_seen :: "'s host \<Rightarrow> string \<Rightarrow> string \<Rightarrow> bool" where
  "serial_seen h d serial \<longleftrightarrow> (\<exists>by_id w. fst (run_state (device_matches_serial h d serial by_id) w))"

lemma wp_stat:
  assumes "\<And>st w'. nw_cache w' = nw_cache w \<Longrightarrow> (stat_ok st \<Longrightarrow> seen_device h d) \<Longrightarrow> Q st w'"
  shows "wp (on_host (ho_stat h d)) Q w"
proof -
  have "Q (fst (ho_stat h d (nw_out w))) (w\<lparr>nw_out := snd (ho_stat h d (nw_out w))\<rparr>)"
    by (rule assms) (auto simp: seen_device_def)
  then show ?thesis by (simp add: on_host_def wp_simps case_prod_beta)
qed

lemma wp_matches:
  assumes "\<And>ok w'. nw_cache w' = nw_cache w \<Longrightarrow> (ok \<Longrightarrow> serial_seen h d serial) \<Longrightarrow> Q ok w'"
  shows "wp (device_matches_serial h d serial by_id) Q w"
proof -
  have "quiet h (\<lambda>s s'. True)" by (simp add: quiet_def reflp_def transp_def)
  from still_matches [OF this] have "wp (device_matches_serial h d serial by_id) (\<lambda>_. unmoved (\<lambda>s s'. True) w) w"
    unfolding still_def by blast
  then have "wp (device_matches_serial h d serial by_id) (\<lambda>ok w'. nw_cache w' = nw_cache w \<and> (ok \<longrightarrow> serial_seen h d serial)) w"
    unfolding serial_seen_def by (auto simp: wp_def unmoved_def split: prod.splits) (metis fst_conv)
  then show ?thesis by (rule wp_mono) (use assms in blast)
qed

lemma by_id_scan_wp:
  "wp (by_id_scan h serial links) (\<lambda>r w'. nw_cache w' = nw_cache w \<and> (\<forall>d l. r = Some (d, l) \<longrightarrow> seen_device h d \<and> serial_seen h d serial)) w"
proof (induction links arbitrary: w)
  case (Cons link links)
  have sym: "wp (on_host (ho_symlink h link)) Q w" if "\<And>t w'. nw_cache w' = nw_cache w \<Longrightarrow> Q t w'" for Q
    using that by (simp add: on_host_def wp_simps case_prod_beta)
  show ?case unfolding by_id_scan.simps
    by (intro wp_case_if wp_bindI sym wp_optionI wp_stat wp_matches wp_returnI wp_mono [OF Cons.IH]) auto
qed (simp add: wp_simps)

lemma alias_scan_wp:
  "wp (alias_scan h cs) (\<lambda>r w'. nw_cache w' = nw_cache w \<and> (\<forall>d. r = Some d \<longrightarrow> seen_device h d \<and> d \<in> set cs)) w"
proof (induction cs arbitrary: w)
  case (Cons c cs)
  show ?case unfolding alias_scan.simps by (intro wp_case_if wp_bindI wp_stat wp_returnI wp_mono [OF Cons.IH]) auto
qed (simp add: wp_simps)

text \<open>What a result means: where it came from, and what was checked.\<close>

definition resolution_ok :: "'s host \<Rightarrow> string \<Rightarrow> string \<Rightarrow> resolution \<Rightarrow> bool" where
  "resolution_ok h volume_name serial r \<longleftrightarrow> seen_device h (re_device r) \<and> re_by r \<noteq> ''cache'' \<and>
     (if has_prefix (re_by r) ''by-id'' then serial_seen h (re_device r) serial else re_device r \<in> set (device_candidates volume_name))"

definition remembered :: "resolver_config \<Rightarrow> string \<Rightarrow> string \<Rightarrow> 's node_world \<Rightarrow> bool" where
  "remembered cfg volume d w \<longleftrightarrow>
     (rv_cache cfg \<and> trim_space volume \<noteq> [] \<and> trim_space d \<noteq> [] \<longrightarrow> map_option ce_device (nw_cache w volume) = Some d)"

lemma found_wp:
  "wp (found h cfg volume img serial started d b how) (\<lambda>r w'. re_device r = d \<and> re_by r = how \<and> remembered cfg volume d w') w"
  unfolding found_def remember_def by (auto simp: wp_simps remembered_def)

lemma look_wp:
  "wp (look h cfg volume name img serial started suffix)
     (\<lambda>x w'. \<forall>r. x = Some r \<longrightarrow> resolution_ok h name serial r \<and> remembered cfg volume (re_device r) w') w"
proof -
  have glob: "wp (on_host (ho_glob h p)) Q w" if "\<And>t w'. Q t w'" for p Q and w :: "'a node_world"
    using that by (simp add: on_host_def wp_simps case_prod_beta)
  have how: "\<not> has_prefix (''exact'' @ suffix) ''by-id''" "\<not> has_prefix (''alias'' @ suffix) ''by-id''" "has_prefix (''by-id'' @ suffix) ''by-id''"
    "(if c then ''exact'' else ''alias'') @ suffix \<noteq> ''cache''" "''alias'' @ suffix \<noteq> ''cache''" "''by-id'' @ suffix \<noteq> ''cache''" for c by simp_all
  have found: "wp (found h cfg volume img sn started d b (how @ suffix)) (\<lambda>r. wp (State_Monad.return (Some r)) (\<lambda>x w'. \<forall>r. x = Some r \<longrightarrow>
      resolution_ok h name sn r \<and> remembered cfg volume (re_device r) w')) w1"
    if "seen_device h d" "how @ suffix \<noteq> ''cache''" "if has_prefix (how @ suffix) ''by-id'' then serial_seen h d sn else d \<in> set (device_candidates name)" for d b how w1 sn
    by (rule wp_mono [OF found_wp]) (use that in \<open>auto simp: wp_simps resolution_ok_def\<close>)
  show ?thesis
    unfolding look_def resolve_by_id_def resolve_alias_def
    by (intro wp_bindI wp_case_if wp_returnI wp_optionI glob wp_mono [OF by_id_scan_wp] wp_mono [OF alias_scan_wp])
      (auto simp: how wp_bind simp del: append_Cons append.simps intro!: found wp_bindI wp_returnI split: prod.split option.split)
qed

lemma device_loop_wp:
  "wp (device_loop n h cfg volume name img serial started timeout deadline)
     (\<lambda>x w'. \<forall>r. x = Some (Some r) \<longrightarrow> resolution_ok h name serial r \<and> remembered cfg volume (re_device r) w') w"
proof (induction n arbitrary: w)
  case (Suc n)
  have recovery: "wp (run_recovery h cfg) Q w1" if "\<And>a w'. Q a w'" for Q and w1 :: "'a node_world"
    using that by (simp add: wp_def split: prod.split)
  show ?case unfolding device_loop.simps
    by (intro wp_bindI wp_host_time [THEN iffD2] wp_host_do [THEN iffD2] wp_case_if wp_returnI wp_optionI recovery wp_mono [OF look_wp] wp_mono [OF Suc.IH]) auto
qed (simp add: wp_simps)

lemma resolve_from_cache_wp:
  "wp (resolve_from_cache h cfg volume serial)
     (\<lambda>x w'. \<forall>d. x = Some d \<longrightarrow> seen_device h d \<and> map_option ce_device (nw_cache w volume) = Some d \<and> nw_cache w' = nw_cache w \<and>
        (serial \<noteq> [] \<longrightarrow> serial_seen h d serial)) w"
proof -
  have drop: "wp (drop_cached volume) (\<lambda>x w'. x = None) w1" for w1 :: "'a node_world"
    by (simp add: drop_cached_def invalidate_def wp_simps)
  have entry: "wp (State (\<lambda>w. (nw_cache w volume, w))) Q w1" if "Q (nw_cache w1 volume) w1" for Q and w1 :: "'a node_world"
    using that by (simp add: wp_simps)
  show ?thesis unfolding resolve_from_cache_def
    by (intro wp_bindI entry wp_host_time [THEN iffD2] wp_case_if wp_returnI wp_optionI wp_stat wp_matches wp_mono [OF drop]) auto
qed

lemma caches_loop:
  assumes "quiet h R"
  shows "caches R volume (device_loop n h cfg volume name img serial started timeout deadline)"
proof (induction n)
  case (Suc n)
  have sleep: "R s (ho_sleep h second s)" for s using assms by (simp add: quiet_def)
  show ?case unfolding device_loop.simps
    by (intro caches_intros caches_ops [OF assms] quiet_calls [OF assms] still_probes [OF assms, THEN caches_still]
        still_intros [THEN caches_still] sleep Suc.IH)
qed (simp add: caches_still still_return quiet_calls [OF assms])

lemma caches_resolve:
  assumes "quiet h R" shows "caches R volume (resolve_device fuel h cfg volume name ctx timeout)"
  unfolding resolve_device_def Let_def
  by (intro caches_intros caches_ops [OF assms] caches_loop [OF assms] quiet_calls [OF assms] still_intros [THEN caches_still])

lemma resolve_device_wp:
  "wp (resolve_device fuel h cfg volume volume_name ctx timeout)
    (\<lambda>x w'. \<forall>r. x = Some (Inr r) \<longrightarrow> remembered cfg volume (re_device r) w' \<and>
       (resolution_ok h volume_name (annotation ctx ''deviceSerial'') r \<or> seen_device h (re_device r) \<and> re_by r = ''cache'' \<and>
          map_option ce_device (nw_cache w volume) = Some (re_device r) \<and>
          (annotation ctx ''deviceSerial'' \<noteq> [] \<longrightarrow> serial_seen h (re_device r) (annotation ctx ''deviceSerial'')))) w"
  unfolding resolve_device_def Let_def
  by (intro wp_bindI wp_host_time [THEN iffD2] wp_case_if wp_returnI wp_optionI wp_mono [OF resolve_from_cache_wp] wp_mono [OF look_wp] wp_mono [OF device_loop_wp])
    (auto simp: remembered_def split: option.splits)


section \<open>An example host\<close>

text \<open>A machine with one disk, \<open>/dev/vdb\<close>, and an empty mount table; the state counts nanoseconds.\<close>

definition sample_host :: "int host" where
  "sample_host = \<lparr>ho_now = (\<lambda>s. s), ho_sleep = (\<lambda>d s. s + d), ho_stat = (\<lambda>p s. (if p = ''/dev/vdb'' then IsDevice else NotExist ''no such file or directory'', s)),
     ho_glob = (\<lambda>p s. (Some [], s)), ho_symlink = (\<lambda>p s. (None, s)), ho_readlink = (\<lambda>p s. (None, s)), ho_udev = (\<lambda>p s. (None, s)),
     ho_lsblk = (\<lambda>p s. (None, s)), ho_settle = (\<lambda>n s. s + 1), ho_rescan = (\<lambda>p s. s), ho_list = (\<lambda>s. (Inr [], s)), ho_mkdir_all = (\<lambda>p s. (None, s)),
     ho_create = (\<lambda>p s. (None, s)), ho_format_mount = (\<lambda>d p f fl s. (Some ''busy'', s)), ho_mount = (\<lambda>d p f fl s. (Some ''busy'', s)),
     ho_cleanup = (\<lambda>p s. (None, s)), ho_statfs = (\<lambda>p s. (Inl (EIO, ''error''), s)), ho_blockdev = (\<lambda>p s. (Inr ''1024'', s)),
     ho_resize = (\<lambda>d p s. (Inr True, s)), ho_session_write = (\<lambda>s. (False, s)), ho_session_read = (\<lambda>s. (False, s)), ho_pod_exists = (\<lambda>p s. (False, s))\<rparr>"

definition sample_node :: "int node_world" where
  "sample_node = \<lparr>nw_cache = Map.empty, nw_sessions = Map.empty,
     nw_tracker = new_tracker \<lparr>ac_enabled = True, ac_min_samples = 8, ac_window = 20, ac_multiplier = 400, ac_max = minute\<rparr>, nw_out = 0\<rparr>"

definition sample_resolver :: resolver_config where "sample_resolver = new_resolver None None None None"

lemma sample_clock: "host_clock sample_host" by (simp add: host_clock_def sample_host_def)

theorem resolve_device_returns_witness:
  "fst (run_state (resolve_device 32 sample_host sample_resolver ''pvc'' ''sdc'' Map.empty (30 * second)) sample_node) \<noteq> None"
  by (rule resolve_device_returns [OF sample_clock]) simp


end
