(* ===== verification/Publish_Safety.thy ===== *)
theory Publish_Safety
  imports Handler_Calculus
begin

text \<open>
  What \<open>ControllerPublishVolume\<close> does to attachments and holds: when it attaches, what its answers
  rest on, and what its errors leave behind.
\<close>

section \<open>The parts of a publish\<close>

text \<open>\<open>reuseStickyAttachment\<close>: the call goes on only when the volume is held nowhere and has left the
  node it was held on.\<close>

lemma detach_old_node_wp:
  assumes "trim_space v \<noteq> []"
  shows "wp (detach_old_node e cfg v old node) (\<lambda>r w'. log_grows w w' \<and> \<not> attaches (news w w') \<and> WantedOn v old \<notin> set (news w w') \<and> other_holds_kept v w w' \<and>
     (case r of
        Continue \<Rightarrow> sticky_get v (w_sticky w') = None \<and> settled v old (news w w')
      | Answer (Inr m) \<Rightarrow> False
      | Answer (Inl x) \<Rightarrow> sticky_get v (w_sticky w') = sticky_get v (w_sticky w) \<or> sticky_get v (w_sticky w') = None \<and> settled v old (news w w'))) w"
  unfolding detach_old_node_def
  by (intro wp_rules) (auto simp: world_defs assms)

definition reuse_post :: "string \<Rightarrow> string \<Rightarrow> ('r, 's) driver_world \<Rightarrow> (csi_error + str_map) early \<Rightarrow> ('r, 's) driver_world \<Rightarrow> bool" where
  "reuse_post v n w r w' \<longleftrightarrow> log_grows w w' \<and> \<not> attaches (news w w') \<and> other_holds_kept v w w' \<and>
     (case r of
        Continue \<Rightarrow> sticky_get v (w_sticky w') = None \<and>
          (case sticky_get v (w_sticky w) of
             None \<Rightarrow> news w w' = []
           | Some st \<Rightarrow>
               if same_node (sa_node st) n then Observed v n None \<in> set (news w w')
               else settled v (sa_node st) (news w w') \<and> WantedOn v (sa_node st) \<notin> set (news w w'))
      | Answer (Inr m) \<Rightarrow> sticky_get v (w_sticky w') = None \<and>
          (\<exists>st. sticky_get v (w_sticky w) = Some st \<and> same_node (sa_node st) n) \<and> (\<exists>t. m ''volumeName'' = Some t \<and> Observed v n (Some t) \<in> set (news w w'))
      | Answer (Inl x) \<Rightarrow> sticky_get v (w_sticky w') = sticky_get v (w_sticky w) \<or>
          (\<exists>st. sticky_get v (w_sticky w) = Some st \<and> sticky_get v (w_sticky w') = None \<and>
             (settled v (sa_node st) (news w w') \<or> same_node (sa_node st) n)))"

lemma wp_detach_old_node:
  assumes "trim_space v \<noteq> []"
    and "\<And>r w' evs. w_log w' = w_log w @ evs \<Longrightarrow> \<not> attaches evs \<and> WantedOn v old \<notin> set evs \<Longrightarrow> other_holds_kept v w w' \<Longrightarrow>
     (case r of
        Continue \<Rightarrow> sticky_get v (w_sticky w') = None \<and> settled v old evs
      | Answer (Inr m) \<Rightarrow> False
      | Answer (Inl x) \<Rightarrow> sticky_get v (w_sticky w') = sticky_get v (w_sticky w) \<or> sticky_get v (w_sticky w') = None \<and> settled v old evs) \<Longrightarrow> Q r w'"
  shows "wp (detach_old_node e cfg v old node) Q w"
  by (rule wp_mono [OF detach_old_node_wp [OF assms(1)]]) (auto simp: log_grows_def intro: assms(2) [of _ "news w _"])

lemma reuse_sticky_wp:
  assumes "trim_space v \<noteq> []"
  shows "wp (reuse_sticky e cfg v n params i vm) (reuse_post v n w) w"
  unfolding reuse_sticky_def
  by (intro wp_rules wp_detach_old_node [OF assms])
     (auto simp: world_defs assms reuse_post_def split: if_splits early.splits sum.splits)

lemma wp_reuse_sticky:
  assumes "trim_space v \<noteq> []" and "\<And>r w'. reuse_post v n w r w' \<Longrightarrow> Q r w'"
  shows "wp (reuse_sticky e cfg v n params i vm) Q w"
  by (rule wp_mono [OF reuse_sticky_wp [OF assms(1)]]) (rule assms(2))

text \<open>Every attach in a history is of this volume to this node, comes after the volume was looked for
  and not found there, and, if the volume was held on another node, after it left that node.\<close>

definition attach_ready :: "string \<Rightarrow> string \<Rightarrow> sticky_state option \<Rightarrow> attach_event list \<Rightarrow> bool" where
  "attach_ready v n h xs \<longleftrightarrow> Observed v n None \<in> set xs \<and>
     (case h of None \<Rightarrow> True | Some st \<Rightarrow> same_node (sa_node st) n \<or> settled v (sa_node st) xs \<and> WantedOn v (sa_node st) \<notin> set xs)"

definition attach_guarded :: "string \<Rightarrow> string \<Rightarrow> sticky_state option \<Rightarrow> attach_event list \<Rightarrow> bool" where
  "attach_guarded v n h evs \<longleftrightarrow>
     (\<forall>xs u m ok ys. evs = xs @ AttachReply u m ok # ys \<longrightarrow> u = v \<and> m = n \<and> attach_ready v n h xs)"

lemma attach_guarded_none: "\<not> attaches evs \<Longrightarrow> attach_guarded v n h evs"
  by (auto simp: attach_guarded_def attaches_def)

lemma attach_guardedD:
  "attach_guarded v n h evs \<Longrightarrow> evs = xs @ AttachReply u m ok # ys \<Longrightarrow> u = v \<and> m = n \<and> attach_ready v n h xs"
  unfolding attach_guarded_def by blast

lemma attach_ready_Cons: "attach_ready v n h xs \<Longrightarrow> attach_ready v n h (Observed a b c # xs)"
  by (cases h) (auto simp: attach_ready_def settled_def)

lemma attach_guarded_Cons:
  assumes "attach_guarded v n h evs"
  shows "attach_guarded v n h (Observed a b c # evs)"
  unfolding attach_guarded_def
proof (intro allI impI)
  fix xs u m ok ys assume "Observed a b c # evs = xs @ AttachReply u m ok # ys"
  then obtain xs' where "xs = Observed a b c # xs'" "evs = xs' @ AttachReply u m ok # ys" by (cases xs) auto
  then show "u = v \<and> m = n \<and> attach_ready v n h xs"
    using attach_guardedD [OF assms, of xs' u m ok ys] attach_ready_Cons by blast
qed

lemma attach_guarded_single:
  assumes "\<not> attaches pre" "\<not> attaches post" "attach_ready v n h pre"
  shows "attach_guarded v n h (pre @ AttachReply v n b # post)"
proof -
  have "u = v \<and> m = n \<and> pre = xs" if "pre @ AttachReply v n b # post = xs @ AttachReply u m ok # ys" for xs u m ok ys
    using that assms(1,2)
  proof (induction pre arbitrary: xs)
    case Nil
    then show ?case by (cases xs) (auto simp: attaches_def)
  next
    case (Cons a pre)
    then show ?case by (cases xs) (auto simp: attaches_def)
  qed
  then show ?thesis using assms(3) unfolding attach_guarded_def by blast
qed


text \<open>What \<open>publish_body\<close> does to the world and answers; \<open>evs\<close> are its events.\<close>

definition hold_released :: "string \<Rightarrow> string \<Rightarrow> ('r, 's) driver_world \<Rightarrow> attach_event list \<Rightarrow> ('r, 's) driver_world \<Rightarrow> bool" where
  "hold_released v n w evs w' \<longleftrightarrow> sticky_get v (w_sticky w') = sticky_get v (w_sticky w) \<or>
     (\<exists>st. sticky_get v (w_sticky w) = Some st \<and> sticky_get v (w_sticky w') = None \<and> (settled v (sa_node st) evs \<or> same_node (sa_node st) n))"

definition lost_disk :: csi_error where "lost_disk = (InternalCode, ''failed to get volume in node'')"

definition publish_post ::
  "string \<Rightarrow> string \<Rightarrow> ('r, 's) driver_world \<Rightarrow> attach_event list \<Rightarrow> csi_error + str_map \<Rightarrow> ('r, 's) driver_world \<Rightarrow> bool" where
  "publish_post v n w evs r w' \<longleftrightarrow> w_log w' = w_log w @ evs \<and> other_holds_kept v w w' \<and> hold_released v n w evs w' \<and>
     attach_guarded v n (sticky_get v (w_sticky w)) evs \<and>
     (case r of
        Inr m \<Rightarrow> sticky_get v (w_sticky w') = None \<and> (\<exists>t. m ''volumeName'' = Some t \<and> Observed v n (Some t) \<in> set evs)
      | Inl x \<Rightarrow> AttachReply v n True \<in> set evs \<longrightarrow> last evs = Observed v n None \<and> x = lost_disk)"

lemma attach_failed_steady [steady_intros]: "steady (attach_failed e cfg req err)"
  unfolding attach_failed_def by (auto intro!: steady_intros split: option.splits)

lemma attach_new_wp:
  "wp (attach_new e cfg req i vm) (\<lambda>r w'. \<exists>evs. w_log w' = w_log w @ evs \<and> w_sticky w' = w_sticky w \<and>
     (evs = [] \<and> isl r \<or> evs = [AttachReply (pb_volume req) (pb_node req) False] \<and> isl r \<or>
      (\<exists>t. evs = [AttachReply (pb_volume req) (pb_node req) True, Observed (pb_volume req) (pb_node req) t] \<and>
        (case r of Inl x \<Rightarrow> t = None \<and> x = lost_disk | Inr m \<Rightarrow> t \<noteq> None \<and> m ''volumeName'' = t)))) w"
  unfolding attach_new_def
  by (intro wp_rules steady_wp [OF attach_failed_steady]) (auto simp: lost_disk_def)

lemma clear_reuse_state_wp [wp_rules]:
  "(\<And>w'. w_log w' = w_log w \<Longrightarrow> (\<And>u. sticky_get u (w_sticky w') =
      (if u = v \<and> trim_space v \<noteq> [] \<and> (case sticky_get v (w_sticky w) of None \<Rightarrow> False | Some st \<Rightarrow> same_node (sa_node st) n) then None
       else sticky_get u (w_sticky w))) \<Longrightarrow> Q () w') \<Longrightarrow>
   wp (clear_reuse_state e v n) Q w"
  unfolding clear_reuse_state_def by (intro wp_rules) auto


lemma reuse_continue:
  assumes "reuse_post v n w Continue w1"
  obtains pre where "w_log w1 = w_log w @ pre" "\<not> attaches pre" "attach_ready v n (sticky_get v (w_sticky w)) (pre @ [Observed v n None])"
    "sticky_get v (w_sticky w1) = None" "other_holds_kept v w w1"
    "case sticky_get v (w_sticky w) of None \<Rightarrow> True | Some st \<Rightarrow> settled v (sa_node st) pre \<or> same_node (sa_node st) n"
  using assms by (force simp: reuse_post_def log_grows_def attach_ready_def settled_def split: option.splits if_splits)

lemma reuse_answer:
  assumes "reuse_post v n w (Answer r) w'"
  shows "publish_post v n w (news w w') r w'"
  using assms unfolding reuse_post_def publish_post_def log_grows_def
  by (auto simp: hold_released_def attach_guarded_none attaches_def list_ex_iff split: sum.splits)

text \<open>The three ways on when the attachment is not reused: the volume is found on the node, the request
  is refused, or the volume is attached.\<close>

lemma post_found:
  assumes "reuse_post v n w Continue w1" "w_log w' = w_log w1 @ [Observed v n (Some t)]" "m ''volumeName'' = Some t"
    and "\<And>u. sticky_get u (w_sticky w') = sticky_get u (w_sticky w1)"
  shows "\<exists>evs. publish_post v n w evs (Inr m) w'"
proof -
  obtain pre where pre: "w_log w1 = w_log w @ pre" "\<not> attaches pre" "sticky_get v (w_sticky w1) = None" "other_holds_kept v w w1"
      "case sticky_get v (w_sticky w) of None \<Rightarrow> True | Some st \<Rightarrow> settled v (sa_node st) pre \<or> same_node (sa_node st) n"
    by (rule reuse_continue [OF assms(1)])
  then have "publish_post v n w (pre @ [Observed v n (Some t)]) (Inr m) w'"
    using assms(2-4)
    by (auto simp: publish_post_def hold_released_def other_holds_kept_def attaches_def settled_def intro!: attach_guarded_none split: option.splits)
  then show ?thesis ..
qed

lemma post_refused:
  assumes "reuse_post v n w Continue w1" "w_log w' = w_log w1 @ [Observed v n None]" "w_sticky w' = w_sticky w1"
  shows "\<exists>evs. publish_post v n w evs (Inl x) w'"
proof -
  obtain pre where pre: "w_log w1 = w_log w @ pre" "\<not> attaches pre" "sticky_get v (w_sticky w1) = None" "other_holds_kept v w w1"
      "case sticky_get v (w_sticky w) of None \<Rightarrow> True | Some st \<Rightarrow> settled v (sa_node st) pre \<or> same_node (sa_node st) n"
    by (rule reuse_continue [OF assms(1)])
  then have "publish_post v n w (pre @ [Observed v n None]) (Inl x) w'"
    using assms(2,3)
    by (auto simp: publish_post_def hold_released_def other_holds_kept_def attaches_def list_ex_iff settled_def
        intro!: attach_guarded_none split: option.splits)
  then show ?thesis ..
qed

lemma post_attached:
  assumes "reuse_post v n w Continue w1" "w_log w' = w_log w1 @ Observed v n None # AttachReply v n b # post" "w_sticky w' = w_sticky w1"
    and "b \<and> (\<exists>t. post = [Observed v n t] \<and> (case r of Inl x \<Rightarrow> t = None \<and> x = lost_disk | Inr m \<Rightarrow> t \<noteq> None \<and> m ''volumeName'' = t)) \<or> \<not> b \<and> post = [] \<and> isl r"
  shows "\<exists>evs. publish_post v n w evs r w'"
proof -
  obtain pre where pre: "w_log w1 = w_log w @ pre" "\<not> attaches pre" "attach_ready v n (sticky_get v (w_sticky w)) (pre @ [Observed v n None])"
      "sticky_get v (w_sticky w1) = None" "other_holds_kept v w w1"
      "case sticky_get v (w_sticky w) of None \<Rightarrow> True | Some st \<Rightarrow> settled v (sa_node st) pre \<or> same_node (sa_node st) n"
    by (rule reuse_continue [OF assms(1)])
  let ?evs = "(pre @ [Observed v n None]) @ AttachReply v n b # post"
  have "attach_guarded v n (sticky_get v (w_sticky w)) ?evs"
    by (rule attach_guarded_single) (use pre(2,3) assms(4) in \<open>auto simp: attaches_def\<close>)
  moreover have "AttachReply v n True \<notin> set pre" using pre(2) by (auto simp: attaches_def list_ex_iff)
  ultimately have "publish_post v n w ?evs r w'"
    using pre(1,4-6) assms(2-4)
    by (auto simp: publish_post_def hold_released_def other_holds_kept_def settled_def split: option.splits sum.splits)
  then show ?thesis ..
qed

lemma publish_body_wp:
  assumes v: "trim_space (pb_volume req) \<noteq> []"
  shows "wp (publish_body e cfg req i vm) (\<lambda>r w'. \<exists>evs. publish_post (pb_volume req) (pb_node req) w evs r w') w"
  unfolding publish_body_def publish_attached_def
  apply (intro wp_rules wp_reuse_sticky [OF v] wp_mono [OF attach_new_wp])
  subgoal for r w1 t w2 a w3 a' w4 r' w5
    by (elim exE conjE disjE)
       (auto intro: post_refused [where ?w1.0 = w1] post_attached [where ?w1.0 = w1 and b = False] post_attached [where ?w1.0 = w1 and b = True] simp: isl_def)
  subgoal by (rule post_refused) auto
  subgoal by (rule post_refused) auto
  subgoal for r w1 by (rule post_found [of _ _ _ w1]) (auto simp: reuse_post_def)
  subgoal by (metis reuse_answer)
  done

definition disk_post ::
  "('r, 's) environment \<Rightarrow> string \<Rightarrow> string \<Rightarrow> ('r, 's) driver_world \<Rightarrow> attach_event list \<Rightarrow> csi_error + str_map option \<Rightarrow> ('r, 's) driver_world \<Rightarrow> bool" where
  "disk_post e v n w evs r w' \<longleftrightarrow> w_log w' = w_log w @ evs \<and> other_holds_kept v w w' \<and> hold_released v n w evs w' \<and>
     attach_guarded v n (sticky_get v (w_sticky w)) evs \<and>
     (case r of
        Inr (Some m) \<Rightarrow> (\<exists>t. m ''volumeName'' = Some t \<and> Observed v n (Some t) \<in> set evs) \<and>
          (case sticky_get v (w_sticky w') of None \<Rightarrow> True | Some st \<Rightarrow> \<not> same_node (sa_node st) n)
      | Inr None \<Rightarrow> evs = [Observed v n None] \<and> (\<exists>prio. queue_skips e n ''attach'' v prio) \<and> sticky_get v (w_sticky w') = sticky_get v (w_sticky w)
      | Inl x \<Rightarrow> AttachReply v n True \<in> set evs \<longrightarrow>
          last evs = Observed v n None \<and> x = lost_disk \<or> (\<exists>q. x = hotplug_status (QueueFailed q)))"

lemma disk_post_queued:
  assumes "publish_post v n w1 evs r w2" "w_log w1 = w_log w @ [Observed v n None]" "w_sticky w1 = w_sticky w"
    "w_log w' = w_log w2" "w_sticky w' = w_sticky w2"
    and "case r of Inr m \<Rightarrow> r' = Inr (Some m) \<or> (\<exists>q. r' = Inl (hotplug_status (QueueFailed q)))
         | Inl x \<Rightarrow> r' = Inl x \<or> (\<exists>q. r' = Inl (hotplug_status (QueueFailed q)))"
  shows "disk_post e v n w (Observed v n None # evs) r' w'"
  using assms attach_guarded_Cons [of v n "sticky_get v (w_sticky w)" evs v n None]
  by (auto simp: disk_post_def publish_post_def hold_released_def other_holds_kept_def settled_def split: sum.splits)

lemma disk_post_refused:
  assumes "w_log w' = w_log w @ [Observed v n None]" "w_sticky w' = w_sticky w"
    "r = Inr None \<and> (\<exists>prio. queue_skips e n ''attach'' v prio) \<or> isl r"
  shows "\<exists>evs. disk_post e v n w evs r w'"
  using assms by (intro exI [of _ "[Observed v n None]"])
    (auto simp: disk_post_def hold_released_def other_holds_kept_def isl_def attaches_def intro!: attach_guarded_none)

lemma disk_post_found:
  assumes "w_log w' = w_log w @ [Observed v n (Some t)]" "m ''volumeName'' = Some t" "trim_space v \<noteq> []"
    and "\<And>u. sticky_get u (w_sticky w') =
      (if u = v \<and> trim_space v \<noteq> [] \<and> (case sticky_get v (w_sticky w) of None \<Rightarrow> False | Some st \<Rightarrow> same_node (sa_node st) n) then None
       else sticky_get u (w_sticky w))"
  shows "\<exists>evs. disk_post e v n w evs (Inr (Some m)) w'"
  using assms by (intro exI [of _ "[Observed v n (Some t)]"])
    (auto simp: disk_post_def hold_released_def other_holds_kept_def attaches_def intro!: attach_guarded_none split: option.splits)

lemma publish_disk_wp:
  assumes v: "trim_space (pb_volume req) \<noteq> []"
  shows "wp (publish_disk e cfg req i vm) (\<lambda>r w'. \<exists>evs. disk_post e (pb_volume req) (pb_node req) w evs r w') w"
  unfolding publish_disk_def publish_attached_def
  apply (intro wp_rules wp_with_queue [OF publish_body_wp [OF v]])
  subgoal by (rule disk_post_refused) auto
  subgoal by (rule disk_post_refused) auto
  subgoal for t w1 a w2 c w3 w4 r w5
    by (elim exE, intro conjI allI wp_rules) (auto intro!: exI disk_post_queued [where ?w1.0 = w4 and ?w2.0 = w5] split: sum.splits)
  subgoal by (rule disk_post_refused) auto
  subgoal by (rule disk_post_refused) auto
  subgoal by (rule disk_post_found [OF _ _ v]) auto
  done

lemma disk_post_world:
  assumes "w_log w1 = w_log w" "w_sticky w1 = w_sticky w" "disk_post e v n w1 evs r w'"
  shows "disk_post e v n w evs r w'"
  using assms(3) unfolding disk_post_def hold_released_def other_holds_kept_def assms(1,2) .

text \<open>The whole handler, for the volumes that are disks.\<close>

lemma controller_publish_wp:
  assumes v: "trim_space (pb_volume req) \<noteq> []" and disk: "\<not> is_shared_volume_id (pb_volume req)"
  shows "wp (controller_publish e cfg req) (\<lambda>r w'. (\<exists>evs. disk_post e (pb_volume req) (pb_node req) w evs r w') \<or>
     isl r \<and> w_log w' = w_log w \<and> w_sticky w' = w_sticky w) w"
  unfolding controller_publish_def using disk
  by (intro wp_rules) (auto intro!: wp_rules wp_mono [OF publish_disk_wp [OF v]] intro: disk_post_world)

section \<open>An example cluster\<close>

text \<open>One volume and two machines; the state says which machine the volume is attached to.\<close>

definition node_vm :: "int \<Rightarrow> int option \<Rightarrow> vm_info" where
  "node_vm i s = \<lparr>vm_id = i, vm_name = (if i = 3 then ''old'' else ''new''),
     vm_disks = (if s = Some i then [\<lparr>dk_image = Some 7, dk_id = Some ''2'', dk_target = Some ''sdb'', dk_serial = None, dk_size_mb = Some 2\<rparr>] else []),
     vm_context_disk = Some ''1'', vm_history = [\<lparr>hr_seq = 0, hr_ds = 1, hr_host = 1, hr_hostname = ''h''\<rparr>], vm_running = Some True, vm_error = None\<rparr>"

definition cluster_api :: "int option one_api" where
  "cluster_api = \<lparr>
     api_image_by_name = (\<lambda>name s. (if name = ''pvc'' then Inr 7 else Inl ''resource not found'', s)),
     api_image_info = (\<lambda>i s. (if i = 7 then Inr sample_image else Inl ''no such image'', s)),
     api_image_create = (\<lambda>r d s. (Inr 7, s)), api_image_clone = (\<lambda>i name d s. (Inr 7, s)), api_image_delete = (\<lambda>i s. (Inr (), s)),
     api_image_update = (\<lambda>i m s. (Inr (), s)), api_snapshot_create = (\<lambda>i n s. (Inr 4, s)), api_snapshot_delete = (\<lambda>i n s. (Inr (), s)),
     api_images = (\<lambda>s. (Inr [sample_image], s)), api_images_page = (\<lambda>a b s. (Inr [sample_image], s)),
     api_vm_by_name = (\<lambda>n s. (if n = ''old'' then Inr 3 else Inr 4, s)), api_vms = (\<lambda>s. (Inr [], s)),
     api_vm_info = (\<lambda>i s. (Inr (node_vm i s), s)),
     api_datastores = (\<lambda>s. (Inr [sample_schema 1 ''default'', sample_schema 100 ''csi''], s)),
     api_disk_attach = (\<lambda>v d s. (Inr (), Some v)), api_disk_detach = (\<lambda>v d s. (Inr (), None)), api_disk_resize = (\<lambda>v d m s. (Inr (), s)),
     api_now = (\<lambda>s. 1000), api_tick = (\<lambda>s. (False, s))\<rparr>"

definition cluster_kube :: "int option kube_api" where
  "cluster_kube = \<lparr>k_pvs = (\<lambda>s. (Inr [], s)), k_pv = (\<lambda>n s. (KubeNotFound, s)), k_pvc = (\<lambda>a b s. (Inl ''none'', s)), k_vas = (\<lambda>s. (Inr [], s)),
     k_pods = (\<lambda>n s. (Inr [], s)), k_node = (\<lambda>n s. (Inl ''none'', s)), k_delete_va = (\<lambda>n s. (KubeOk (), s)), k_patch_pv = (\<lambda>a b c s. (Inr (), s))\<rparr>"

definition cluster_env :: "(sticky_state, int option) environment" where
  "cluster_env = \<lparr>ev_api = cluster_api, ev_kube = cluster_kube, ev_shared_publish = None,
     ev_health = (\<lambda>n s. (\<lambda>_. \<lparr>nh_kube_ready = True, nh_kube_known = True, nh_one_ready = True, nh_one_known = True, nh_unschedulable = False,
        nh_kube_err = False, nh_one_err = False\<rparr>, s)),
     ev_pause = (\<lambda>n s. (None, s)), ev_write = (\<lambda>s. (Written, s)), ev_writes = (\<lambda>s. (\<lambda>_. Written, s)), ev_sticky_json = id,
     ev_volume_json = (\<lambda>_. []), ev_artifact_json = (\<lambda>_. []), ev_ceil = ceil_quotient, ev_percentile = int,
     ev_queue = (\<lambda>n op v p s. (Runs, s)), ev_diagnose = (\<lambda>n s. s), ev_policy = Disk_Operations.sample_policy, ev_fuel = 5\<rparr>"

definition cluster_settings :: settings where
  "cluster_settings = \<lparr>st_kube = True, st_queue = None, st_guard = \<lparr>gp_enabled = True, gp_threshold = 1, gp_require_kube = True, gp_require_one = True,
       gp_unschedulable = True\<rparr>, st_restart = None, st_require_ready = None, st_grace = None, st_grace_max = None, st_drift = None,
     st_drift_threshold = None, st_drift_ttl = None, st_artifact = Some False, st_artifact_threshold = None, st_artifact_ttl = None,
     st_discovery = None, st_release_min = None, st_release_max = None\<rparr>"

definition old_hold :: sticky_state where "old_hold = (sample_hold ''pvc'' 50)\<lparr>sa_node := ''old''\<rparr>"

text \<open>The volume is attached to and held on the node \<open>old\<close>.\<close>

definition cluster_world :: "(sticky_state, int option) driver_world" where
  "cluster_world = \<lparr>w_sticky = \<lparr>sm_enabled = True, sm_entries = [(''pvc'', old_hold)], sm_config = [(''pvc'', old_hold)]\<rparr>,
     w_vq = (Map.empty, Map.empty), w_aq = (Map.empty, Map.empty), w_aq_keys = [], w_guard = new_hotplug_guard minute, w_guard_log = [],
     w_tracker = new_tracker \<lparr>ac_enabled = True, ac_min_samples = 8, ac_window = 20, ac_multiplier = 400, ac_max = minute\<rparr>,
     w_maintenance = False, w_log = [], w_out = Some 3\<rparr>"

lemma cluster_log [simp]: "w_log cluster_world = []" by (simp add: cluster_world_def)

definition move_request :: publish_request where
  "move_request = \<lparr>pb_volume = ''pvc'', pb_node = ''new'', pb_capability = Some (Some SingleNodeWriter), pb_readonly = False, pb_context = []\<rparr>"

definition move_log :: "attach_event list" where
  "move_log = [Observed ''pvc'' ''new'' None, Observed ''pvc'' ''old'' (Some ''sdb''), DetachReply ''pvc'' ''old'' True,
     Observed ''pvc'' ''new'' None, AttachReply ''pvc'' ''new'' True, Observed ''pvc'' ''new'' (Some ''sdb'')]"

lemma move_run: "w_log (snd (run_state (controller_publish cluster_env cluster_settings move_request) cluster_world)) = move_log"
  by code_simp

section \<open>Properties of publish\<close>

lemma publish_disk_post:
  assumes "run_state (controller_publish e cfg req) w = (r, w')" "trim_space (pb_volume req) \<noteq> []" "\<not> is_shared_volume_id (pb_volume req)"
  shows "(\<exists>evs. disk_post e (pb_volume req) (pb_node req) w evs r w') \<or> isl r \<and> w_log w' = w_log w \<and> w_sticky w' = w_sticky w"
  using wp_run [OF controller_publish_wp [OF assms(2,3)] assms(1)] .







text \<open>The machine refuses to detach the disk.\<close>

definition refusing_env :: "(sticky_state, int option) environment" where
  "refusing_env = cluster_env\<lparr>ev_api := cluster_api\<lparr>api_disk_detach := (\<lambda>v d s. (Inl ''refused'', s))\<rparr>\<rparr>"


end
