(* ===== verification/Detach_Safety.thy ===== *)
theory Detach_Safety
  imports Publish_Safety
begin

text \<open>
  What \<open>ControllerUnpublishVolume\<close> and the reaper of expired holds do: a success of the first is
  accounted for, and the second gives no hold up without a reason.
\<close>

section \<open>Lemmas on unpublish\<close>

text \<open>Why an unpublish of a disk from a node that exists may report success.\<close>

definition unpublish_reason ::
  "('r, 's) environment \<Rightarrow> string \<Rightarrow> string \<Rightarrow> attach_event list \<Rightarrow> ('r, 's) driver_world \<Rightarrow> bool" where
  "unpublish_reason e v n evs w' \<longleftrightarrow> settled v n evs \<or>
     (\<exists>t. Observed v n (Some t) \<in> set evs \<and>
        ((\<exists>st. sticky_get v (w_sticky w') = Some st \<and> sa_node st = n) \<or> WantedOn v n \<in> set evs \<or> queue_skips e n ''detach'' v priority_normal))"

definition unpublish_post ::
  "('r, 's) environment \<Rightarrow> string \<Rightarrow> string \<Rightarrow> ('r, 's) driver_world \<Rightarrow> csi_error + unit \<Rightarrow> ('r, 's) driver_world \<Rightarrow> bool" where
  "unpublish_post e v n w r w' \<longleftrightarrow> log_grows w w' \<and> \<not> attaches (news w w') \<and> other_holds_kept v w w' \<and>
     (r = Inr () \<longrightarrow> unpublish_reason e v n (news w w') w')"

lemma steady_should_delay: "wp (should_delay_detach e cfg v n) (\<lambda>h w'. w_log w' = w_log w \<and> w_sticky w' = w_sticky w \<and>
    (\<forall>st. h = Some st \<longrightarrow> sa_volume st = v \<and> sa_node st = n)) w"
proof -
  have "wp (should_delay_detach e cfg v n) (\<lambda>h _. \<forall>st. h = Some st \<longrightarrow> sa_volume st = v \<and> sa_node st = n) w"
    unfolding should_delay_detach_def by (intro wp_rules) (auto simp: hold_state_def)
  from wp_conj [OF steadyD [OF steady_rejections(6)] this] show ?thesis by (rule wp_mono) auto
qed

lemma steady_observe_detach: "steady (observe_detach e v started)"
  unfolding observe_detach_def by (intro steady_intros)

lemma detach_now_wp:
  "(\<And>r w'. w_log w' = w_log w @ [DetachReply v n (r = Inr ())] \<Longrightarrow> w_sticky w' = w_sticky w \<Longrightarrow> Q r w') \<Longrightarrow> wp (detach_now e cfg v n) Q w"
  unfolding detach_now_def by (intro wp_rules steady_wp [OF steady_observe_detach]) auto

lemma unpublish_body_wp: 
  assumes "trim_space v \<noteq> []"
  shows "wp (unpublish_body e cfg v n i vm) (\<lambda>r w'. log_grows w w' \<and> \<not> attaches (news w w') \<and> other_holds_kept v w w' \<and>
     (r = Inr () \<longrightarrow> settled v n (news w w') \<or>
        (\<exists>t. Observed v n (Some t) \<in> set (news w w')) \<and> (\<exists>st. sticky_get v (w_sticky w') = Some st \<and> sa_node st = n))) w"
  unfolding unpublish_body_def
  by (intro wp_rules wp_mono [OF steady_should_delay] detach_now_wp) (auto simp: world_defs assms)


lemma unpublish_body_evs:
  assumes "trim_space v \<noteq> []"
  shows "wp (unpublish_body e cfg v n i vm) (\<lambda>r w'. \<exists>evs. w_log w' = w_log w @ evs \<and> \<not> attaches evs \<and> other_holds_kept v w w' \<and>
     (r = Inr () \<longrightarrow> settled v n evs \<or>
        (\<exists>t. Observed v n (Some t) \<in> set evs) \<and> (\<exists>st. sticky_get v (w_sticky w') = Some st \<and> sa_node st = n))) w"
  by (rule wp_mono [OF unpublish_body_wp [OF assms]]) (auto simp: log_grows_def)

lemma rescue_wp:
  assumes "trim_space v \<noteq> []"
  shows "wp (rescue_same_node e cfg v n i vm) (\<lambda>r w'. log_grows w w' \<and> \<not> attaches (news w w') \<and> other_holds_kept v w w' \<and>
     (case r of
        Continue \<Rightarrow> w_sticky w' = w_sticky w
      | Answer x \<Rightarrow> x = Inr () \<longrightarrow> WantedOn v n \<in> set (news w w') \<and> (\<exists>t. Observed v n (Some t) \<in> set (news w w')))) w"
  unfolding rescue_same_node_def by (intro wp_rules) (auto simp: world_defs assms)

lemma wp_rescue:
  assumes "trim_space v \<noteq> []"
    and "\<And>r w' evs. w_log w' = w_log w @ evs \<Longrightarrow> \<not> attaches evs \<Longrightarrow> other_holds_kept v w w' \<Longrightarrow>
     (case r of
        Continue \<Rightarrow> w_sticky w' = w_sticky w
      | Answer x \<Rightarrow> x = Inr () \<longrightarrow> WantedOn v n \<in> set evs \<and> (\<exists>t. Observed v n (Some t) \<in> set evs)) \<Longrightarrow> Q r w'"
  shows "wp (rescue_same_node e cfg v n i vm) Q w"
  by (rule wp_mono [OF rescue_wp [OF assms(1)]]) (auto simp: log_grows_def intro: assms(2) [of _ "news w _"])

lemma maintenance_hold_wp:
  assumes "trim_space v \<noteq> []"
  shows "wp (maintenance_hold e cfg v n) (\<lambda>r w'. w_log w' = w_log w \<and> other_holds_kept v w w' \<and>
     (case r of
        Continue \<Rightarrow> w_sticky w' = w_sticky w
      | Answer x \<Rightarrow> x = Inr () \<longrightarrow> (\<exists>st. sticky_get v (w_sticky w') = Some st \<and> sa_node st = n))) w"
  unfolding maintenance_hold_def by (intro wp_rules) (auto simp: world_defs assms hold_state_def)

lemma unpublish_disk_wp:
  assumes v: "trim_space v \<noteq> []"
  shows "wp (unpublish_disk e cfg v n i vm) (unpublish_post e v n w) w"
  unfolding unpublish_disk_def
  apply (intro wp_rules wp_rescue [OF v] wp_mono [OF maintenance_hold_wp [OF v]] wp_with_queue [OF unpublish_body_evs [OF v]])
  apply (auto simp: unpublish_post_def unpublish_reason_def world_defs intro!: wp_rules split: sum.splits) 
  done

section \<open>Lemmas on the expiry of holds\<close>

lemma sticky_get_updated:
  "sticky_get u (snd (sticky_update encode wo st m)) = (if u = sa_volume st \<and> \<not> fst (sticky_update encode wo st m) then Some st else sticky_get u m)"
  by (auto simp: sticky_update_def sticky_get_def persist_entry_def put_entry_def drop_entry_def Let_def update_conv' delete_conv' split: option.splits)

lemma wp_update_hold [wp_rules]:
  "(\<And>err w'. w_log w' = w_log w \<Longrightarrow> w_maintenance w' = w_maintenance w \<Longrightarrow>
      (\<And>u. sticky_get u (w_sticky w') = (if u = sa_volume st \<and> \<not> err then Some st else sticky_get u (w_sticky w))) \<Longrightarrow> Q err w')
   \<Longrightarrow> wp (update_hold e st) Q w"
  unfolding update_hold_def by (rule wp_with_sticky) (simp add: sticky_get_updated)

lemma wp_expired_hold [wp_rules]:
  "Q None w \<Longrightarrow> (\<And>st. sticky_get v (w_sticky w) = Some st \<Longrightarrow> sa_expires_at st \<le> api_now (ev_api e) (w_out w) \<Longrightarrow> Q (Some st) w) \<Longrightarrow>
   wp (expired_hold e v) Q w"
  unfolding expired_hold_def by (auto simp: wp_simps time_now_def not_less split: option.splits if_splits)

lemma wp_look_up [wp_rules]:
  "(\<And>t w'. w_sticky w' = w_sticky w \<Longrightarrow> w_maintenance w' = w_maintenance w \<Longrightarrow>
      (case t of None \<Rightarrow> w_log w' = w_log w | Some x \<Rightarrow> w_log w' = w_log w @ [Observed v n x]) \<Longrightarrow> Q t w') \<Longrightarrow> wp (look_up e v n) Q w"
  unfolding look_up_def by (intro wp_rules) (auto intro!: wp_rules split: option.split)

text \<open>The entries are stored under their volumes.\<close>

definition keyed :: "'r sticky_manager \<Rightarrow> bool" where
  "keyed m \<longleftrightarrow> (\<forall>v st. sticky_get v m = Some st \<longrightarrow> sa_volume st = v \<and> trim_space v \<noteq> [])"

text \<open>How a hold may change when it expires: it is put off, or given up for a reason that was seen.\<close>

definition hold_gone :: "string \<Rightarrow> string \<Rightarrow> attach_event list \<Rightarrow> bool" where
  "hold_gone v n evs \<longleftrightarrow> settled v n evs \<or> WantedOn v n \<in> set evs \<and> (\<exists>t. Observed v n (Some t) \<in> set evs)"

definition hold_change :: "attach_event list \<Rightarrow> sticky_state option \<Rightarrow> sticky_state option \<Rightarrow> bool" where
  "hold_change evs h h' \<longleftrightarrow> h' = h \<or>
     (\<exists>st. h = Some st \<and> (h' = None \<and> hold_gone (sa_volume st) (sa_node st) evs \<or> (\<exists>d. h' = Some (st\<lparr>sa_expires_at := d\<rparr>))))"

definition expiry_post :: "string \<Rightarrow> ('r, 's) driver_world \<Rightarrow> ('r, 's) driver_world \<Rightarrow> bool" where
  "expiry_post v w w' \<longleftrightarrow> keyed (w_sticky w') \<and> w_maintenance w' = w_maintenance w \<and> other_holds_kept v w w' \<and>
     (\<exists>evs. w_log w' = w_log w @ evs \<and> \<not> attaches evs \<and> hold_change evs (sticky_get v (w_sticky w)) (sticky_get v (w_sticky w')))"

lemmas expiry_defs = expiry_post_def other_holds_kept_def hold_change_def hold_gone_def settled_def attaches_def keyed_def

lemma expire_body_wp:
  assumes "keyed (w_sticky w)"
  shows "wp (expire_body e cfg v) (\<lambda>_. expiry_post v w) w"
  unfolding expire_body_def expire_absent_def expire_detach_def defer_sticky_def
  by (intro wp_rules steady_wp [OF steady_observe_detach])
     (use assms in \<open>auto simp: expiry_defs split: option.splits if_splits\<close>)

lemma expiry_post_refl: "keyed (w_sticky w') \<Longrightarrow> w_log w' = w_log w \<Longrightarrow> w_sticky w' = w_sticky w \<Longrightarrow> w_maintenance w' = w_maintenance w \<Longrightarrow> expiry_post v w w'"
  by (simp add: expiry_defs)

lemma expiry_post_world:
  assumes "w_log w1 = w_log w" "w_sticky w1 = w_sticky w" "w_maintenance w1 = w_maintenance w" "expiry_post v w1 w'"
  shows "expiry_post v w w'"
  using assms(4) unfolding expiry_post_def other_holds_kept_def assms(1-3) .

lemma expire_now_wp:
  assumes keyed: "keyed (w_sticky w)" and h: "sticky_get v (w_sticky w) = Some h"
  shows "wp (expire_now e cfg h) (\<lambda>_. expiry_post v w) w"
proof -
  have volume: "sa_volume h = v" using keyed h by (simp add: keyed_def)
  have body: "wp (expire_body e cfg (sa_volume h)) (\<lambda>_. expiry_post v w1) w1" if "w_sticky w1 = w_sticky w" for w1
    unfolding volume by (rule expire_body_wp) (simp add: that keyed)
  show ?thesis
    unfolding expire_now_def defer_sticky_def
    apply (intro wp_rules wp_with_queue [where P = "\<lambda>w1 _. expiry_post v w1"] body)
    subgoal using keyed h volume by (auto simp: expiry_defs split: if_splits)
    subgoal by simp
    subgoal by (auto simp: wp_return intro: expiry_post_world)
    subgoal using keyed by (simp add: expiry_post_refl)
    done
qed

lemma expire_sticky_wp:
  assumes "keyed (w_sticky w)"
  shows "wp (expire_sticky e cfg st) (\<lambda>_. expiry_post (sa_volume st) w) w"
  unfolding expire_sticky_def
  by (rule wp_bindI, rule wp_expired_hold) (simp_all add: wp_return expiry_post_refl expire_now_wp assms)

lemma hold_change_refl: "hold_change evs h h"
  by (simp add: hold_change_def)

lemma hold_gone_append: "hold_gone v n xs \<Longrightarrow> hold_gone v n (xs @ ys)" "hold_gone v n ys \<Longrightarrow> hold_gone v n (xs @ ys)"
  by (auto simp: hold_gone_def settled_def)

lemma hold_change_append: "hold_change xs h h' \<Longrightarrow> hold_change (xs @ ys) h h'" "hold_change ys h h' \<Longrightarrow> hold_change (xs @ ys) h h'"
  unfolding hold_change_def using hold_gone_append by blast+

lemma hold_change_trans:
  assumes "hold_change xs h h'" "hold_change ys h' h''"
  shows "hold_change (xs @ ys) h h''"
proof (cases "h' = h \<or> h' = None")
  case True
  then have "h' = h \<or> h'' = h'" using assms(2) by (auto simp: hold_change_def)
  then show ?thesis using assms hold_change_append by blast
next
  case False
  then obtain st d where st: "h = Some st" "h' = Some (st\<lparr>sa_expires_at := d\<rparr>)" using assms(1) by (auto simp: hold_change_def)
  then have "h'' = h' \<or> h'' = None \<and> hold_gone (sa_volume st) (sa_node st) ys \<or> (\<exists>d. h'' = Some (st\<lparr>sa_expires_at := d\<rparr>))"
    using assms(2) by (auto simp: hold_change_def)
  then show ?thesis using st hold_gone_append(2) unfolding hold_change_def by blast
qed

text \<open>A whole round: holds outside the list, and maintenance holds while the mode is on, stay.\<close>

definition round_post :: "string set \<Rightarrow> ('r, 's) driver_world \<Rightarrow> ('r, 's) driver_world \<Rightarrow> bool" where
  "round_post vs w w' \<longleftrightarrow> keyed (w_sticky w') \<and> w_maintenance w' = w_maintenance w \<and>
     (\<forall>v. v \<notin> vs \<longrightarrow> sticky_get v (w_sticky w') = sticky_get v (w_sticky w)) \<and>
     (\<exists>evs. w_log w' = w_log w @ evs \<and> \<not> attaches evs \<and> (\<forall>v. hold_change evs (sticky_get v (w_sticky w)) (sticky_get v (w_sticky w'))))"

lemma round_post_trans:
  assumes "round_post vs w w1" "round_post vs' w1 w2" "vs \<subseteq> us" "vs' \<subseteq> us"
  shows "round_post us w w2"
proof -
  obtain xs where xs: "w_log w1 = w_log w @ xs" "\<not> attaches xs" "\<And>v. hold_change xs (sticky_get v (w_sticky w)) (sticky_get v (w_sticky w1))"
    using assms(1) unfolding round_post_def by blast
  obtain ys where ys: "w_log w2 = w_log w1 @ ys" "\<not> attaches ys" "\<And>v. hold_change ys (sticky_get v (w_sticky w1)) (sticky_get v (w_sticky w2))"
    using assms(2) unfolding round_post_def by blast
  have "w_log w2 = w_log w @ xs @ ys" "\<not> attaches (xs @ ys)" using xs(1,2) ys(1,2) by (simp_all add: attaches_def)
  moreover have "hold_change (xs @ ys) (sticky_get v (w_sticky w)) (sticky_get v (w_sticky w2))" for v
    by (rule hold_change_trans [OF xs(3) ys(3)])
  moreover have "sticky_get v (w_sticky w2) = sticky_get v (w_sticky w)" if "v \<notin> us" for v
    using that assms unfolding round_post_def by (metis subsetD)
  ultimately show ?thesis using assms(1,2) unfolding round_post_def by metis
qed

lemma expiry_round:
  assumes "expiry_post v w w'"
  shows "round_post {v} w w'"
proof -
  obtain evs where evs: "w_log w' = w_log w @ evs" "\<not> attaches evs" "hold_change evs (sticky_get v (w_sticky w)) (sticky_get v (w_sticky w'))"
    using assms unfolding expiry_post_def by blast
  have "hold_change evs (sticky_get u (w_sticky w)) (sticky_get u (w_sticky w'))" for u
    using evs(3) assms hold_change_refl [of evs] unfolding expiry_post_def other_holds_kept_def by (cases "u = v") auto
  then show ?thesis using evs assms unfolding round_post_def expiry_post_def other_holds_kept_def by blast
qed

definition due_volumes :: "bool \<Rightarrow> sticky_state list \<Rightarrow> string set" where
  "due_volumes on sts = sa_volume ` set (filter (\<lambda>st. \<not> (sa_reason st = sticky_reason \<and> on)) sts)"

lemma wp_maintenance_on [wp_rules]: "Q (w_maintenance w) w \<Longrightarrow> wp maintenance_on Q w"
  by (simp add: maintenance_on_def wp_simps)

lemma expire_all_wp:
  "keyed (w_sticky w) \<Longrightarrow> wp (expire_all e cfg sts) (\<lambda>_. round_post (due_volumes (w_maintenance w) sts) w) w"
proof (induction sts arbitrary: w)
  case Nil
  then show ?case by (simp add: wp_simps round_post_def hold_change_def attaches_def)
next
  case (Cons st sts)
  let ?due = "due_volumes (w_maintenance w)"
  have first: "wp (if sa_reason st = sticky_reason \<and> w_maintenance w then State_Monad.return () else expire_sticky e cfg st)
      (\<lambda>_. round_post (?due [st]) w) w"
  proof (cases "sa_reason st = sticky_reason \<and> w_maintenance w")
    case True
    then show ?thesis using Cons.prems by (simp add: wp_simps round_post_def hold_change_def attaches_def)
  next
    case False
    then show ?thesis using expire_sticky_wp [OF Cons.prems, of e cfg st]
      by (auto simp: due_volumes_def intro: wp_mono expiry_round)
  qed
  have rest: "wp (expire_all e cfg sts) (\<lambda>_. round_post (?due (st # sts)) w) w1" if "round_post (?due [st]) w w1" for w1
  proof -
    have keyed: "keyed (w_sticky w1)" and mode: "w_maintenance w1 = w_maintenance w" using that by (auto simp: round_post_def)
    have "?due [st] \<subseteq> ?due (st # sts)" "?due sts \<subseteq> ?due (st # sts)" by (auto simp: due_volumes_def)
    then show ?thesis by (intro wp_mono [OF Cons.IH [OF keyed]]) (rule round_post_trans [OF that], simp only: mode)
  qed
  show ?case unfolding expire_all.simps by (intro wp_bindI wp_maintenance_on wp_mono [OF first] rest)
qed

section \<open>Properties\<close>

lemma wp_outside_eq: "wp (outside f) Q w \<longleftrightarrow> (case f (w_out w) of (a, s) \<Rightarrow> Q a (w\<lparr>w_out := s\<rparr>))"
  by (simp add: outside_def wp_simps split: prod.splits)

lemma news_out [simp]: "news (w\<lparr>w_out := s\<rparr>) w' = news w w'" by (simp add: news_def)


text \<open>The volume is only held, not detached, when it is unpublished from its node while the cluster is in
  maintenance and knows the volume as a local disk with a single writer.\<close>

definition local_pv :: persistent_volume where
  "local_pv = \<lparr>pv_name = ''pv-1'', pv_annotations = [annotation_backend \<mapsto> ''local'', annotation_last_attached_node \<mapsto> ''old''],
     pv_access = [ReadWriteOnce], pv_driver = default_driver_name, pv_handle = Some ''pvc'', pv_claim = None, pv_deleting = False, pv_phase = ''Bound''\<rparr>"

definition maintenance_env :: "(sticky_state, int option) environment" where
  "maintenance_env = cluster_env\<lparr>ev_kube := cluster_kube\<lparr>k_pvs := (\<lambda>s. (Inr [local_pv], s))\<rparr>\<rparr>"

definition maintenance_run :: "(csi_error + unit) \<times> (sticky_state, int option) driver_world" where
  "maintenance_run = run_state (controller_unpublish maintenance_env cluster_settings ''pvc'' ''old'') (cluster_world\<lparr>w_maintenance := True\<rparr>)"


lemma keyed_of_inv: "sticky_inv exact encode m \<Longrightarrow> keyed m"
  using holds_of_inv(1) unfolding sticky_inv_def keyed_def sticky_get_def config_ok_def by (metis option.exhaust)

lemma inv_entry: "sticky_inv exact encode m \<Longrightarrow> (k, st) \<in> set (sm_entries m) \<Longrightarrow> sticky_get (sa_volume st) m = Some st"
  by (auto simp: sticky_inv_def sticky_get_def dest: map_of_is_SomeI)


definition reaped :: "(sticky_state, int option) driver_world" where
  "reaped = snd (run_state (reaper_tick cluster_env cluster_settings True) cluster_world)"


end
