(* ===== verification/Device_Recovery.thy ===== *)
theory Device_Recovery
  imports Detach_Safety Config_Store
begin

text \<open>
  Recovery of local devices that a node does not find (\<open>driver/local_device_recovery.go\<close>).  A node that
  cannot find or mount the device of a local volume writes a report into a ConfigMap; the
  leading controller goes through the reports and, when the cluster still wants the volume on
  that node and the node is healthy, detaches the disk and attaches it again to the same
  node.

  Reports are written by read, modify and write with retry on conflict, so this theory has
  another instance of the contract of \<open>Config_Store\<close>.  The encoding of a report, the API server
  and what other clients write in between are parameters.
\<close>

section \<open>Reports\<close>

record device_report =
  dr_node :: string
  dr_volume :: string
  dr_volume_name :: string
  dr_class :: string
  dr_device :: string
  dr_serial :: string
  dr_image :: string
  dr_fs :: string
  dr_resolved_by :: string
  dr_pvc_namespace :: string
  dr_pvc :: string
  dr_pv :: string
  dr_staging :: string
  dr_first :: go_time
  dr_last :: go_time
  dr_attempts :: int
  dr_error :: string
  dr_recoveries :: int
  dr_recovery_at :: "go_time option"
  dr_recovery_error :: string
  dr_recovery_outcome :: string
  dr_recovery_signature :: string

definition empty_report :: device_report where
  "empty_report = \<lparr>dr_node = [], dr_volume = [], dr_volume_name = [], dr_class = [], dr_device = [], dr_serial = [], dr_image = [],
     dr_fs = [], dr_resolved_by = [], dr_pvc_namespace = [], dr_pvc = [], dr_pv = [], dr_staging = [], dr_first = 0, dr_last = 0,
     dr_attempts = 0, dr_error = [], dr_recoveries = 0, dr_recovery_at = None, dr_recovery_error = [], dr_recovery_outcome = [],
     dr_recovery_signature = []\<rparr>"

definition failure_class :: "device_report \<Rightarrow> string" where
  "failure_class r = (if trim_space (dr_class r) = ''mount_failed'' then ''mount_failed'' else ''device_missing'')"

definition recovery_signature :: "device_report \<Rightarrow> string" where
  "recovery_signature r = join_with ''|'' [failure_class r, trim_space (dr_volume_name r), trim_space (dr_device r), trim_space (dr_serial r),
     trim_space (dr_image r), trim_space (dr_fs r), trim_space (dr_resolved_by r), trim_space (dr_staging r)]"

definition sanitize_report_key :: "string \<Rightarrow> string" where
  "sanitize_report_key s =
     (let s = trim_space s
      in if s = [] then ''unknown''
         else map (\<lambda>c. if c \<in> set [CHR ''/'', CHR 0x5C, CHR '':'', CHR '' ''] then CHR ''_'' else c) s)"

definition report_key :: "string \<Rightarrow> string \<Rightarrow> string" where
  "report_key node volume = sanitize_report_key node @ ''.'' @ sanitize_report_key volume"

section \<open>The store of reports\<close>

record 's report_store =
  rp_api :: "'s config_api"
  rp_others :: "nat \<Rightarrow> 's \<Rightarrow> 's"
  rp_steps :: nat
  rp_keys :: "config_map \<Rightarrow> string list"
  rp_decode :: "string \<Rightarrow> device_report option"
  rp_encode :: "device_report \<Rightarrow> string"

text \<open>A missing, blank or malformed entry reads as the empty report.\<close>

definition read_report :: "(string \<Rightarrow> device_report option) \<Rightarrow> (string \<Rightarrow> string option) \<Rightarrow> string \<Rightarrow> device_report" where
  "read_report decode data key =
     (case data key of
        None \<Rightarrow> empty_report
      | Some raw \<Rightarrow> if trim_space raw = [] then empty_report
                    else (case decode (trim_space raw) of None \<Rightarrow> empty_report | Some r \<Rightarrow> r))"

definition report_attempt ::
  "(string \<Rightarrow> device_report option) \<Rightarrow> (device_report \<Rightarrow> string) \<Rightarrow> string \<Rightarrow> (device_report \<Rightarrow> device_report) \<Rightarrow>
   's config_api \<Rightarrow> ('s \<Rightarrow> 's) \<Rightarrow> 's \<Rightarrow> 's attempt" where
  "report_attempt decode encode key mutate api others s =
     (case api_get api s of
        KubeError \<Rightarrow> Attempt s (Some WOther) None
      | KubeNotFound \<Rightarrow>
          (let s = others s; r = api_create api [key \<mapsto> encode (mutate empty_report)] s
           in case snd r of
                Some WAlreadyExists \<Rightarrow> Attempt (fst r) (Some WConflict) None
              | _ \<Rightarrow> own_write s r)
      | KubeOk cm \<Rightarrow>
          (let report = read_report decode (cm_data cm) key; s = others s
           in own_write s (api_update api (cm\<lparr>cm_data := (cm_data cm)(key \<mapsto> encode (mutate report))\<rparr>) s)))"

definition update_report :: "'s report_store \<Rightarrow> bool \<Rightarrow> string \<Rightarrow> (device_report \<Rightarrow> device_report) \<Rightarrow> 's \<Rightarrow> bool \<times> 's" where
  "update_report st enabled key mutate s =
     (if \<not> enabled then (True, s)
      else (let a = retry_on_conflict (report_attempt (rp_decode st) (rp_encode st) key mutate (rp_api st)) (rp_others st) 0 (rp_steps st) s
            in (at_error a \<noteq> None, at_state a)))"

definition clear_report :: "'s report_store \<Rightarrow> bool \<Rightarrow> string \<Rightarrow> 's \<Rightarrow> bool \<times> 's" where
  "clear_report st enabled key s =
     (let a = delete_config_map_key (rp_api st) enabled (rp_steps st) (rp_others st) key s in (at_error a \<noteq> None, at_state a))"

section \<open>The node's side\<close>

record recovery_settings =
  rs_enabled :: "bool option"
  rs_min_attempts :: "int option"
  rs_min_age :: "int option"
  rs_cooldown :: "int option"
  rs_max_attempts :: "int option"

text \<open>Who the volume belongs to: what the publish context says, and the cluster for the rest.\<close>

definition report_identity ::
  "bool \<Rightarrow> 's kube_api \<Rightarrow> string \<Rightarrow> str_map \<Rightarrow> 's \<Rightarrow> (string \<times> string \<times> string) \<times> 's" where
  "report_identity enabled k volume ctx s =
     (let ns = annotation ctx param_pvc_namespace; pvc = annotation ctx param_pvc_name; pv = annotation ctx param_pv_name
      in if ns \<noteq> [] \<and> pvc \<noteq> [] \<and> pv \<noteq> [] \<or> \<not> enabled then ((ns, pvc, pv), s)
         else (case resolve_runtime_context enabled k volume s of
                 (Inl _, s) \<Rightarrow> ((ns, pvc, pv), s)
               | (Inr rt, s) \<Rightarrow>
                   ((if ns = [] then trim_space (rt_namespace rt) else ns, if pvc = [] then trim_space (rt_claim rt) else pvc,
                     if pv = [] then trim_space (rt_pv rt) else pv), s)))"

text \<open>What one failure changes in a report.\<close>

record failure_note =
  fn_node :: string
  fn_volume :: string
  fn_volume_name :: string
  fn_class :: string
  fn_device :: string
  fn_fs :: string
  fn_resolved_by :: string
  fn_staging :: string
  fn_context :: str_map
  fn_cause :: string

definition note_failure :: "failure_note \<Rightarrow> string \<times> string \<times> string \<Rightarrow> go_time \<Rightarrow> device_report \<Rightarrow> device_report" where
  "note_failure f ident now r =
     r\<lparr>dr_first := (if is_zero (dr_first r) then now else dr_first r), dr_node := fn_node f, dr_volume := fn_volume f,
       dr_volume_name := trim_space (fn_volume_name f), dr_class := fn_class f, dr_device := trim_space (fn_device f),
       dr_serial := annotation (fn_context f) ''deviceSerial'', dr_image := annotation (fn_context f) ''opennebulaImageID'',
       dr_fs := trim_space (fn_fs f), dr_resolved_by := trim_space (fn_resolved_by f),
       dr_pvc_namespace := fst ident, dr_pvc := fst (snd ident), dr_pv := snd (snd ident),
       dr_staging := trim_space (fn_staging f), dr_last := now, dr_attempts := dr_attempts r + 1, dr_error := fn_cause f\<rparr>"

text \<open>Only local disks are reported, and only when the node knows its own name.\<close>

definition reportable :: "bool \<Rightarrow> recovery_settings \<Rightarrow> string \<Rightarrow> string \<Rightarrow> str_map \<Rightarrow> bool" where
  "reportable enabled rs node volume ctx \<longleftrightarrow>
     enabled \<and> rs_enabled rs \<noteq> Some False \<and> trim_space volume \<noteq> [] \<and> trim_space node \<noteq> [] \<and> \<not> is_shared_volume_id (trim_space volume) \<and>
     (annotation ctx annotation_backend = [] \<or> equal_fold (annotation ctx annotation_backend) ''local'')"

definition report_failure ::
  "'s report_store \<Rightarrow> bool \<Rightarrow> 's kube_api \<Rightarrow> ('s \<Rightarrow> go_time) \<Rightarrow> recovery_settings \<Rightarrow> failure_note \<Rightarrow> 's \<Rightarrow> 's" where
  "report_failure st enabled k clock rs f s =
     (if \<not> reportable enabled rs (fn_node f) (fn_volume f) (fn_context f) then s
      else (let node = trim_space (fn_node f); volume = trim_space (fn_volume f); now = clock s;
                (ident, s) = report_identity enabled k volume (fn_context f) s
            in snd (update_report st enabled (report_key node volume)
                      (note_failure (f\<lparr>fn_node := node, fn_volume := volume\<rparr>) ident now) s)))"

definition record_device_missing ::
  "'s report_store \<Rightarrow> bool \<Rightarrow> 's kube_api \<Rightarrow> ('s \<Rightarrow> go_time) \<Rightarrow> recovery_settings \<Rightarrow> string \<Rightarrow> string \<Rightarrow> string \<Rightarrow> string \<Rightarrow> str_map \<Rightarrow> string \<Rightarrow> 's \<Rightarrow> 's" where
  "record_device_missing st enabled k clock rs node volume name staging ctx cause =
     report_failure st enabled k clock rs
       \<lparr>fn_node = node, fn_volume = volume, fn_volume_name = name, fn_class = ''device_missing'', fn_device = [], fn_fs = [],
        fn_resolved_by = [], fn_staging = staging, fn_context = ctx, fn_cause = cause\<rparr>"

definition record_mount_failure ::
  "'s report_store \<Rightarrow> bool \<Rightarrow> 's kube_api \<Rightarrow> ('s \<Rightarrow> go_time) \<Rightarrow> recovery_settings \<Rightarrow> string \<Rightarrow> string \<Rightarrow> string \<Rightarrow> string \<Rightarrow> string \<Rightarrow> string \<Rightarrow> string \<Rightarrow>
   str_map \<Rightarrow> string \<Rightarrow> 's \<Rightarrow> 's" where
  "record_mount_failure st enabled k clock rs node volume name device staging fs resolved_by ctx cause =
     report_failure st enabled k clock rs
       \<lparr>fn_node = node, fn_volume = volume, fn_volume_name = name, fn_class = ''mount_failed'', fn_device = device, fn_fs = fs,
        fn_resolved_by = resolved_by, fn_staging = staging, fn_context = ctx, fn_cause = cause\<rparr>"

definition clear_device_missing :: "'s report_store \<Rightarrow> bool \<Rightarrow> string \<Rightarrow> string \<Rightarrow> 's \<Rightarrow> 's" where
  "clear_device_missing st enabled node volume s =
     (if \<not> enabled \<or> trim_space node = [] \<or> trim_space volume = [] then s
      else snd (clear_report st enabled (report_key (trim_space node) (trim_space volume)) s))"

section \<open>When a report is ready\<close>

definition duration_setting :: "int option \<Rightarrow> int \<Rightarrow> duration" where
  "duration_setting x d = int64 ((case x of None \<Rightarrow> d | Some n \<Rightarrow> if n < 0 then d else n) * second)"

definition max_recoveries :: "recovery_settings \<Rightarrow> int" where
  "max_recoveries rs = positive_default (rs_max_attempts rs) 2"

text \<open>The reason why a report has to wait; none if it is ready.\<close>

definition not_ready :: "recovery_settings \<Rightarrow> go_time \<Rightarrow> device_report \<Rightarrow> string option" where
  "not_ready rs now r =
     (let first = (if is_zero (dr_first r) then dr_last r else dr_first r); pause = duration_setting (rs_cooldown rs) 300
      in if trim_space (dr_node r) = [] \<or> trim_space (dr_volume r) = [] then Some ''missing_identity''
         else if dr_attempts r < positive_default (rs_min_attempts rs) 3 then Some ''min_attempts''
         else if \<not> is_zero first \<and> now - first < duration_setting (rs_min_age rs) 60 then Some ''min_age''
         else if (case dr_recovery_at r of None \<Rightarrow> False | Some t \<Rightarrow> 0 < pause \<and> now - t < pause) then Some ''cooldown''
         else if dr_recoveries r < max_recoveries rs then None
         else if (case dr_recovery_at r of None \<Rightarrow> True | Some t \<Rightarrow> dr_last r \<le> t) then Some ''max_recovery_attempts''
         else if trim_space (dr_recovery_signature r) = [] \<or> recovery_signature r = dr_recovery_signature r
         then Some ''max_recovery_attempts_same_failure''
         else None)"

definition recovery_failed :: "go_time \<Rightarrow> string \<Rightarrow> device_report \<Rightarrow> device_report \<Rightarrow> device_report" where
  "recovery_failed now message report current =
     (let c = (if trim_space (dr_node current) = [] then report else current);
          c = report\<lparr>
            dr_first := (if is_zero (dr_first c) then dr_first report else dr_first c),
            dr_last := max (dr_last c) (dr_last report), dr_attempts := max (dr_attempts c) (dr_attempts report),
            dr_class := failure_class report, dr_error := dr_error c, dr_recoveries := dr_recoveries c + 1, dr_recovery_at := Some now,
            dr_recovery_error := message, dr_recovery_outcome := ''failed''\<rparr>
      in c\<lparr>dr_recovery_signature := recovery_signature c\<rparr>)"

definition recovery_skipped :: "string \<Rightarrow> device_report \<Rightarrow> device_report \<Rightarrow> device_report" where
  "recovery_skipped message report current =
     (let c = (if trim_space (dr_node current) = [] then report else current)
      in c\<lparr>dr_recovery_error := message, dr_recovery_outcome := ''skipped''\<rparr>)"

section \<open>The controller's side\<close>

definition put_param :: "string \<Rightarrow> string \<Rightarrow> (string \<times> string) list \<Rightarrow> (string \<times> string) list" where
  "put_param k v ps = (if v = [] then ps else ps @ [(k, v)])"

definition recovery_params :: "device_report \<Rightarrow> runtime_context \<Rightarrow> (string \<times> string) list" where
  "recovery_params r rt =
     put_param ''opennebulaImageID'' (trim_space (dr_image r)) (put_param ''deviceSerial'' (trim_space (dr_serial r))
     (put_param param_pv_name (if trim_space (dr_pv r) \<noteq> [] then trim_space (dr_pv r) else rt_pv rt)
     (put_param param_pvc_name (if trim_space (dr_pvc r) \<noteq> [] then trim_space (dr_pvc r) else rt_claim rt)
     (put_param param_pvc_namespace (if trim_space (dr_pvc_namespace r) \<noteq> [] then trim_space (dr_pvc_namespace r) else rt_namespace rt)
       [(annotation_backend, ''local'')]))))"

text \<open>\<open>VolumeDesiredOnNode\<close> with its error; a positive answer is part of the history.\<close>

definition desire :: "('r, 's) environment \<Rightarrow> settings \<Rightarrow> string \<Rightarrow> string \<Rightarrow> ('r, 's, string + bool \<times> string) handler" where
  "desire e cfg volume node = do {
     r \<leftarrow> outside (volume_desired_on_node (st_kube cfg) (ev_kube e) volume node);
     (case r of Inr (True, _) \<Rightarrow> record_event (WantedOn volume node) | _ \<Rightarrow> State_Monad.return ());
     State_Monad.return r }"

definition observe_size :: "('r, 's) environment \<Rightarrow> string \<Rightarrow> prov_error + int \<Rightarrow> go_time \<Rightarrow> ('r, 's, unit) handler" where
  "observe_size e operation sz started =
     (case sz of Inl _ \<Rightarrow> State_Monad.return () | Inr bytes \<Rightarrow> observe_timeout e operation ''disk'' bytes started)"

definition reattach ::
  "('r, 's) environment \<Rightarrow> settings \<Rightarrow> string \<Rightarrow> string \<Rightarrow> (string \<times> string) list \<Rightarrow> int \<Rightarrow> int \<Rightarrow> prov_error + int \<Rightarrow> ('r, 's, csi_error + unit) handler" where
  "reattach e cfg volume node params i vm sz = do {
     started \<leftarrow> time_now e;
     r \<leftarrow> attach_to e volume node False params;
     (case r of
        Some cause \<Rightarrow> do {
          note_timeout e cfg node volume ''attach'' cause;
          State_Monad.return (Inl (InternalCode, ''failed to attach volume back to same node: '' @ error_text cause)) }
      | None \<Rightarrow> do {
          t \<leftarrow> target_on e volume node i vm;
          if t = None then State_Monad.return (Inl (InternalCode, ''failed to confirm recovered same-node attachment'')) else do {
            observe_size e ''attach'' sz started;
            clear_guard node;
            clear_reuse_state e volume node;
            State_Monad.return (Inr ()) } }) }"

definition recovery_body ::
  "('r, 's) environment \<Rightarrow> settings \<Rightarrow> string \<Rightarrow> string \<Rightarrow> (string \<times> string) list \<Rightarrow> int \<Rightarrow> int \<Rightarrow> ('r, 's, csi_error + unit) handler" where
  "recovery_body e cfg volume node params i vm = do {
     d \<leftarrow> desire e cfg volume node;
     (case d of
        Inl m \<Rightarrow> State_Monad.return (Inl (InternalCode, ''failed to confirm same-node desired state: '' @ m))
      | Inr d \<Rightarrow> if \<not> fst d then State_Monad.return (Inl (InternalCode, ''volume is no longer desired on node '' @ node)) else do {
          t \<leftarrow> target_on e volume node i vm;
          sz \<leftarrow> outside (resolve_volume_size (ev_api e) volume);
          (case t of
             None \<Rightarrow> reattach e cfg volume node params i vm sz
           | Some target \<Rightarrow> do {
               started \<leftarrow> time_now e;
               r \<leftarrow> detach_from e volume node;
               (case r of
                  Some cause \<Rightarrow> do {
                    note_timeout e cfg node volume ''detach'' cause;
                    State_Monad.return (Inl (InternalCode,
                      ''failed to detach existing same-node attachment target '' @ target @ '': '' @ error_text cause)) }
                | None \<Rightarrow> do {
                    observe_size e ''detach'' sz started;
                    reattach e cfg volume node params i vm sz }) }) }) }"

fun hotplug_error_text :: "hotplug_error \<Rightarrow> string" where
  "hotplug_error_text (QueueFailed q) = queue_error_message duration_string q"
| "hotplug_error_text (BodyFailed x) = snd x"

definition execute_recovery ::
  "('r, 's) environment \<Rightarrow> settings \<Rightarrow> device_report \<Rightarrow> runtime_context \<Rightarrow> int \<Rightarrow> int \<Rightarrow> ('r, 's, hotplug_error + unit option) handler" where
  "execute_recovery e cfg r rt i vm =
     (let node = trim_space (dr_node r); volume = trim_space (dr_volume r)
      in with_queue e cfg node ''reattach'' volume priority_critical (recovery_body e cfg volume node (recovery_params r rt) i vm))"

definition drop_report :: "'s report_store \<Rightarrow> settings \<Rightarrow> string \<Rightarrow> ('r, 's, unit) handler" where
  "drop_report st cfg key = do { err \<leftarrow> outside (clear_report st (st_kube cfg) key); State_Monad.return () }"

definition skip_report :: "'s report_store \<Rightarrow> settings \<Rightarrow> string \<Rightarrow> device_report \<Rightarrow> string \<Rightarrow> ('r, 's, unit) handler" where
  "skip_report st cfg key r message = do {
     err \<leftarrow> outside (update_report st (st_kube cfg) key (recovery_skipped message r)); State_Monad.return () }"

definition fail_report :: "('r, 's) environment \<Rightarrow> 's report_store \<Rightarrow> settings \<Rightarrow> string \<Rightarrow> device_report \<Rightarrow> string \<Rightarrow> ('r, 's, unit) handler" where
  "fail_report e st cfg key r message = do {
     now \<leftarrow> time_now e;
     err \<leftarrow> outside (update_report st (st_kube cfg) key (recovery_failed now message r)); State_Monad.return () }"

definition recover_attached ::
  "('r, 's) environment \<Rightarrow> 's report_store \<Rightarrow> settings \<Rightarrow> string \<Rightarrow> device_report \<Rightarrow> runtime_context \<Rightarrow> ('r, 's, unit) handler" where
  "recover_attached e st cfg key r rt = do {
     v \<leftarrow> outside (volume_exists (ev_api e) (trim_space (dr_volume r)));
     (case v of
        Inl x \<Rightarrow> skip_report st cfg key r (''volume_lookup_failed: '' @ error_text x)
      | Inr (i, _) \<Rightarrow> if i = -1 then drop_report st cfg key else do {
          n \<leftarrow> outside (node_exists (ev_api e) (trim_space (dr_node r)));
          (case n of
             Inl x \<Rightarrow> skip_report st cfg key r (''node_lookup_failed: '' @ error_text x)
           | Inr vm \<Rightarrow> if vm = -1 then drop_report st cfg key else do {
               x \<leftarrow> execute_recovery e cfg r rt i vm;
               (case x of
                  Inl err \<Rightarrow> fail_report e st cfg key r (hotplug_error_text err)
                | Inr _ \<Rightarrow> drop_report st cfg key) }) }) }"

definition recover_ready ::
  "('r, 's) environment \<Rightarrow> 's report_store \<Rightarrow> settings \<Rightarrow> string \<Rightarrow> device_report \<Rightarrow> runtime_context \<Rightarrow> ('r, 's, unit) handler" where
  "recover_ready e st cfg key r rt = do {
     kube \<leftarrow> outside (kube_node_ready (st_kube cfg) (ev_kube e) (trim_space (dr_node r)));
     (case kube of
        Inl m \<Rightarrow> skip_report st cfg key r (''kubernetes_node_unavailable: '' @ m)
      | Inr ready \<Rightarrow> if \<not> ready then skip_report st cfg key r ''kubernetes_node_not_ready'' else do {
          vm \<leftarrow> outside (node_ready (ev_api e) (trim_space (dr_node r)));
          (case vm of
             Inl x \<Rightarrow> skip_report st cfg key r (''opennebula_node_unavailable: '' @ error_text x)
           | Inr ready \<Rightarrow> if \<not> ready then skip_report st cfg key r ''opennebula_node_not_ready'' else recover_attached e st cfg key r rt) }) }"

definition recover_report :: "('r, 's) environment \<Rightarrow> 's report_store \<Rightarrow> settings \<Rightarrow> string \<Rightarrow> device_report \<Rightarrow> ('r, 's, unit) handler" where
  "recover_report e st cfg key r =
     (let node = trim_space (dr_node r); volume = trim_space (dr_volume r)
      in if node = [] \<or> volume = [] then drop_report st cfg key else do {
        rt \<leftarrow> context_of e cfg volume;
        (case rt of
           Inl m \<Rightarrow> if contains_sub m ''persistent volume for handle'' then drop_report st cfg key
                    else skip_report st cfg key r (''runtime_context_unavailable: '' @ m)
         | Inr rt \<Rightarrow> if \<not> eligible_for_maintenance rt volume then drop_report st cfg key else do {
             d \<leftarrow> desire e cfg volume node;
             (case d of
                Inl m \<Rightarrow> skip_report st cfg key r (''desired_state_unavailable: '' @ m)
              | Inr d \<Rightarrow> if \<not> fst d then drop_report st cfg key else recover_ready e st cfg key r rt) }) })"

text \<open>The entry of a key, if it holds a report.\<close>

definition entry_report :: "'s report_store \<Rightarrow> config_map \<Rightarrow> string \<Rightarrow> device_report option" where
  "entry_report st cm key =
     (case cm_data cm key of
        None \<Rightarrow> None
      | Some raw \<Rightarrow> if trim_space raw = [] then None else rp_decode st (trim_space raw))"

fun recover_all ::
  "('r, 's) environment \<Rightarrow> 's report_store \<Rightarrow> settings \<Rightarrow> recovery_settings \<Rightarrow> go_time \<Rightarrow> config_map \<Rightarrow> string list \<Rightarrow> ('r, 's, unit) handler" where
  "recover_all e st cfg rs now cm [] = State_Monad.return ()"
| "recover_all e st cfg rs now cm (key # keys) = do {
     (case entry_report st cm key of
        None \<Rightarrow> State_Monad.return ()
      | Some r \<Rightarrow> if not_ready rs now r = None then recover_report e st cfg key r else State_Monad.return ());
     recover_all e st cfg rs now cm keys }"

definition reconcile_recovery ::
  "('r, 's) environment \<Rightarrow> 's report_store \<Rightarrow> settings \<Rightarrow> recovery_settings \<Rightarrow> bool \<Rightarrow> ('r, 's, unit) handler" where
  "reconcile_recovery e st cfg rs leader = (if \<not> st_kube cfg \<or> \<not> leader then State_Monad.return () else do {
     reply \<leftarrow> State (\<lambda>w. (api_get (rp_api st) (w_out w), w));
     (case reply of
        KubeOk cm \<Rightarrow> do { now \<leftarrow> time_now e; recover_all e st cfg rs now cm (rp_keys st cm) }
      | _ \<Rightarrow> State_Monad.return ()) })"

section \<open>Writing reports\<close>

lemma report_modifies:
  "report_attempt decode encode key mutate = modify_attempt (\<lambda>d. d(key \<mapsto> encode (mutate (read_report decode d key))))"
  by (intro ext) (simp add: report_attempt_def modify_attempt_def read_report_def split: kube_reply.split)

interpretation reports: config_write "report_attempt decode encode key mutate" "\<lambda>d. d(key \<mapsto> encode (mutate (read_report decode d key)))"
  for decode encode key mutate
  unfolding report_modifies by unfold_locales (rule modify_attempt_correct)

lemma update_report_exact:
  assumes "config_api_ok (rp_api st)" "versions_fresh (rp_api st) (rp_others st)" "update_report st enabled key mutate s = (err, s')"
  shows "\<exists>b. if err then s' = b \<and> (enabled \<longrightarrow> (\<exists>n \<le> rp_steps st. b = fold (rp_others st) [0..<n] s))
    else (\<exists>n \<le> rp_steps st. b = fold (rp_others st) [0..<n] s) \<and>
      stored_data (rp_api st) s' = (stored_data (rp_api st) b)(key \<mapsto> rp_encode st (mutate (read_report (rp_decode st) (stored_data (rp_api st) b) key)))"
  using reports.retry_effect [OF assms(1,2), of "rp_steps st" s "rp_decode st" "rp_encode st" key mutate] assms(3)
  by (auto simp: update_report_def Let_def split: if_splits)

section \<open>Recovery is bounded\<close>

text \<open>The life of one report: the node notes failures of the same kind, and the controller records a
  failed recovery whenever the report is ready.\<close>

inductive report_life :: "recovery_settings \<Rightarrow> failure_note \<Rightarrow> device_report \<Rightarrow> bool" for rs f where
  first: "report_life rs f (note_failure f ident now empty_report)"
| again: "report_life rs f r \<Longrightarrow> report_life rs f (note_failure (f\<lparr>fn_cause := cause\<rparr>) ident now r)"
| recovery: "report_life rs f r \<Longrightarrow> not_ready rs now r = None \<Longrightarrow> report_life rs f (recovery_failed now' message r r)"
| skipped: "report_life rs f r \<Longrightarrow> report_life rs f (recovery_skipped message r r)"

definition note_signature :: "failure_note \<Rightarrow> string" where
  "note_signature f = recovery_signature (note_failure f ([], [], []) 0 empty_report)"

lemma signature_note: "recovery_signature (note_failure f ident now r) = note_signature f" "note_signature (f\<lparr>fn_cause := cause\<rparr>) = note_signature f"
  by (simp_all add: note_signature_def recovery_signature_def failure_class_def note_failure_def)

lemma signature_skipped: "recovery_signature (recovery_skipped m r r) = recovery_signature r"
  by (simp add: recovery_skipped_def recovery_signature_def failure_class_def)

lemma failure_class_idem: "failure_class (r\<lparr>dr_class := failure_class r'\<rparr>) = failure_class r'"
proof -
  have "trim_space ''mount_failed'' = ''mount_failed''" "trim_space ''device_missing'' \<noteq> ''mount_failed''" by code_simp+
  then show ?thesis by (simp add: failure_class_def)
qed

lemma signature_failed:
  "recovery_signature (recovery_failed now m r r) = recovery_signature r" "dr_recovery_signature (recovery_failed now m r r) = recovery_signature r"
  "dr_recoveries (recovery_failed now m r r) = dr_recoveries r + 1"
  using failure_class_idem [of _ r] by (simp_all add: recovery_failed_def recovery_signature_def Let_def failure_class_def)

lemma max_recoveries_pos: "0 < max_recoveries rs"
  by (simp add: max_recoveries_def positive_default_def split: option.split)

lemma life_signature: "report_life rs f r \<Longrightarrow> recovery_signature r = note_signature f"
  by (induction rule: report_life.induct) (simp_all add: signature_note signature_failed signature_skipped)

lemma not_ready_max:
  assumes "max_recoveries rs \<le> dr_recoveries r" "recovery_signature r = dr_recovery_signature r"
  shows "not_ready rs now r \<noteq> None"
  using assms by (simp add: not_ready_def Let_def)

lemma life_bounded:
  assumes "report_life rs f r"
  shows "0 \<le> dr_recoveries r \<and> dr_recoveries r \<le> max_recoveries rs \<and> (0 < dr_recoveries r \<longrightarrow> dr_recovery_signature r = note_signature f)"
  using assms
proof (induction rule: report_life.induct)
  case (recovery r now now' message)
  have "dr_recoveries r < max_recoveries rs"
  proof (rule ccontr)
    assume full: "\<not> ?thesis"
    then have "recovery_signature r = dr_recovery_signature r"
      using recovery.IH life_signature [OF recovery.hyps(1)] max_recoveries_pos [of rs] by simp
    then show False using not_ready_max [of rs r now] full recovery.hyps(2) by simp
  qed
  then show ?case using recovery.IH life_signature [OF recovery.hyps(1)] by (simp add: signature_failed)
next
  case (skipped r message)
  then show ?case by (simp add: recovery_skipped_def Let_def)
qed (use max_recoveries_pos [of rs] in \<open>simp_all add: note_failure_def empty_report_def\<close>)

text \<open>Recovery gives up: however often a node reports the same failure and the controller tries again,
  the number of failed recoveries of a report stays within the configured maximum, and once
  it is reached the report is not ready at any time, unless the node reports a different
  failure.\<close>

lemma recovery_bounded:
  assumes "report_life rs f r"
  shows "0 \<le> dr_recoveries r \<and> dr_recoveries r \<le> max_recoveries rs \<and> (dr_recoveries r = max_recoveries rs \<longrightarrow> (\<forall>now. not_ready rs now r \<noteq> None))"
  using life_bounded [OF assms] life_signature [OF assms] max_recoveries_pos [of rs] not_ready_max [of rs r] by auto

section \<open>Recovery is safe\<close>

text \<open>Every event of a history in the context of the events before it.\<close>

fun each_after :: "('e list \<Rightarrow> 'e \<Rightarrow> bool) \<Rightarrow> 'e list \<Rightarrow> 'e list \<Rightarrow> bool" where
  "each_after P acc [] \<longleftrightarrow> True"
| "each_after P acc (x # xs) \<longleftrightarrow> P acc x \<and> each_after P (acc @ [x]) xs"

lemma each_after_append: "each_after P acc (xs @ ys) \<longleftrightarrow> each_after P acc xs \<and> each_after P (acc @ xs) ys"
  by (induction xs arbitrary: acc) simp_all

lemma each_after_mono: "each_after P acc xs \<Longrightarrow> (\<And>a x. P a x \<Longrightarrow> P (pre @ a) x) \<Longrightarrow> each_after P (pre @ acc) xs"
  by (induction xs arbitrary: acc) (simp, metis append_assoc each_after.simps(2))

text \<open>Recovery touches only the given volumes on the given nodes, only when the cluster wants them
  there, and attaches a volume only after it has left the node.\<close>

definition may_act :: "(string \<times> string) set \<Rightarrow> attach_event list \<Rightarrow> attach_event \<Rightarrow> bool" where
  "may_act T before ev \<longleftrightarrow>
     (case ev of
        AttachReply v n _ \<Rightarrow> (v, n) \<in> T \<and> WantedOn v n \<in> set before \<and> settled v n before
      | DetachReply v n _ \<Rightarrow> (v, n) \<in> T \<and> WantedOn v n \<in> set before
      | _ \<Rightarrow> True)"

lemma may_act_simps [simp]:
  "may_act T b (Observed v n t)" "may_act T b (WantedOn v n)"
  "may_act T b (AttachReply v n ok) \<longleftrightarrow> (v, n) \<in> T \<and> WantedOn v n \<in> set b \<and> settled v n b"
  "may_act T b (DetachReply v n ok) \<longleftrightarrow> (v, n) \<in> T \<and> WantedOn v n \<in> set b"
  by (simp_all add: may_act_def)

lemma may_act_pre: "may_act T b ev \<Longrightarrow> may_act T (pre @ b) ev"
  by (auto simp: may_act_def settled_def split: attach_event.splits)

definition acted :: "(string \<times> string) set \<Rightarrow> ('r, 's) driver_world \<Rightarrow> ('r, 's) driver_world \<Rightarrow> bool" where
  "acted T w w' \<longleftrightarrow> (\<exists>evs. w_log w' = w_log w @ evs \<and> each_after (may_act T) [] evs)"

lemma acted_trans: "acted T w w1 \<Longrightarrow> acted T w1 w2 \<Longrightarrow> acted T w w2"
  unfolding acted_def by (metis append_Nil2 append_assoc each_after_append each_after_mono may_act_pre append_Nil)

lemma acted_log: "w_log w' = w_log w @ evs \<Longrightarrow> each_after (may_act T) [] evs \<Longrightarrow> acted T w w'"
  by (auto simp: acted_def)

lemma acted_from: "w_log w1 = w_log w \<Longrightarrow> acted T w1 w2 \<Longrightarrow> acted T w w2"
  by (simp add: acted_def)

lemma acted_mono: "acted T w w' \<Longrightarrow> T \<subseteq> T' \<Longrightarrow> acted T' w w'"
proof -
  have "each_after (may_act T') acc evs" if "each_after (may_act T) acc evs" "T \<subseteq> T'" for acc evs
    using that by (induction evs arbitrary: acc) (auto simp: may_act_def split: attach_event.splits)
  then show "acted T w w' \<Longrightarrow> T \<subseteq> T' \<Longrightarrow> acted T' w w'" unfolding acted_def by blast
qed

lemma acted_refl: "w_log w' = w_log w \<Longrightarrow> acted T w w'" by (rule acted_log [of _ _ "[]"]) simp_all

lemma wp_desire [wp_rules]:
  "(\<And>d w'. w_log w' = w_log w @ (case d of Inr (True, _) \<Rightarrow> [WantedOn v n] | _ \<Rightarrow> []) \<Longrightarrow> w_maintenance w' = w_maintenance w \<Longrightarrow> w_sticky w' = w_sticky w \<Longrightarrow> Q d w') \<Longrightarrow>
   wp (desire e cfg v n) Q w"
  unfolding desire_def wp_simps by (rule wp_outside) (auto simp: wp_record_event wp_simps split: sum.split bool.split)

lemma steady_reports:
  "steady (observe_size e operation sz started)" "steady (drop_report st cfg key)" "steady (skip_report st cfg key r m)" "steady (fail_report e st cfg key r m)"
  unfolding observe_size_def drop_report_def skip_report_def fail_report_def by (intro steady_intros)+

lemmas [wp_rules] = steady_reports [THEN steady_wp]

lemma wp_clear_reuse_log [wp_rules]:
  "(\<And>w'. w_log w' = w_log w \<Longrightarrow> Q () w') \<Longrightarrow> wp (clear_reuse_state e v n) Q w"
  unfolding clear_reuse_state_def by (intro wp_rules) auto

lemma recovery_body_wp:
  "wp (recovery_body e cfg v n params i vm) (\<lambda>_. acted {(v, n)} w) w"
  unfolding recovery_body_def reattach_def
  apply (intro wp_rules)
  apply (auto intro!: acted_log simp: settled_def)
  done

definition report_target :: "device_report \<Rightarrow> string \<times> string" where
  "report_target r = (trim_space (dr_volume r), trim_space (dr_node r))"

text \<open>Operations that only do what recovery may do.\<close>

definition acts :: "(string \<times> string) set \<Rightarrow> ('r, 's, 'a) handler \<Rightarrow> bool" where
  "acts T m \<longleftrightarrow> (\<forall>w. wp m (\<lambda>_. acted T w) w)"

named_theorems acts_intros

lemma acts_bind [acts_intros]: "acts T m \<Longrightarrow> (\<And>a. acts T (f a)) \<Longrightarrow> acts T (State_Monad.bind m f)"
  unfolding acts_def wp_def by (fastforce simp: State_Monad.bind_def split: prod.splits intro: acted_trans)

lemma acts_steady: "steady m \<Longrightarrow> acts T m"
  unfolding acts_def by (auto intro: wp_mono [OF steadyD] acted_refl)

lemma acts_if [acts_intros]: "(b \<Longrightarrow> acts T m) \<Longrightarrow> (\<not> b \<Longrightarrow> acts T m') \<Longrightarrow> acts T (if b then m else m')" by simp

lemma acts_option [acts_intros]:
  "(x = None \<Longrightarrow> acts T m) \<Longrightarrow> (\<And>a. x = Some a \<Longrightarrow> acts T (f a)) \<Longrightarrow> acts T (case x of None \<Rightarrow> m | Some a \<Rightarrow> f a)"
  by (simp split: option.split)

lemma acts_sum [acts_intros]: "(\<And>a. acts T (f a)) \<Longrightarrow> (\<And>b. acts T (g b)) \<Longrightarrow> acts T (case x of Inl a \<Rightarrow> f a | Inr b \<Rightarrow> g b)"
  by (simp split: sum.split)

lemma acts_prod [acts_intros]: "(\<And>a b. acts T (f a b)) \<Longrightarrow> acts T (case x of (a, b) \<Rightarrow> f a b)"
  by (simp split: prod.split)

lemma acts_reply [acts_intros]:
  "(\<And>a. x = KubeOk a \<Longrightarrow> acts T (f a)) \<Longrightarrow> acts T m \<Longrightarrow> acts T m' \<Longrightarrow> acts T (case x of KubeOk a \<Rightarrow> f a | KubeNotFound \<Rightarrow> m | KubeError \<Rightarrow> m')"
  by (simp split: kube_reply.split)

lemmas [acts_intros] = acts_steady [OF steady_return] steady_reports [THEN acts_steady] steady_ops [THEN acts_steady]

lemma acts_desire [acts_intros]: "acts T (desire e cfg v n)"
  unfolding acts_def by (intro allI wp_desire) (auto intro!: acted_log split: sum.splits prod.splits bool.splits)

lemma acts_execute [acts_intros]: "report_target r \<in> T \<Longrightarrow> acts T (execute_recovery e cfg r rt i vm)"
proof -
  have body: "wp (recovery_body e cfg v n params i vm) (\<lambda>_. acted T w) w" if "(v, n) \<in> T" for v n params w
    using that by (auto intro!: wp_mono [OF recovery_body_wp] elim: acted_mono)
  assume "report_target r \<in> T"
  then show ?thesis
    unfolding acts_def execute_recovery_def Let_def report_target_def
    by (auto intro!: wp_with_queue [OF body] intro: acted_from acted_refl)
qed

lemma acts_recover: "report_target r \<in> T \<Longrightarrow> acts T (recover_report e st cfg key r)"
  unfolding recover_report_def recover_ready_def recover_attached_def Let_def by (intro acts_intros)

definition ready_targets :: "'s report_store \<Rightarrow> recovery_settings \<Rightarrow> go_time \<Rightarrow> config_map \<Rightarrow> string list \<Rightarrow> (string \<times> string) set" where
  "ready_targets st rs now cm keys = {report_target r | key r. key \<in> set keys \<and> entry_report st cm key = Some r \<and> not_ready rs now r = None}"

lemma acts_recover_all: "ready_targets st rs now cm keys \<subseteq> T \<Longrightarrow> acts T (recover_all e st cfg rs now cm keys)"
  by (induction keys) (auto simp: ready_targets_def intro!: acts_intros acts_recover)

lemma each_after_nth: "each_after P acc (xs @ y # ys) \<Longrightarrow> P (acc @ xs) y"
  by (simp add: each_after_append)


text \<open>A volume that is attached to the node \<open>new\<close>, wanted there, and reported missing three times.\<close>

definition lost_report :: device_report where
  "lost_report = empty_report\<lparr>dr_node := ''new'', dr_volume := ''pvc'', dr_attempts := 3, dr_first := 1, dr_last := 2\<rparr>"

definition report_server :: "int option config_api" where
  "report_server = \<lparr>api_get = (\<lambda>s. KubeOk \<lparr>cm_version = 1, cm_data = [''new.pvc'' \<mapsto> ''x'']\<rparr>), api_create = (\<lambda>d s. (s, Some WAlreadyExists)),
     api_update = (\<lambda>cm s. (s, Some WConflict)), api_stored = (\<lambda>s. None)\<rparr>"

definition lost_store :: "int option report_store" where
  "lost_store = \<lparr>rp_api = report_server, rp_others = (\<lambda>i s. s), rp_steps = 2, rp_keys = (\<lambda>cm. [''new.pvc'']),
     rp_decode = (\<lambda>raw. Some lost_report), rp_encode = (\<lambda>r. ''x'')\<rparr>"

definition lost_kube :: "int option kube_api" where
  "lost_kube = cluster_kube\<lparr>
     k_pvs := (\<lambda>s. (Inr [\<lparr>pv_name = ''pv'', pv_annotations = [annotation_backend \<mapsto> ''local''], pv_access = [ReadWriteOnce], pv_driver = [],
       pv_handle = Some ''pvc'', pv_claim = None, pv_deleting = False, pv_phase = ''Bound''\<rparr>], s)),
     k_vas := (\<lambda>s. (Inr [\<lparr>va_name = ''va'', va_pv = Some ''pv'', va_node = ''new'', va_attached = True, va_deleting = False\<rparr>], s)),
     k_node := (\<lambda>n s. (Inr \<lparr>nc_unschedulable = False, nc_ready = Some True\<rparr>, s))\<rparr>"

definition lost_env :: "(sticky_state, int option) environment" where
  "lost_env = cluster_env\<lparr>ev_kube := lost_kube, ev_api := cluster_api\<lparr>api_now := (\<lambda>s. 100 * second)\<rparr>\<rparr>"

definition recovery_defaults :: recovery_settings where
  "recovery_defaults = \<lparr>rs_enabled = None, rs_min_attempts = None, rs_min_age = None, rs_cooldown = None, rs_max_attempts = None\<rparr>"

definition recovery_log :: "attach_event list" where
  "recovery_log = [WantedOn ''pvc'' ''new'', WantedOn ''pvc'' ''new'', Observed ''pvc'' ''new'' (Some ''sdb''), DetachReply ''pvc'' ''new'' True,
     AttachReply ''pvc'' ''new'' True, Observed ''pvc'' ''new'' (Some ''sdb'')]"

definition recovered :: "(sticky_state, int option) driver_world" where
  "recovered = snd (run_state (reconcile_recovery lost_env lost_store cluster_settings recovery_defaults True) (cluster_world\<lparr>w_out := Some 4\<rparr>))"

lemma recovered_log: "w_log recovered = recovery_log" by code_simp


text \<open>Three reports, then two recoveries that fail.\<close>

definition missing_note :: failure_note where
  "missing_note = \<lparr>fn_node = ''new'', fn_volume = ''pvc'', fn_volume_name = ''sdb'', fn_class = ''device_missing'', fn_device = [], fn_fs = [],
     fn_resolved_by = [], fn_staging = ''/stage'', fn_context = Map.empty, fn_cause = ''timed out''\<rparr>"

definition three_notes :: device_report where
  "three_notes = note_failure (missing_note\<lparr>fn_cause := ''c''\<rparr>) ([], [], []) (3 * second) (note_failure (missing_note\<lparr>fn_cause := ''b''\<rparr>) ([], [], []) (2 * second)
     (note_failure missing_note ([], [], []) second empty_report))"

definition given_up :: device_report where
  "given_up = recovery_failed (501 * second) ''again'' (recovery_failed (101 * second) ''no'' three_notes three_notes) (recovery_failed (101 * second) ''no'' three_notes three_notes)"

lemma recovery_bounded_witness: "dr_recoveries given_up = 2 \<and> not_ready recovery_defaults (9000 * second) given_up \<noteq> None"
proof -
  have three: "report_life recovery_defaults missing_note three_notes"
    unfolding three_notes_def by (intro report_life.again report_life.first)
  have "not_ready recovery_defaults (100 * second) three_notes = None" by code_simp
  from report_life.recovery [OF three this]
  have once: "report_life recovery_defaults missing_note (recovery_failed (101 * second) ''no'' three_notes three_notes)" .
  have "not_ready recovery_defaults (500 * second) (recovery_failed (101 * second) ''no'' three_notes three_notes) = None" by code_simp
  from report_life.recovery [OF once this] have life: "report_life recovery_defaults missing_note given_up" unfolding given_up_def .
  have "dr_recoveries given_up = 2" "max_recoveries recovery_defaults = 2" by code_simp+
  then show ?thesis using recovery_bounded [OF life] by simp
qed

end
