(* ===== verification/Node_Sessions.thy ===== *)
theory Node_Sessions
  imports Node_Devices Device_Recovery
begin

text \<open>
  The sessions of staged local disks (\<open>driver/nodeserver_localdisk_recovery.go\<close>): a file for each staged
  volume with the device, the mount options and the published targets, the test whether a
  mount is stale, and the recovery that mounts a stale volume again.  The file of a volume is
  named by a digest of its trimmed name, so the files are a map on trimmed names; whether
  reading or writing a file fails is up to the host.
\<close>

section \<open>Session files\<close>

text \<open>\<open>uniqueStrings\<close>: trimmed, without blanks, the first of equal ones kept.\<close>

definition unique_strings :: "string list \<Rightarrow> string list" where
  "unique_strings xs = foldl (\<lambda>acc x. let t = trim_space x in if t = [] \<or> t \<in> set acc then acc else acc @ [t]) [] xs"

text \<open>\<open>normalizeLocalDiskPublishedTargets\<close>: one entry for each path, at the place of the first and with the
  options of the last.\<close>

definition normalize_step :: "published_target list \<Rightarrow> published_target \<Rightarrow> published_target list" where
  "normalize_step acc t =
     (let p = trim_space (pt_path t); t = \<lparr>pt_path = p, pt_options = unique_strings (pt_options t)\<rparr>
      in if p = [] then acc
         else if p \<in> pt_path ` set acc then map (\<lambda>u. if pt_path u = p then t else u) acc else acc @ [t])"

definition normalize_targets :: "published_target list \<Rightarrow> published_target list" where
  "normalize_targets ts = foldl normalize_step [] ts"

definition normalize_session :: "local_session \<Rightarrow> local_session" where
  "normalize_session s = s\<lparr>ls_options := unique_strings (ls_options s), ls_targets := normalize_targets (ls_targets s)\<rparr>"

definition save_session :: "'s host \<Rightarrow> local_session \<Rightarrow> ('s, unit) node_op" where
  "save_session h s = (if trim_space (ls_volume s) = [] then State_Monad.return () else do {
     failed \<leftarrow> on_host (ho_session_write h);
     if failed then State_Monad.return ()
     else State (\<lambda>w. ((), w\<lparr>nw_sessions := (nw_sessions w)(trim_space (ls_volume s) \<mapsto> normalize_session s)\<rparr>)) })"

text \<open>\<open>Load\<close>; a failed read is \<open>None\<close>.\<close>

definition load_session :: "'s host \<Rightarrow> string \<Rightarrow> ('s, local_session option option) node_op" where
  "load_session h volume = do {
     failed \<leftarrow> on_host (ho_session_read h);
     if failed then State_Monad.return None
     else State (\<lambda>w. (Some (map_option normalize_session (nw_sessions w (trim_space volume))), w)) }"

definition delete_session :: "'s host \<Rightarrow> string \<Rightarrow> ('s, unit) node_op" where
  "delete_session h volume = do {
     failed \<leftarrow> on_host (ho_session_write h);
     if failed then State_Monad.return ()
     else State (\<lambda>w. ((), w\<lparr>nw_sessions := (nw_sessions w)(trim_space volume := None)\<rparr>)) }"

definition stage_session :: "string \<Rightarrow> string \<Rightarrow> str_map \<Rightarrow> string \<Rightarrow> string \<Rightarrow> string list \<Rightarrow> local_session" where
  "stage_session volume staging ctx device fs options =
     \<lparr>ls_volume = volume, ls_volume_name = annotation ctx ''volumeName'', ls_staging = staging, ls_device = device,
      ls_serial = annotation ctx ''deviceSerial'', ls_image = annotation ctx ''opennebulaImageID'', ls_fs = fs, ls_options = options,
      ls_pvc_namespace = annotation ctx param_pvc_namespace, ls_pvc = annotation ctx param_pvc_name, ls_pv = annotation ctx param_pv_name,
      ls_targets = [], ls_recovered_at = None, ls_error = [], ls_attempts = 0\<rparr>"

definition record_stage_session ::
  "'s host \<Rightarrow> string \<Rightarrow> string \<Rightarrow> str_map \<Rightarrow> string \<Rightarrow> string \<Rightarrow> string list \<Rightarrow> ('s, unit) node_op" where
  "record_stage_session h volume staging ctx device fs options = do {
     old \<leftarrow> load_session h volume;
     save_session h ((stage_session volume staging ctx device fs options)
       \<lparr>ls_targets := (case old of Some (Some s) \<Rightarrow> ls_targets s | _ \<Rightarrow> [])\<rparr>) }"

text \<open>A target that is already listed is replaced where it is.\<close>

definition put_target :: "published_target \<Rightarrow> published_target list \<Rightarrow> published_target list" where
  "put_target t ts =
     (if pt_path t \<in> pt_path ` set ts then map (\<lambda>u. if pt_path u = pt_path t then t else u) ts else ts @ [t])"

definition update_published_target :: "'s host \<Rightarrow> string \<Rightarrow> string \<Rightarrow> string list \<Rightarrow> ('s, unit) node_op" where
  "update_published_target h volume path options = (if trim_space volume = [] then State_Monad.return () else do {
     s \<leftarrow> load_session h volume;
     (case s of
        Some (Some s) \<Rightarrow> save_session h (s\<lparr>ls_targets := put_target \<lparr>pt_path = path, pt_options = options\<rparr> (ls_targets s)\<rparr>)
      | _ \<Rightarrow> State_Monad.return ()) })"

definition remove_published_target :: "'s host \<Rightarrow> string \<Rightarrow> string \<Rightarrow> ('s, unit) node_op" where
  "remove_published_target h volume path = (if trim_space volume = [] then State_Monad.return () else do {
     s \<leftarrow> load_session h volume;
     (case s of
        Some (Some s) \<Rightarrow> save_session h (s\<lparr>ls_targets := filter (\<lambda>t. pt_path t \<noteq> path) (ls_targets s)\<rparr>)
      | _ \<Rightarrow> State_Monad.return ()) })"

section \<open>Stale mounts\<close>

definition stale_text :: "string \<Rightarrow> bool" where
  "stale_text m \<longleftrightarrow>
     (let l = to_lower m
      in contains_sub l ''input/output error'' \<or> contains_sub l ''no such device'' \<or> contains_sub l ''transport endpoint is not connected'')"

definition stale_errno :: "errno \<Rightarrow> string \<Rightarrow> bool" where
  "stale_errno e m \<longleftrightarrow> e \<in> {EIO, ENODEV, ENXIO} \<or> stale_text m"

fun stale_reply :: "stat_reply \<Rightarrow> bool" where
  "stale_reply (StatError e m) = stale_errno e m"
| "stale_reply (NotExist m) = stale_text m"
| "stale_reply _ = False"

text \<open>A path is either healthy or stale.\<close>

record mount_health =
  hl_stale :: bool
  hl_reason :: string
  hl_source :: string
  hl_message :: string

definition mount_for_path :: "'s host \<Rightarrow> string \<Rightarrow> ('s, string + mount_point option) node_op" where
  "mount_for_path h path = do {
     ms \<leftarrow> on_host (ho_list h);
     State_Monad.return (case ms of Inl m \<Rightarrow> Inl m | Inr ms \<Rightarrow> Inr (mounted_at ms path)) }"

definition is_missing :: "stat_reply \<Rightarrow> bool" where
  "is_missing st \<longleftrightarrow> (case st of NotExist _ \<Rightarrow> True | _ \<Rightarrow> False)"

definition serial_fits :: "'s host \<Rightarrow> string \<Rightarrow> string \<Rightarrow> ('s, bool) node_op" where
  "serial_fits h volume device = do {
     s \<leftarrow> load_session h volume;
     (case s of
        Some (Some s) \<Rightarrow> if ls_serial s \<noteq> [] then device_matches_serial h device (ls_serial s) [] else State_Monad.return True
      | _ \<Rightarrow> State_Monad.return True) }"

definition evaluate_path :: "'s host \<Rightarrow> string \<Rightarrow> string \<Rightarrow> ('s, string + mount_health) node_op" where
  "evaluate_path h volume path = (if trim_space path = [] then State_Monad.return (Inl ''path is required'') else do {
     st \<leftarrow> on_host (ho_stat h path);
     if \<not> stat_ok st
     then State_Monad.return (if stale_reply st then Inr \<lparr>hl_stale = True, hl_reason = ''path_stale'', hl_source = [], hl_message = stat_text st\<rparr> else Inl (stat_text st))
     else do {
       mp \<leftarrow> mount_for_path h path;
       (case mp of
          Inl m \<Rightarrow> State_Monad.return (Inl m)
        | Inr None \<Rightarrow> State_Monad.return (Inr \<lparr>hl_stale = False, hl_reason = ''not_mountpoint'', hl_source = [], hl_message = []\<rparr>)
        | Inr (Some mp) \<Rightarrow>
            if mp_device mp = [] then State_Monad.return (Inr \<lparr>hl_stale = True, hl_reason = ''missing_mount_source'', hl_source = [], hl_message = ''mount point has no source device''\<rparr>)
            else if \<not> has_prefix (mp_device mp) ''/dev/'' then State_Monad.return (Inr \<lparr>hl_stale = False, hl_reason = ''mounted'', hl_source = mp_device mp, hl_message = []\<rparr>)
            else do {
              st \<leftarrow> on_host (ho_stat h (mp_device mp));
              if \<not> stat_ok st
              then State_Monad.return (if is_missing st \<or> stale_reply st
                then Inr \<lparr>hl_stale = True, hl_reason = ''source_missing'', hl_source = mp_device mp, hl_message = stat_text st\<rparr> else Inl (stat_text st))
              else do {
                ok \<leftarrow> serial_fits h volume (mp_device mp);
                State_Monad.return (Inr (if ok then \<lparr>hl_stale = False, hl_reason = ''mounted'', hl_source = mp_device mp, hl_message = []\<rparr>
                  else \<lparr>hl_stale = True, hl_reason = ''serial_mismatch'', hl_source = mp_device mp, hl_message = ''mount source serial does not match expected volume serial''\<rparr>)) } }) } })"

section \<open>Recovery of a stale mount\<close>

definition round_second :: "duration \<Rightarrow> duration" where
  "round_second d = (let r = d mod second in if 2 * r < second then d - r else d + second - r)"


record session_settings =
  ss_gate :: bool
  ss_active_pods :: "bool option"
  ss_max_attempts :: "int option"
  ss_backoff :: "int option"
  ss_discovery :: "int option"

definition device_discovery_timeout :: "int option \<Rightarrow> str_map \<Rightarrow> duration" where
  "device_discovery_timeout discovery ctx =
     (let seconds = (\<lambda>k. case ctx k of None \<Rightarrow> None | Some raw \<Rightarrow> if raw = [] then None else (case atoi raw of None \<Rightarrow> None | Some n \<Rightarrow> if 0 < n then Some n else None))
      in int64 ((case seconds ''deviceDiscoveryTimeoutSeconds'' of Some n \<Rightarrow> n | None \<Rightarrow>
           (case seconds ''hotplugTimeoutSeconds'' of Some n \<Rightarrow> n | None \<Rightarrow> positive_default discovery 30)) * second))"

text \<open>The fuel of the search is what \<open>resolve_device_returns\<close> needs, so the search always returns.\<close>

definition resolve_path ::
  "'s host \<Rightarrow> resolver_config \<Rightarrow> string \<Rightarrow> string \<Rightarrow> str_map \<Rightarrow> duration \<Rightarrow> ('s, string + resolution) node_op" where
  "resolve_path h cfg volume volume_name ctx timeout = do {
     r \<leftarrow> resolve_device (nat (timeout div second) + 2) h cfg volume volume_name ctx timeout;
     State_Monad.return (case r of None \<Rightarrow> Inl ''device search did not return'' | Some x \<Rightarrow> x) }"

definition recovery_context :: "local_session \<Rightarrow> str_map" where
  "recovery_context s =
     (let m = (if ls_serial s \<noteq> [] then [''deviceSerial'' \<mapsto> ls_serial s] else Map.empty)
      in if ls_image s \<noteq> [] then m(''opennebulaImageID'' \<mapsto> ls_image s) else m)"

definition recovery_device :: "'s host \<Rightarrow> resolver_config \<Rightarrow> session_settings \<Rightarrow> local_session \<Rightarrow> ('s, string + string) node_op" where
  "recovery_device h cfg ss s = do {
     let ctx = recovery_context s;
     r \<leftarrow> resolve_path h cfg (ls_volume s) (if ls_volume_name s = [] then ls_device s else ls_volume_name s) ctx
       (device_discovery_timeout (ss_discovery ss) ctx);
     (case r of
        Inl m \<Rightarrow> State_Monad.return (Inl m)
      | Inr r \<Rightarrow> do {
          ok \<leftarrow> (if ls_serial s \<noteq> [] then device_matches_serial h (re_device r) (ls_serial s) [] else State_Monad.return True);
          State_Monad.return (if ok then Inr (re_device r)
            else Inl (''resolved device '' @ re_device r @ '' does not match expected serial '' @ ls_serial s)) }) }"

fun pod_uid_in :: "string list \<Rightarrow> string" where
  "pod_uid_in (a # b # rest) = (if a = ''pods'' then b else pod_uid_in (b # rest))"
| "pod_uid_in _ = []"

definition pod_uid_of_path :: "string \<Rightarrow> string" where
  "pod_uid_of_path path = pod_uid_in (split_on (CHR ''/'') (path_clean path))"

fun active_target :: "'s host \<Rightarrow> published_target list \<Rightarrow> ('s, string option) node_op" where
  "active_target h [] = State_Monad.return None"
| "active_target h (t # ts) =
     (let uid = pod_uid_of_path (pt_path t)
      in if uid = [] then active_target h ts else do {
        e \<leftarrow> on_host (ho_pod_exists h uid);
        if e then State_Monad.return (Some (pt_path t)) else active_target h ts })"

text \<open>A failure is noted in the session.\<close>

definition recovery_failure :: "'s host \<Rightarrow> local_session \<Rightarrow> string \<Rightarrow> ('s, string option) node_op" where
  "recovery_failure h s m = do {
     now \<leftarrow> host_time h;
     save_session h (s\<lparr>ls_attempts := ls_attempts s + 1, ls_error := m, ls_recovered_at := Some now\<rparr>);
     State_Monad.return (Some m) }"

fun cleanup_targets :: "'s host \<Rightarrow> published_target list \<Rightarrow> ('s, string option) node_op" where
  "cleanup_targets h [] = State_Monad.return None"
| "cleanup_targets h (t # ts) = do {
     err \<leftarrow> on_host (ho_cleanup h (pt_path t));
     (case err of
        Some m \<Rightarrow> State_Monad.return (Some (''failed to cleanup stale target '' @ pt_path t @ '': '' @ m))
      | None \<Rightarrow> cleanup_targets h ts) }"

fun rebind_targets :: "'s host \<Rightarrow> string \<Rightarrow> published_target list \<Rightarrow> ('s, string option) node_op" where
  "rebind_targets h staging [] = State_Monad.return None"
| "rebind_targets h staging (t # ts) = do {
     made \<leftarrow> on_host (ho_mkdir_all h (pt_path t));
     (case made of
        Some m \<Rightarrow> State_Monad.return (Some (''failed to recreate target '' @ pt_path t @ '': '' @ m))
      | None \<Rightarrow> do {
          err \<leftarrow> on_host (ho_mount h staging (pt_path t) [] (unique_strings (''bind'' # pt_options t)));
          (case err of
             Some m \<Rightarrow> State_Monad.return (Some (''failed to rebind recovered stage to '' @ pt_path t @ '': '' @ m))
           | None \<Rightarrow> rebind_targets h staging ts) }) }"

text \<open>Unmount everything, mount the device again and bind the targets; the first failure.\<close>

definition remount_session :: "'s host \<Rightarrow> local_session \<Rightarrow> string \<Rightarrow> ('s, string option) node_op" where
  "remount_session h s device = do {
     e \<leftarrow> cleanup_targets h (ls_targets s);
     (case e of Some m \<Rightarrow> State_Monad.return (Some m) | None \<Rightarrow> do {
       e \<leftarrow> on_host (ho_cleanup h (ls_staging s));
       (case e of Some m \<Rightarrow> State_Monad.return (Some (''failed to cleanup stale stage '' @ ls_staging s @ '': '' @ m)) | None \<Rightarrow> do {
         e \<leftarrow> on_host (ho_mkdir_all h (ls_staging s));
         (case e of Some m \<Rightarrow> State_Monad.return (Some m) | None \<Rightarrow> do {
           e \<leftarrow> on_host (ho_format_mount h device (ls_staging s) (if trim_space (ls_fs s) = [] then ''ext4'' else trim_space (ls_fs s)) (ls_options s));
           (case e of
              Some m \<Rightarrow> State_Monad.return (Some (''failed to remount recovered device '' @ device @ '' at '' @ ls_staging s @ '': '' @ m))
            | None \<Rightarrow> rebind_targets h (ls_staging s) (ls_targets s)) }) }) }) }"

definition perform_recovery :: "'s host \<Rightarrow> resolver_config \<Rightarrow> session_settings \<Rightarrow> local_session \<Rightarrow> ('s, string option) node_op" where
  "perform_recovery h cfg ss s = do {
     d \<leftarrow> recovery_device h cfg ss s;
     (case d of
        Inl m \<Rightarrow> recovery_failure h s m
      | Inr device \<Rightarrow> do {
          e \<leftarrow> remount_session h s device;
          (case e of
             Some m \<Rightarrow> recovery_failure h s m
           | None \<Rightarrow> do {
               now \<leftarrow> host_time h;
               save_session h (s\<lparr>ls_device := device, ls_recovered_at := Some now, ls_error := [], ls_attempts := ls_attempts s + 1\<rparr>);
               State_Monad.return None }) }) }"

text \<open>How long a recovery has to wait after a failed one.\<close>

definition recovery_wait :: "session_settings \<Rightarrow> local_session \<Rightarrow> go_time \<Rightarrow> duration" where
  "recovery_wait ss s now =
     (case ls_recovered_at s of
        None \<Rightarrow> 0
      | Some t \<Rightarrow> if ls_error s = [] then 0 else int64 (positive_default (ss_backoff ss) 10 * second) - (now - t))"

definition recover_session :: "'s host \<Rightarrow> resolver_config \<Rightarrow> session_settings \<Rightarrow> local_session \<Rightarrow> ('s, string option) node_op" where
  "recover_session h cfg ss s = (if \<not> ss_gate ss then State_Monad.return (Some ''local RWO stale mount recovery is disabled'') else do {
     active \<leftarrow> (if ss_active_pods ss = Some True then State_Monad.return None else active_target h (ls_targets s));
     (case active of
        Some p \<Rightarrow> State_Monad.return (Some (''active-pod local RWO recovery is disabled for target '' @ p))
      | None \<Rightarrow>
          if positive_default (ss_max_attempts ss) 3 \<le> ls_attempts s
          then State_Monad.return (Some (''local RWO recovery attempts exhausted for volume '' @ ls_volume s))
          else do {
            now \<leftarrow> host_time h;
            if 0 < recovery_wait ss s now
            then State_Monad.return (Some (''local RWO recovery for volume '' @ ls_volume s @ '' is backing off for ''
              @ duration_string (round_second (recovery_wait ss s now)) @ '' after prior failure''))
            else perform_recovery h cfg ss s }) })"

text \<open>A stale path is always reported; what the recovery did is only in the text.\<close>

definition handle_stale_path :: "'s host \<Rightarrow> resolver_config \<Rightarrow> session_settings \<Rightarrow> string \<Rightarrow> string \<Rightarrow> string \<Rightarrow> ('s, csi_error) node_op" where
  "handle_stale_path h cfg ss volume path cause = do {
     s \<leftarrow> load_session h volume;
     (case s of
        Some (Some s) \<Rightarrow>
          if \<not> ss_gate ss
          then State_Monad.return (FailedPrecondition, ''stale local disk mount detected at '' @ path @ '': '' @ cause @ ''; local RWO stale mount recovery is disabled'')
          else do {
            e \<leftarrow> recover_session h cfg ss s;
            State_Monad.return (FailedPrecondition, case e of
                Some m \<Rightarrow> ''stale local disk mount detected at '' @ path @ '' and recovery failed: '' @ m
              | None \<Rightarrow> ''stale local disk mount detected at '' @ path @ ''; recovery completed and kubelet should retry stats'') }
      | _ \<Rightarrow> State_Monad.return (FailedPrecondition, ''stale local disk mount detected at '' @ path @ '': '' @ cause @ ''; restage the volume to recover'')) }"

section \<open>The mount table\<close>

text \<open>The entries of other paths.\<close>

definition elsewhere :: "string set \<Rightarrow> mount_point list \<Rightarrow> mount_point list" where
  "elsewhere P ms = filter (\<lambda>m. mp_path m \<notin> P) ms"

lemma elsewhere_mono: "elsewhere P ms = elsewhere P ms' \<Longrightarrow> P \<subseteq> P' \<Longrightarrow> elsewhere P' ms = elsewhere P' ms'"
proof -
  assume "elsewhere P ms = elsewhere P ms'" "P \<subseteq> P'"
  moreover have "elsewhere P' ms = elsewhere P' (elsewhere P ms)" if "P \<subseteq> P'" for ms
    using that unfolding elsewhere_def filter_filter by (intro filter_cong) auto
  ultimately show ?thesis by metis
qed

lemma mounted_at_append: "mounted_at (new @ ms) p = (case mounted_at new p of Some m \<Rightarrow> Some m | None \<Rightarrow> mounted_at ms p)"
  by (induction new) (auto simp: mounted_at_def)

lemma mounted_at_None: "mounted_at ms p = None \<longleftrightarrow> p \<notin> mp_path ` set ms"
  by (auto simp: mounted_at_def find_None_iff)

lemma mounted_at_elsewhere: "p \<notin> P \<Longrightarrow> mounted_at (elsewhere P ms) p = mounted_at ms p"
  by (induction ms) (auto simp: mounted_at_def elsewhere_def)

text \<open>Operations that move the host only along a relation, whatever else they do.\<close>

definition along :: "('s \<Rightarrow> 's \<Rightarrow> bool) \<Rightarrow> ('s, 'a) node_op \<Rightarrow> bool" where
  "along R m \<longleftrightarrow> (\<forall>w. wp m (\<lambda>_ w'. R (nw_out w) (nw_out w')) w)"

named_theorems along_intros

lemma along_still: "still R m \<Longrightarrow> along R m"
  unfolding along_def by (intro allI, erule still_wp) (simp add: unmoved_def)

lemma along_caches: "caches R volume m \<Longrightarrow> along R m"
  unfolding along_def by (intro allI, erule caches_wp) (simp add: cache_only_def)

lemma along_bind [along_intros]: "transp R \<Longrightarrow> along R m \<Longrightarrow> (\<And>a. along R (f a)) \<Longrightarrow> along R (State_Monad.bind m f)"
  unfolding along_def by (intro allI wp_sequence [where P = "\<lambda>w w'. R (nw_out w) (nw_out w')"]) (auto elim: transpE)

lemma along_return [along_intros]: "reflp R \<Longrightarrow> along R (State_Monad.return a)"
  by (simp add: along_def wp_simps reflp_def)

lemma along_if [along_intros]: "along R m \<Longrightarrow> along R m' \<Longrightarrow> along R (if b then m else m')" by simp

lemma along_option [along_intros]:
  "along R m \<Longrightarrow> (\<And>a. along R (f a)) \<Longrightarrow> along R (case x of None \<Rightarrow> m | Some a \<Rightarrow> f a)"
  by (simp split: option.split)

lemma along_sum [along_intros]:
  "(\<And>a. along R (f a)) \<Longrightarrow> (\<And>a. along R (g a)) \<Longrightarrow> along R (case x of Inl a \<Rightarrow> f a | Inr a \<Rightarrow> g a)"
  by (simp split: sum.split)

lemma along_state [along_intros]: "reflp R \<Longrightarrow> (\<And>w. nw_out (snd (f w)) = nw_out w) \<Longrightarrow> along R (State f)"
  by (simp add: along_def wp_def reflp_def case_prod_beta)

lemma along_host [along_intros]: "(\<And>s. R s (snd (f s))) \<Longrightarrow> along R (on_host f)"
  by (intro along_still still_intros)

lemma along_do [along_intros]: "(\<And>s. R s (f s)) \<Longrightarrow> along R (host_do f)"
  by (intro along_still still_intros)

lemma along_time [along_intros]: "reflp R \<Longrightarrow> along R (host_time h)"
  by (intro along_still still_intros)

lemma along_wp: "along R m \<Longrightarrow> (\<And>a w'. R (nw_out w) (nw_out w') \<Longrightarrow> Q a w') \<Longrightarrow> wp m Q w"
  unfolding along_def by (blast intro: wp_mono)

lemma wp_on_host: "wp (on_host f) Q w \<longleftrightarrow> Q (fst (f (nw_out w))) (w\<lparr>nw_out := snd (f (nw_out w))\<rparr>)"
  by (simp add: on_host_def wp_simps case_prod_beta)

text \<open>Calls that keep the table, or the part of it that lies elsewhere.\<close>

definition same_mounts :: "('s \<Rightarrow> mount_point list) \<Rightarrow> 's \<Rightarrow> 's \<Rightarrow> bool" where
  "same_mounts mounts s s' \<longleftrightarrow> mounts s' = mounts s"

definition same_elsewhere :: "('s \<Rightarrow> mount_point list) \<Rightarrow> string set \<Rightarrow> 's \<Rightarrow> 's \<Rightarrow> bool" where
  "same_elsewhere mounts P s s' \<longleftrightarrow> elsewhere P (mounts s') = elsewhere P (mounts s)"

lemma same_mounts_order [simp, intro]: "reflp (same_mounts mounts)" "transp (same_mounts mounts)"
  "reflp (same_elsewhere mounts P)" "transp (same_elsewhere mounts P)"
  by (auto simp: same_mounts_def same_elsewhere_def reflp_def transp_def)

lemma along_weaken: "along (same_mounts mounts) m \<Longrightarrow> along (same_elsewhere mounts P) m"
  by (subst along_def, intro allI, erule along_wp) (simp add: same_mounts_def same_elsewhere_def)

lemma quiet_same: "host_mounts h mounts \<Longrightarrow> quiet h (same_mounts mounts)"
  using quiet_mounts [of h mounts] by (simp add: same_mounts_def [abs_def])

lemma same_calls:
  assumes "host_mounts h mounts"
  shows "same_mounts mounts s (snd (ho_list h s))" "same_mounts mounts s (snd (ho_stat h p s))" "same_mounts mounts s (snd (ho_mkdir_all h p s))"
    "same_mounts mounts s (snd (ho_create h p s))" "same_mounts mounts s (snd (ho_session_write h s))" "same_mounts mounts s (snd (ho_session_read h s))"
    "same_mounts mounts s (snd (ho_pod_exists h p s))" "same_mounts mounts s (snd (ho_statfs h p s))" "same_mounts mounts s (snd (ho_blockdev h p s))"
    "same_mounts mounts s (ho_sleep h d s)" "same_mounts mounts s (snd (ho_resize h v p s))"
  using assms by (simp_all add: host_mounts_def same_mounts_def)

lemma elsewhere_calls:
  assumes "host_mounts h mounts" "p \<in> P"
  shows "same_elsewhere mounts P s (snd (ho_format_mount h d p fs fl s))" "same_elsewhere mounts P s (snd (ho_mount h d p fs fl s))"
    "same_elsewhere mounts P s (snd (ho_cleanup h p s))"
proof -
  have "elsewhere P (m # ms) = elsewhere P ms" if "mp_path m = p" for m ms using that assms(2) by (simp add: elsewhere_def)
  then show "same_elsewhere mounts P s (snd (ho_format_mount h d p fs fl s))" "same_elsewhere mounts P s (snd (ho_mount h d p fs fl s))"
    using assms(1) unfolding host_mounts_def same_elsewhere_def by metis+
  have "elsewhere {p} (mounts (snd (ho_cleanup h p s))) = elsewhere {p} (mounts s)"
    using assms(1) unfolding host_mounts_def elsewhere_def by (cases "fst (ho_cleanup h p s)") simp_all
  then show "same_elsewhere mounts P s (snd (ho_cleanup h p s))"
    unfolding same_elsewhere_def by (rule elsewhere_mono) (use assms(2) in simp)
qed

lemma along_sessions:
  assumes "host_mounts h mounts"
  shows "along (same_mounts mounts) (save_session h s)" "along (same_mounts mounts) (load_session h v)" "along (same_mounts mounts) (delete_session h v)"
  unfolding save_session_def load_session_def delete_session_def
  by (intro along_intros same_calls [OF assms] same_mounts_order; simp)+

lemma along_updates:
  assumes "host_mounts h mounts"
  shows "along (same_mounts mounts) (record_stage_session h v p ctx d fs fl)" "along (same_mounts mounts) (update_published_target h v t fl)"
    "along (same_mounts mounts) (remove_published_target h v t)" "along (same_mounts mounts) (recovery_failure h s m)"
  unfolding record_stage_session_def update_published_target_def remove_published_target_def recovery_failure_def
  by (intro along_intros along_sessions [OF assms] same_mounts_order)+

section \<open>What a recovery does\<close>

definition session_paths :: "local_session \<Rightarrow> string set" where
  "session_paths s = insert (ls_staging s) (pt_path ` set (ls_targets s))"

lemma along_cleanup_targets:
  assumes "host_mounts h mounts" "pt_path ` set ts \<subseteq> P"
  shows "along (same_elsewhere mounts P) (cleanup_targets h ts)"
  using assms(2)
proof (induction ts)
  case (Cons t ts)
  then show ?case unfolding cleanup_targets.simps
    by (intro along_intros elsewhere_calls [OF assms(1)] same_mounts_order) auto
qed (simp add: along_return)

lemma along_rebind:
  assumes "host_mounts h mounts" "pt_path ` set ts \<subseteq> P"
  shows "along (same_elsewhere mounts P) (rebind_targets h staging ts)"
  using assms(2)
proof (induction ts)
  case (Cons t ts)
  then show ?case unfolding rebind_targets.simps
    by (intro along_bind along_option along_return along_host elsewhere_calls [OF assms(1)] same_mounts_order
        along_weaken [OF along_host] same_calls [OF assms(1)]) auto
qed (simp add: along_return)

lemma along_remount:
  assumes "host_mounts h mounts"
  shows "along (same_elsewhere mounts (session_paths s)) (remount_session h s d)"
  unfolding remount_session_def
  by (intro along_bind along_option along_return along_cleanup_targets [OF assms] along_rebind [OF assms] same_mounts_order
      along_host elsewhere_calls [OF assms] along_weaken [OF along_host] same_calls [OF assms])
    (auto simp: session_paths_def)

text \<open>The calls that change the table.\<close>

lemma mount_effects:
  assumes "host_mounts h mounts"
  shows "fst (ho_mount h d p fs fl s) = None \<Longrightarrow> \<exists>m. mp_path m = p \<and> mounts (snd (ho_mount h d p fs fl s)) = m # mounts s"
    "fst (ho_format_mount h d p fs fl s) = None \<Longrightarrow> \<exists>m. mp_device m = d \<and> mp_path m = p \<and> mounts (snd (ho_format_mount h d p fs fl s)) = m # mounts s"
  using assms unfolding host_mounts_def by simp_all

lemma wp_mount:
  assumes "host_mounts h mounts"
    and "\<And>m w'. mp_path m = p \<Longrightarrow> mounts (nw_out w') = m # mounts (nw_out w) \<Longrightarrow> Q None w'" "\<And>x w'. mounts (nw_out w') = mounts (nw_out w) \<Longrightarrow> Q (Some x) w'"
  shows "wp (on_host (ho_mount h d p fs fl)) Q w"
proof (cases "fst (ho_mount h d p fs fl (nw_out w))")
  case None
  then obtain m where "mp_path m = p" "mounts (snd (ho_mount h d p fs fl (nw_out w))) = m # mounts (nw_out w)"
    using mount_effects(1) [OF assms(1)] by blast
  then show ?thesis using None assms(2) by (simp add: wp_on_host)
next
  case (Some x)
  then have "mounts (snd (ho_mount h d p fs fl (nw_out w))) = mounts (nw_out w)" using assms(1) unfolding host_mounts_def by simp
  then show ?thesis using Some assms(3) by (simp add: wp_on_host)
qed

lemma wp_format_mount:
  assumes "host_mounts h mounts"
    and "\<And>m w'. mp_device m = d \<Longrightarrow> mp_path m = p \<Longrightarrow> mounts (nw_out w') = m # mounts (nw_out w) \<Longrightarrow> Q None w'"
    and "\<And>x w'. mounts (nw_out w') = mounts (nw_out w) \<Longrightarrow> Q (Some x) w'"
  shows "wp (on_host (ho_format_mount h d p fs fl)) Q w"
proof (cases "fst (ho_format_mount h d p fs fl (nw_out w))")
  case None
  then obtain m where "mp_device m = d" "mp_path m = p" "mounts (snd (ho_format_mount h d p fs fl (nw_out w))) = m # mounts (nw_out w)"
    using mount_effects(2) [OF assms(1)] by blast
  then show ?thesis using None assms(2) by (simp add: wp_on_host)
next
  case (Some x)
  then have "mounts (snd (ho_format_mount h d p fs fl (nw_out w))) = mounts (nw_out w)" using assms(1) unfolding host_mounts_def by simp
  then show ?thesis using Some assms(3) by (simp add: wp_on_host)
qed

lemma wp_same:
  assumes "\<And>s. same_mounts mounts s (snd (f s))" "\<And>a w'. mounts (nw_out w') = mounts (nw_out w) \<Longrightarrow> Q a w'"
  shows "wp (on_host f) Q w"
  using assms by (simp add: wp_on_host same_mounts_def)

text \<open>Binding the targets puts one entry for each of them in front.\<close>

lemma rebind_wp:
  assumes "host_mounts h mounts"
  shows "wp (rebind_targets h staging ts)
    (\<lambda>r w'. r = None \<longrightarrow> (\<exists>new. mounts (nw_out w') = new @ mounts (nw_out w) \<and> mp_path ` set new = pt_path ` set ts)) w"
proof (induction ts arbitrary: w)
  case (Cons t ts)
  have "wp (rebind_targets h staging ts) (\<lambda>r w'. r = None \<longrightarrow>
      (\<exists>new. mounts (nw_out w') = new @ mounts (nw_out w) \<and> mp_path ` set new = pt_path ` set (t # ts))) w1"
    if m: "mp_path m = pt_path t" "mounts (nw_out w1) = m # mounts (nw_out w)" for m w1
  proof (rule wp_mono [OF Cons.IH], intro impI, goal_cases)
    case (1 r w')
    then obtain new where "mounts (nw_out w') = (new @ [m]) @ mounts (nw_out w)" "mp_path ` set new = pt_path ` set ts" using m by auto
    then show ?case using m by (intro exI [of _ "new @ [m]"]) auto
  qed
  then show ?case unfolding rebind_targets.simps
    by (intro wp_bindI wp_same [where f = "ho_mkdir_all h _", OF same_calls(3) [OF assms]] wp_optionI wp_returnI wp_mount [OF assms]) auto
qed (simp add: wp_simps)

lemma remount_wp:
  assumes hm: "host_mounts h mounts" and apart: "ls_staging s \<notin> pt_path ` set (ls_targets s)"
  shows "wp (remount_session h s d) (\<lambda>r w'. r = None \<longrightarrow>
    (\<exists>m. mounted_at (mounts (nw_out w')) (ls_staging s) = Some m \<and> mp_device m = d) \<and>
    (\<forall>t \<in> set (ls_targets s). mounted_at (mounts (nw_out w')) (pt_path t) \<noteq> None)) w"
proof -
  have "wp (rebind_targets h (ls_staging s) (ls_targets s)) (\<lambda>r w'. r = None \<longrightarrow>
    (\<exists>m. mounted_at (mounts (nw_out w')) (ls_staging s) = Some m \<and> mp_device m = d) \<and>
    (\<forall>t \<in> set (ls_targets s). mounted_at (mounts (nw_out w')) (pt_path t) \<noteq> None)) w1"
    if m: "mp_device m = d" "mp_path m = ls_staging s" "mounts (nw_out w1) = m # ms" for m ms w1
  proof (rule wp_mono [OF rebind_wp [OF hm]], intro impI, goal_cases)
    case (1 r w')
    then obtain new where new: "mounts (nw_out w') = new @ m # ms" "mp_path ` set new = pt_path ` set (ls_targets s)" using m by auto
    then have "mounted_at new (ls_staging s) = None" using apart by (simp add: mounted_at_None)
    moreover have "mounted_at (m # ms) (ls_staging s) = Some m" using m by (simp add: mounted_at_def)
    moreover have "mounted_at (new @ m # ms) (pt_path t) \<noteq> None" if "t \<in> set (ls_targets s)" for t
      using new that by (simp add: mounted_at_None image_Un)
    ultimately show ?case using new m by (simp add: mounted_at_append)
  qed
  then show ?thesis unfolding remount_session_def
    by (intro wp_bindI wp_optionI wp_returnI along_wp [OF along_cleanup_targets [OF hm subset_UNIV]] wp_format_mount [OF hm]
        wp_same [where f = "ho_mkdir_all h _", OF same_calls(3) [OF hm]] along_wp [OF along_host [where R = "\<lambda>_ _. True"]]) auto
qed

lemma caches_resolve_path: "quiet h R \<Longrightarrow> caches R volume (resolve_path h cfg volume name ctx timeout)"
  unfolding resolve_path_def by (intro caches_bind caches_resolve caches_still [OF still_return]) (auto simp: quiet_def)

lemma caches_sum: "(\<And>a. caches R v (f a)) \<Longrightarrow> (\<And>a. caches R v (g a)) \<Longrightarrow> caches R v (case x of Inl a \<Rightarrow> f a | Inr a \<Rightarrow> g a)"
  by (simp split: sum.split)

lemma caches_recovery_device:
  assumes "quiet h R" shows "caches R (ls_volume s) (recovery_device h cfg ss s)"
  unfolding recovery_device_def Let_def
  by (intro caches_bind caches_sum caches_if caches_resolve_path still_matches [THEN caches_still] still_return [THEN caches_still]
      quiet_calls [OF assms] assms)

lemma recovery_device_wp:
  "wp (recovery_device h cfg ss s) (\<lambda>r w'. \<forall>d. r = Inr d \<longrightarrow> ls_serial s \<noteq> [] \<longrightarrow> serial_seen h d (ls_serial s)) w"
proof -
  have "quiet h (\<lambda>_ _. True)" by (simp add: quiet_def reflp_def transp_def)
  note c = caches_resolve_path [OF this]
  show ?thesis unfolding recovery_device_def Let_def
    by (intro wp_bindI caches_wp [OF c] wp_case_sum wp_case_if wp_returnI wp_matches) auto
qed

text \<open>Only saving the session changes the files.\<close>

lemma quiet_any [simp]: "quiet h (\<lambda>_ _. True)" by (simp add: quiet_def reflp_def transp_def)

lemma caches_remount: "caches (\<lambda>_ _. True) v (remount_session h s d)"
proof -
  have r: "reflp (\<lambda>_ _. True)" "transp (\<lambda>_ _. True)" by (simp_all add: reflp_def transp_def)
  have "caches (\<lambda>_ _. True) v (cleanup_targets h ts)" for ts
    by (induction ts) (auto intro!: caches_bind caches_option caches_still [OF still_return] caches_still [OF still_host] r)
  moreover have "caches (\<lambda>_ _. True) v (rebind_targets h p ts)" for p ts
    by (induction ts) (auto intro!: caches_bind caches_option caches_still [OF still_return] caches_still [OF still_host] r)
  ultimately show ?thesis unfolding remount_session_def
    by (intro caches_bind caches_option caches_still [OF still_return] caches_still [OF still_host] r TrueI)
qed

definition counted :: "local_session \<Rightarrow> 's node_world \<Rightarrow> 's node_world \<Rightarrow> bool" where
  "counted s w w' \<longleftrightarrow> nw_sessions w' = nw_sessions w \<or>
     (\<exists>s'. nw_sessions w' = (nw_sessions w)(trim_space (ls_volume s) \<mapsto> s') \<and> ls_attempts s' = ls_attempts s + 1)"

lemma save_wp: "wp (save_session h s) (\<lambda>_ w'. nw_sessions w' = nw_sessions w \<or>
    nw_sessions w' = (nw_sessions w)(trim_space (ls_volume s) \<mapsto> normalize_session s)) w"
  by (auto simp: save_session_def wp_simps on_host_def case_prod_beta)

lemma perform_recovery_counted: "wp (perform_recovery h cfg ss s) (\<lambda>_. counted s w) w"
proof -
  have fail: "wp (recovery_failure h s m) (\<lambda>_. counted s w) w1" if "nw_sessions w1 = nw_sessions w" for m w1
    unfolding recovery_failure_def using that
    by (intro wp_bindI wp_host_time [THEN iffD2] wp_mono [OF save_wp] wp_returnI) (auto simp: counted_def normalize_session_def)
  show ?thesis unfolding perform_recovery_def
    by (intro wp_bindI caches_wp [OF caches_recovery_device [OF quiet_any]] caches_wp [OF caches_remount] wp_case_sum wp_optionI fail
        wp_host_time [THEN iffD2] wp_mono [OF save_wp] wp_returnI) (auto simp: cache_only_def counted_def normalize_session_def)
qed

lemma perform_recovery_along:
  assumes "host_mounts h mounts"
  shows "along (same_elsewhere mounts (session_paths s)) (perform_recovery h cfg ss s)"
  unfolding perform_recovery_def
  by (intro along_bind along_sum along_option along_return along_time along_remount [OF assms] same_mounts_order
      along_weaken [OF along_updates(4) [OF assms]] along_weaken [OF along_sessions(1) [OF assms]]
      along_weaken [OF along_caches [OF caches_recovery_device [OF quiet_same [OF assms]]]])

lemma perform_recovery_wp:
  assumes hm: "host_mounts h mounts" and apart: "ls_staging s \<notin> pt_path ` set (ls_targets s)"
  shows "wp (perform_recovery h cfg ss s) (\<lambda>r w'. r = None \<longrightarrow>
    (\<exists>m. mounted_at (mounts (nw_out w')) (ls_staging s) = Some m \<and> (ls_serial s \<noteq> [] \<longrightarrow> serial_seen h (mp_device m) (ls_serial s))) \<and>
    (\<forall>t \<in> set (ls_targets s). mounted_at (mounts (nw_out w')) (pt_path t) \<noteq> None)) w"
  unfolding perform_recovery_def
  by (intro wp_bindI wp_mono [OF recovery_device_wp] wp_mono [OF remount_wp [OF hm apart]] wp_case_sum wp_optionI
      wp_host_time [THEN iffD2] along_wp [OF along_sessions(1) [OF hm]] wp_returnI)
    (auto simp: same_mounts_def recovery_failure_def wp_simps intro: along_wp [OF along_sessions(1) [OF hm]])

text \<open>When a recovery may not start: it is switched off, its attempts are used up, or a pod that uses the
  volume is there.\<close>

definition recovery_barred :: "'s host \<Rightarrow> session_settings \<Rightarrow> local_session \<Rightarrow> bool" where
  "recovery_barred h ss s \<longleftrightarrow> \<not> ss_gate ss \<or> positive_default (ss_max_attempts ss) 3 \<le> ls_attempts s \<or>
     ss_active_pods ss \<noteq> Some True \<and>
     (\<exists>t \<in> set (ls_targets s). pod_uid_of_path (pt_path t) \<noteq> [] \<and> (\<forall>x. fst (ho_pod_exists h (pod_uid_of_path (pt_path t)) x)))"

lemma still_active_target:
  assumes "host_mounts h mounts" shows "still (same_mounts mounts) (active_target h ts)"
proof (induction ts)
  case (Cons t ts)
  then show ?case unfolding active_target.simps Let_def
    by (intro still_if still_bind still_host still_return same_mounts_order same_calls [OF assms])
qed (simp add: still_return)

lemma active_target_found:
  "t \<in> set ts \<Longrightarrow> pod_uid_of_path (pt_path t) \<noteq> [] \<Longrightarrow> (\<And>x. fst (ho_pod_exists h (pod_uid_of_path (pt_path t)) x)) \<Longrightarrow>
   wp (active_target h ts) (\<lambda>r _. r \<noteq> None) w"
proof (induction ts arbitrary: w)
  case (Cons u ts)
  then have "wp (active_target h ts) (\<lambda>r _. r \<noteq> None) w1" if "u \<noteq> t" for w1 using that by auto
  then show ?case using Cons.prems unfolding active_target.simps Let_def
    by (cases "u = t") (auto intro!: wp_bindI simp: wp_on_host wp_simps)
qed simp

lemma recover_session_barred:
  assumes hm: "host_mounts h mounts" and barred: "recovery_barred h ss s"
  shows "wp (recover_session h cfg ss s) (\<lambda>r w'. r \<noteq> None \<and> unmoved (same_mounts mounts) w w') w"
proof -
  let ?check = "if ss_active_pods ss = Some True then State_Monad.return None else active_target h (ls_targets s)"
  have still: "still (same_mounts mounts) ?check"
    by (intro still_if still_return same_mounts_order still_active_target [OF hm])
  have found: "wp ?check (\<lambda>r w'. r = None \<longrightarrow> positive_default (ss_max_attempts ss) 3 \<le> ls_attempts s) w" if gate: "ss_gate ss"
  proof (cases "positive_default (ss_max_attempts ss) 3 \<le> ls_attempts s")
    case True
    then show ?thesis by (intro still_wp [OF still]) simp
  next
    case False
    then obtain t where "ss_active_pods ss \<noteq> Some True" "t \<in> set (ls_targets s)" "pod_uid_of_path (pt_path t) \<noteq> []"
      "\<And>x. fst (ho_pod_exists h (pod_uid_of_path (pt_path t)) x)" using barred gate by (auto simp: recovery_barred_def)
    then show ?thesis by (auto intro: wp_mono [OF active_target_found])
  qed
  have "wp ?check (\<lambda>r w'. (r = None \<longrightarrow> positive_default (ss_max_attempts ss) 3 \<le> ls_attempts s) \<and> unmoved (same_mounts mounts) w w') w" if "ss_gate ss"
    by (rule wp_conj [OF found [OF that] still_wp [OF still]])
  then show ?thesis unfolding recover_session_def
    by (intro wp_case_if wp_returnI wp_bindI) (auto simp: wp_simps unmoved_def same_mounts_def intro!: wp_optionI elim!: wp_mono split: option.splits)
qed

lemma recover_session_wp:
  assumes hm: "host_mounts h mounts"
    and "\<And>w1. unmoved (same_mounts mounts) w w1 \<Longrightarrow> wp (perform_recovery h cfg ss s) Q w1" "\<And>m w1. unmoved (same_mounts mounts) w w1 \<Longrightarrow> Q (Some m) w1"
  shows "wp (recover_session h cfg ss s) Q w"
proof -
  have "unmoved (same_mounts mounts) w w" by (simp add: unmoved_def same_mounts_def)
  then show ?thesis unfolding recover_session_def using assms(2,3)
    by (intro wp_case_if wp_returnI wp_bindI still_wp [OF still_active_target [OF hm]] wp_optionI wp_host_time [THEN iffD2]) auto
qed


section \<open>An example host with a mount table\<close>

definition table_host :: "(int \<times> mount_point list) host" where
  "table_host = \<lparr>ho_now = fst, ho_sleep = (\<lambda>d s. (fst s + d, snd s)),
     ho_stat = (\<lambda>p s. (if p = ''/dev/vdb'' then IsDevice else if p \<in> set [''/s'', ''/t''] then IsDirectory else NotExist ''no such file or directory'', s)),
     ho_glob = (\<lambda>p s. (Some [], s)), ho_symlink = (\<lambda>p s. (None, s)), ho_readlink = (\<lambda>p s. (None, s)), ho_udev = (\<lambda>p s. (None, s)),
     ho_lsblk = (\<lambda>p s. (None, s)), ho_settle = (\<lambda>n s. (fst s + 1, snd s)), ho_rescan = (\<lambda>p s. s), ho_list = (\<lambda>s. (Inr (snd s), s)), ho_mkdir_all = (\<lambda>p s. (None, s)),
     ho_create = (\<lambda>p s. (None, s)),
     ho_format_mount = (\<lambda>d p f fl s. (None, (fst s, \<lparr>mp_device = d, mp_path = p, mp_type = f, mp_opts = fl\<rparr> # snd s))),
     ho_mount = (\<lambda>d p f fl s. (None, (fst s, \<lparr>mp_device = d, mp_path = p, mp_type = f, mp_opts = fl\<rparr> # snd s))),
     ho_cleanup = (\<lambda>p s. (None, (fst s, filter (\<lambda>m. mp_path m \<noteq> p) (snd s)))),
     ho_statfs = (\<lambda>p s. (Inr \<lparr>fs_blocks = 262144, fs_bsize = 4096, fs_bavail = 200000, fs_bfree = 210000, fs_files = 65536, fs_ffree = 65000\<rparr>, s)),
     ho_blockdev = (\<lambda>p s. (Inr ''1073741824'', s)),
     ho_resize = (\<lambda>d p s. (Inr True, s)), ho_session_write = (\<lambda>s. (False, s)), ho_session_read = (\<lambda>s. (False, s)), ho_pod_exists = (\<lambda>p s. (False, s))\<rparr>"

definition table_node :: "(int \<times> mount_point list) node_world" where
  "table_node = \<lparr>nw_cache = Map.empty, nw_sessions = Map.empty, nw_tracker = nw_tracker sample_node, nw_out = (0, [])\<rparr>"

definition sample_session :: local_session where
  "sample_session = (stage_session ''pvc'' ''/s'' [''volumeName'' \<mapsto> ''sdb''] ''/dev/vdc'' ''ext4'' [])
     \<lparr>ls_targets := [\<lparr>pt_path = ''/t'', pt_options = [''bind'']\<rparr>]\<rparr>"

definition sample_session_settings :: session_settings where
  "sample_session_settings = \<lparr>ss_gate = True, ss_active_pods = None, ss_max_attempts = None, ss_backoff = None, ss_discovery = None\<rparr>"

lemma table_mounts: "host_mounts table_host snd"
  by (simp add: host_mounts_def table_host_def)

lemma table_clock: "host_clock table_host" by (simp add: host_clock_def table_host_def)


section \<open>Sessions survive a restart\<close>

definition clean_strings :: "string list \<Rightarrow> bool" where
  "clean_strings xs \<longleftrightarrow> distinct xs \<and> (\<forall>x \<in> set xs. trim_space x = x \<and> x \<noteq> [])"

lemma unique_strings_snoc:
  "unique_strings (xs @ [x]) = (let t = trim_space x; u = unique_strings xs in if t = [] \<or> t \<in> set u then u else u @ [t])"
  by (simp add: unique_strings_def Let_def)

lemma unique_strings_clean: "clean_strings (unique_strings xs)"
  by (induction xs rule: rev_induct) (auto simp: clean_strings_def unique_strings_snoc Let_def, simp_all add: unique_strings_def)

lemma unique_strings_id: "clean_strings xs \<Longrightarrow> unique_strings xs = xs"
  by (induction xs rule: rev_induct) (auto simp: clean_strings_def unique_strings_snoc Let_def, simp add: unique_strings_def)

definition clean_targets :: "published_target list \<Rightarrow> bool" where
  "clean_targets ts \<longleftrightarrow> distinct (map pt_path ts) \<and>
     (\<forall>t \<in> set ts. trim_space (pt_path t) = pt_path t \<and> pt_path t \<noteq> [] \<and> clean_strings (pt_options t))"

lemma normalize_step_clean: "clean_targets acc \<Longrightarrow> clean_targets (normalize_step acc t)"
proof -
  assume acc: "clean_targets acc"
  have "map (\<lambda>u. pt_path (if pt_path u = p then \<lparr>pt_path = p, pt_options = q\<rparr> else u)) acc = map pt_path acc" for p q by simp
  then show ?thesis using acc unique_strings_clean
    by (auto simp: clean_targets_def normalize_step_def Let_def comp_def simp del: map_eq_conv)
qed

lemma normalize_targets_clean: "clean_targets (normalize_targets ts)"
  unfolding normalize_targets_def
  by (induction ts rule: rev_induct) (simp_all add: normalize_step_clean, simp add: clean_targets_def)

lemma normalize_targets_id: "clean_targets ts \<Longrightarrow> normalize_targets ts = ts"
proof (induction ts rule: rev_induct)
  case (snoc t ts)
  then have "normalize_targets ts = ts" "clean_strings (pt_options t)" "pt_path t \<notin> pt_path ` set ts" "trim_space (pt_path t) = pt_path t" "pt_path t \<noteq> []"
    by (auto simp: clean_targets_def)
  then show ?case by (simp add: normalize_targets_def normalize_step_def Let_def unique_strings_id)
qed (simp add: normalize_targets_def)

lemma normalize_session_idem: "normalize_session (normalize_session s) = normalize_session s"
  by (simp add: normalize_session_def unique_strings_id [OF unique_strings_clean] normalize_targets_id [OF normalize_targets_clean])

text \<open>A session that was written is read back: after a volume is staged its session has the device, the
  serial number and the mount options of the request, counts no recoveries, and still lists
  the targets that were published before, each once.\<close>

lemma stage_session_roundtrip:
  assumes "\<And>x. \<not> fst (ho_session_write h x)" "\<And>x. \<not> fst (ho_session_read h x)" "trim_space volume \<noteq> []"
  shows "\<exists>s. fst (run_state (do { record_stage_session h volume staging ctx device fs options; load_session h volume }) w) = Some (Some s) \<and>
    ls_staging s = staging \<and> ls_device s = device \<and> ls_serial s = annotation ctx ''deviceSerial'' \<and> ls_fs s = fs \<and>
    ls_options s = unique_strings options \<and> ls_attempts s = 0 \<and> ls_recovered_at s = None \<and>
    ls_targets s = (case nw_sessions w (trim_space volume) of None \<Rightarrow> [] | Some old \<Rightarrow> normalize_targets (ls_targets old)) \<and>
    distinct (map pt_path (ls_targets s))"
proof -
  have "distinct (map pt_path (normalize_targets ts))" for ts using normalize_targets_clean by (simp add: clean_targets_def)
  moreover have "normalize_targets (normalize_targets ts) = normalize_targets ts" for ts by (rule normalize_targets_id [OF normalize_targets_clean])
  moreover have "unique_strings (unique_strings xs) = unique_strings xs" for xs by (rule unique_strings_id [OF unique_strings_clean])
  ultimately have "wp (do { record_stage_session h volume staging ctx device fs options; load_session h volume })
    (\<lambda>r _. \<exists>s. r = Some (Some s) \<and>
    ls_staging s = staging \<and> ls_device s = device \<and> ls_serial s = annotation ctx ''deviceSerial'' \<and> ls_fs s = fs \<and>
    ls_options s = unique_strings options \<and> ls_attempts s = 0 \<and> ls_recovered_at s = None \<and>
    ls_targets s = (case nw_sessions w (trim_space volume) of None \<Rightarrow> [] | Some old \<Rightarrow> normalize_targets (ls_targets old)) \<and>
    distinct (map pt_path (ls_targets s))) w"
    unfolding record_stage_session_def load_session_def save_session_def
    using assms by (simp add: wp_bind_fun wp_on_host wp_simps stage_session_def normalize_session_def normalize_targets_def split: option.split)
  then show ?thesis by (simp add: wp_def case_prod_beta)
qed

lemma stage_session_roundtrip_witness:
  "\<exists>s. fst (run_state (do { record_stage_session table_host ''pvc'' ''/s'' [''deviceSerial'' \<mapsto> ''abc''] ''/dev/vdb'' ''ext4'' [''ro''];
       load_session table_host ''pvc'' }) table_node) = Some (Some s) \<and> ls_device s = ''/dev/vdb'' \<and> ls_serial s = ''abc''"
proof -
  have "annotation [''deviceSerial'' \<mapsto> ''abc''] ''deviceSerial'' = ''abc''" "trim_space ''pvc'' \<noteq> []" by code_simp+
  moreover have "\<not> fst (ho_session_write table_host x)" "\<not> fst (ho_session_read table_host x)" for x by (simp_all add: table_host_def)
  ultimately show ?thesis
    using stage_session_roundtrip [of table_host "''pvc''" "''/s''" "[''deviceSerial'' \<mapsto> ''abc'']" "''/dev/vdb''" "''ext4''" "[''ro'']" table_node]
    by metis
qed

end
