(* ===== verification/Node_Server.thy ===== *)
theory Node_Server
  imports Node_Sessions
begin

text \<open>
  The calls a node plugin serves (\<open>driver/nodeserver.go\<close>): staging mounts the device of a volume at the
  staging path, publishing binds it to the path of a pod, and the calls that undo them, grow
  the filesystem and measure it.  Volumes on a shared filesystem take another way, which is a
  parameter here (\<open>shared_node\<close>).  Metrics, events and log lines are left out.
\<close>

section \<open>Requests and parameters\<close>

datatype access_type = BlockAccess | MountAccess (mount_fs: string) (mount_flags: "string list") | NoAccess

record node_capability =
  nc_access :: access_type
  nc_mode :: "csi_access option"

record stage_request =
  sg_volume :: string
  sg_staging :: string
  sg_capability :: "node_capability option"
  sg_context :: str_map

record node_publish_request =
  np_volume :: string
  np_staging :: string
  np_target :: string
  np_capability :: "node_capability option"
  np_context :: str_map
  np_readonly :: bool

record expand_request =
  xp_volume :: string
  xp_path :: string
  xp_staging :: string
  xp_required :: "int option"
  xp_access :: "access_type option"

record 's shared_node =
  sn_stage :: "stage_request \<Rightarrow> ('s, csi_error + unit) node_op"
  sn_unstage :: "string \<Rightarrow> string \<Rightarrow> ('s, csi_error + unit) node_op"
  sn_publish :: "node_publish_request \<Rightarrow> ('s, csi_error + unit) node_op"
  sn_orphaned :: "string \<Rightarrow> string \<Rightarrow> string \<Rightarrow> ('s, bool) node_op"
  sn_forget :: "string \<Rightarrow> string \<Rightarrow> ('s, unit) node_op"
  sn_disconnected :: "errno \<Rightarrow> string \<Rightarrow> bool"
  sn_reconnect :: "string \<Rightarrow> string \<Rightarrow> string \<Rightarrow> ('s, csi_error) node_op"

record 's node_env =
  ne_host :: "'s host"
  ne_reports :: "'s report_store"
  ne_kube :: "'s kube_api"
  ne_shared :: "'s shared_node"

record node_settings =
  nn_node :: string
  nn_kube :: bool
  nn_recovery :: recovery_settings
  nn_session :: session_settings
  nn_resolver :: resolver_config
  nn_expand_timeout :: "int option"
  nn_expand_retry :: "int option"
  nn_expand_tolerance :: "int option"
  nn_linux :: bool

definition is_shared_request :: "string \<Rightarrow> str_map \<Rightarrow> bool" where
  "is_shared_request volume ctx \<longleftrightarrow> is_shared_volume_id volume \<or> annotation ctx ''shareBackend'' \<noteq> []"

section \<open>Mount points\<close>

record mount_check =
  mc_target :: bool
  mc_device :: bool
  mc_fs :: bool
  mc_supported :: bool
  mc_compatible :: bool

definition check_result :: "string \<Rightarrow> mount_point option \<Rightarrow> access_type \<Rightarrow> mount_check" where
  "check_result src entry access =
     \<lparr>mc_target = (entry \<noteq> None), mc_device = (case entry of None \<Rightarrow> False | Some m \<Rightarrow> mp_device m = src),
      mc_fs = (case access of MountAccess fs _ \<Rightarrow> fs = [] \<or> (case entry of None \<Rightarrow> [] | Some m \<Rightarrow> mp_type m) = fs | BlockAccess \<Rightarrow> True | NoAccess \<Rightarrow> False),
      mc_supported = (access \<noteq> NoAccess), mc_compatible = (access \<noteq> NoAccess)\<rparr>"

definition check_mount_point :: "'s host \<Rightarrow> string \<Rightarrow> string \<Rightarrow> access_type \<Rightarrow> ('s, string + mount_check) node_op" where
  "check_mount_point h src target access = do {
     ms \<leftarrow> on_host (ho_list h);
     State_Monad.return (case ms of
         Inl m \<Rightarrow> Inl (''failed to list mount points: '' @ m)
       | Inr ms \<Rightarrow> Inr (check_result src (mounted_at ms target) access)) }"

definition mounted_device_path :: "'s host \<Rightarrow> string \<Rightarrow> ('s, string + string) node_op" where
  "mounted_device_path h target = (if target = [] then State_Monad.return (Inl ''mount path is required'') else do {
     ms \<leftarrow> on_host (ho_list h);
     State_Monad.return (case ms of
         Inl m \<Rightarrow> Inl (''failed to list mount points: '' @ m)
       | Inr ms \<Rightarrow> (case mounted_at ms target of
             None \<Rightarrow> Inl (''mount point '' @ target @ '' was not found'')
           | Some mp \<Rightarrow> if mp_device mp = [] then Inl (''mount point '' @ target @ '' does not expose a backing device'') else Inr (mp_device mp))) })"

section \<open>Staging\<close>

definition publish_context_backend :: "str_map \<Rightarrow> string" where
  "publish_context_backend ctx = (if annotation ctx annotation_backend = [] then ''disk'' else annotation ctx annotation_backend)"

definition observe_latency :: "'s host \<Rightarrow> str_map \<Rightarrow> resolution \<Rightarrow> ('s, unit) node_op" where
  "observe_latency h ctx r = do {
     now \<leftarrow> host_time h;
     State (\<lambda>w. ((), if re_latency r \<le> 0 then w
       else w\<lparr>nw_tracker := observe now (normalize_observation_key ''device_resolution'' (publish_context_backend ctx) 0) (re_latency r) (nw_tracker w)\<rparr>)) }"

definition missing_device :: "'s node_env \<Rightarrow> node_settings \<Rightarrow> string \<Rightarrow> string \<Rightarrow> str_map \<Rightarrow> string \<Rightarrow> string \<Rightarrow> ('s, unit) node_op" where
  "missing_device e ns volume staging ctx name cause =
     host_do (record_device_missing (ne_reports e) (nn_kube ns) (ne_kube e) (ho_now (ne_host e)) (nn_recovery ns) (nn_node ns) volume name staging ctx cause)"

definition found_device :: "'s node_env \<Rightarrow> node_settings \<Rightarrow> string \<Rightarrow> ('s, unit) node_op" where
  "found_device e ns volume = host_do (clear_device_missing (ne_reports e) (nn_kube ns) (nn_node ns) volume)"

definition fs_or_default :: "access_type \<Rightarrow> string" where
  "fs_or_default access = (case access of MountAccess fs _ \<Rightarrow> if fs = [] then ''ext4'' else fs | _ \<Rightarrow> ''ext4'')"

definition flags_of :: "access_type \<Rightarrow> string list" where
  "flags_of access = (case access of MountAccess _ flags \<Rightarrow> flags | _ \<Rightarrow> [])"

definition stage_flags :: "node_capability \<Rightarrow> string list" where
  "stage_flags c = flags_of (nc_access c) @ (if nc_mode c = Some MultiNodeReaderOnly then [''ro''] else [])"

text \<open>A staging path that is mounted: a stale mount, or one of another device, is taken away if the
  configuration allows it.  The result says whether the mount was kept.\<close>

definition check_staged :: "'s node_env \<Rightarrow> node_settings \<Rightarrow> stage_request \<Rightarrow> mount_check \<Rightarrow> ('s, csi_error + bool) node_op" where
  "check_staged e ns req mc = (let h = ne_host e; path = sg_staging req in
     if \<not> mc_target mc then State_Monad.return (Inr False) else do {
     health \<leftarrow> evaluate_path h (sg_volume req) path;
     (case health of
        Inl _ \<Rightarrow> State_Monad.return (Inl (InternalCode, ''failed to evaluate local disk stage mount health''))
      | Inr hl \<Rightarrow>
          if hl_stale hl \<or> \<not> mc_device mc then
            let message = (if hl_message hl = [] then ''stage is mounted from unexpected source '' @ [CHR 0x22] @ hl_source hl @ [CHR 0x22] else hl_message hl)
            in if \<not> ss_gate (nn_session ns)
               then State_Monad.return (Inl (FailedPrecondition, ''stale local disk stage detected at '' @ path @ '': '' @ message))
               else do {
                 err \<leftarrow> on_host (ho_cleanup h path);
                 State_Monad.return (case err of
                     Some m \<Rightarrow> Inl (FailedPrecondition, ''failed to cleanup stale local disk stage '' @ path @ '': '' @ m)
                   | None \<Rightarrow> Inr False) }
          else State_Monad.return (Inr True)) })"

definition staged :: "'s node_env \<Rightarrow> node_settings \<Rightarrow> stage_request \<Rightarrow> node_capability \<Rightarrow> string \<Rightarrow> ('s, csi_error + unit) node_op" where
  "staged e ns req c device = do {
     record_stage_session (ne_host e) (sg_volume req) (sg_staging req) (sg_context req) device (fs_or_default (nc_access c)) (stage_flags c);
     found_device e ns (sg_volume req);
     State_Monad.return (Inr ()) }"

text \<open>A directory is made if it is missing; what else its \<open>Stat\<close> says does not matter.\<close>

definition make_missing :: "'s host \<Rightarrow> string \<Rightarrow> ('s, string option) node_op" where
  "make_missing h path = do {
     st \<leftarrow> on_host (ho_stat h path);
     if is_missing st then on_host (ho_mkdir_all h path) else State_Monad.return None }"

definition format_and_mount :: "'s node_env \<Rightarrow> node_settings \<Rightarrow> stage_request \<Rightarrow> node_capability \<Rightarrow> resolution \<Rightarrow> ('s, csi_error + unit) node_op" where
  "format_and_mount e ns req c r = (let h = ne_host e; path = sg_staging req; device = re_device r; fs = fs_or_default (nc_access c) in do {
     err \<leftarrow> make_missing h path;
     (case err of
        Some m \<Rightarrow> State_Monad.return (Inl (InternalCode, ''failed to create staging target path '' @ path @ '': '' @ m))
      | None \<Rightarrow> do {
          err \<leftarrow> on_host (ho_format_mount h device path fs (stage_flags c));
          (case err of
             Some m \<Rightarrow> do {
               invalidate (sg_volume req);
               host_do (record_mount_failure (ne_reports e) (nn_kube ns) (ne_kube e) (ho_now h) (nn_recovery ns) (nn_node ns) (sg_volume req)
                 (case sg_context req ''volumeName'' of None \<Rightarrow> [] | Some n \<Rightarrow> n) device path fs (re_by r) (sg_context req) m);
               State_Monad.return (Inl (InternalCode, ''failed to format and mount volume: '' @ m)) }
           | None \<Rightarrow> staged e ns req c device) }) })"

definition stage_device :: "'s node_env \<Rightarrow> node_settings \<Rightarrow> stage_request \<Rightarrow> node_capability \<Rightarrow> resolution \<Rightarrow> ('s, csi_error + unit) node_op" where
  "stage_device e ns req c r =
     (if nc_mode c = None \<or> nc_mode c = Some UnknownMode then State_Monad.return (Inl (InvalidArgument, ''access mode is required'')) else do {
     mc \<leftarrow> check_mount_point (ne_host e) (re_device r) (sg_staging req) (nc_access c);
     (case mc of
        Inl _ \<Rightarrow> State_Monad.return (Inl (InternalCode, ''failed to check mount point''))
      | Inr mc \<Rightarrow> do {
          kept \<leftarrow> check_staged e ns req mc;
          (case kept of
             Inl x \<Rightarrow> State_Monad.return (Inl x)
           | Inr kept \<Rightarrow>
               if \<not> mc_supported mc then State_Monad.return (Inl (FailedPrecondition, ''volume capability is not supported by the volume''))
               else if kept then
                 (if \<not> mc_compatible mc then State_Monad.return (Inl (AlreadyExists, ''volume capability is not compatible with the volume''))
                  else staged e ns req c (re_device r))
               else format_and_mount e ns req c r) }) })"

definition node_stage :: "'s node_env \<Rightarrow> node_settings \<Rightarrow> stage_request \<Rightarrow> ('s, csi_error + unit) node_op" where
  "node_stage e ns req =
     (let volume = sg_volume req; ctx = sg_context req; name = (case ctx ''volumeName'' of None \<Rightarrow> [] | Some n \<Rightarrow> n) in
      if volume = [] then State_Monad.return (Inl (InvalidArgument, ''volume ID is required''))
      else if sg_staging req = [] then State_Monad.return (Inl (InvalidArgument, ''staging target path is required''))
      else (case sg_capability req of
          None \<Rightarrow> State_Monad.return (Inl (InvalidArgument, ''volume capability is required''))
        | Some c \<Rightarrow>
            if is_shared_request volume ctx then sn_stage (ne_shared e) req
            else if nc_access c = BlockAccess then State_Monad.return (Inr ())
            else if name = [] then State_Monad.return (Inl (InvalidArgument, ''[volumeName] entry is required in volume context''))
            else do {
              r \<leftarrow> resolve_path (ne_host e) (nn_resolver ns) volume name ctx (device_discovery_timeout (ss_discovery (nn_session ns)) ctx);
              (case r of
                 Inl m \<Rightarrow> do {
                   missing_device e ns volume (sg_staging req) ctx name m;
                   State_Monad.return (Inl (DeadlineExceeded, m)) }
               | Inr r \<Rightarrow> do { observe_latency (ne_host e) ctx r; stage_device e ns req c r }) }))"

definition node_unstage :: "'s node_env \<Rightarrow> string \<Rightarrow> string \<Rightarrow> ('s, csi_error + unit) node_op" where
  "node_unstage e volume path =
     (if volume = [] then State_Monad.return (Inl (InvalidArgument, ''volume ID is required''))
      else if path = [] then State_Monad.return (Inl (InvalidArgument, ''staging target path is required''))
      else if is_shared_volume_id volume then sn_unstage (ne_shared e) volume path
      else do {
        invalidate volume;
        delete_session (ne_host e) volume;
        err \<leftarrow> on_host (ho_cleanup (ne_host e) path);
        State_Monad.return (case err of
            Some _ \<Rightarrow> Inl (InternalCode, ''failed to cleanup mount point of staging target path'')
          | None \<Rightarrow> Inr ()) })"

section \<open>Publishing\<close>

definition publish_failed :: "('s, csi_error + unit) node_op" where
  "publish_failed = State_Monad.return (Inl (InternalCode, ''failed to publish volume''))"

definition publish_block :: "'s host \<Rightarrow> string \<Rightarrow> string \<Rightarrow> string list \<Rightarrow> ('s, csi_error + unit) node_op" where
  "publish_block h device target options = do {
     mc \<leftarrow> check_mount_point h device target BlockAccess;
     (case mc of
        Inl _ \<Rightarrow> publish_failed
      | Inr mc \<Rightarrow>
          if mc_target mc \<and> mc_device mc then State_Monad.return (Inr ())
          else do {
            st \<leftarrow> on_host (ho_stat h target);
            err \<leftarrow> (if is_missing st then on_host (ho_create h target) else State_Monad.return None);
            (case err of
               Some _ \<Rightarrow> publish_failed
             | None \<Rightarrow> do {
                 err \<leftarrow> on_host (ho_mount h device target [] options);
                 (case err of Some _ \<Rightarrow> publish_failed | None \<Rightarrow> State_Monad.return (Inr ())) }) }) }"

definition publish_mount :: "'s host \<Rightarrow> string \<Rightarrow> string \<Rightarrow> access_type \<Rightarrow> string list \<Rightarrow> ('s, csi_error + unit) node_op" where
  "publish_mount h staging target access options = do {
     mc \<leftarrow> check_mount_point h staging target access;
     (case mc of
        Inl _ \<Rightarrow> publish_failed
      | Inr mc \<Rightarrow>
          if mc_target mc then do {
            health \<leftarrow> evaluate_path h [] target;
            State_Monad.return (case health of
                Inr hl \<Rightarrow> if hl_stale hl then Inl (FailedPrecondition, ''stale local disk target detected at '' @ target @ '': '' @ hl_message hl) else Inr ()
              | Inl _ \<Rightarrow> Inr ()) }
          else do {
            err \<leftarrow> on_host (ho_mount h staging target (fs_or_default access) (options @ flags_of access));
            State_Monad.return (case err of
                Some _ \<Rightarrow> Inl (InternalCode, ''failed to mount file system volume at target path'')
              | None \<Rightarrow> Inr ()) }) }"

definition publish_block_device :: "'s node_env \<Rightarrow> node_settings \<Rightarrow> node_publish_request \<Rightarrow> string \<Rightarrow> string list \<Rightarrow> ('s, csi_error + unit) node_op" where
  "publish_block_device e ns req name options = (let h = ne_host e; volume = np_volume req; ctx = np_context req in do {
     r \<leftarrow> resolve_path h (nn_resolver ns) volume name ctx (device_discovery_timeout (ss_discovery (nn_session ns)) ctx);
     (case r of
        Inl m \<Rightarrow> do {
          missing_device e ns volume (np_staging req) ctx name m;
          State_Monad.return (Inl (DeadlineExceeded, m)) }
      | Inr r \<Rightarrow> do {
          found_device e ns volume;
          observe_latency h ctx r;
          publish_block h (re_device r) (np_target req) options }) })"

definition node_publish :: "'s node_env \<Rightarrow> node_settings \<Rightarrow> node_publish_request \<Rightarrow> ('s, csi_error + unit) node_op" where
  "node_publish e ns req =
     (let h = ne_host e; volume = np_volume req; target = np_target req; ctx = np_context req;
          name = (case ctx ''volumeName'' of None \<Rightarrow> [] | Some n \<Rightarrow> n);
          options = ''bind'' # (if np_readonly req then [''ro''] else []) in
      if volume = [] then State_Monad.return (Inl (InvalidArgument, ''volume ID is required''))
      else if np_staging req = [] then State_Monad.return (Inl (InvalidArgument, ''staging target path is required''))
      else if target = [] then State_Monad.return (Inl (InvalidArgument, ''target path is required''))
      else (case np_capability req of
          None \<Rightarrow> State_Monad.return (Inl (InvalidArgument, ''volume capability is required''))
        | Some c \<Rightarrow>
            if is_shared_request volume ctx then sn_publish (ne_shared e) req
            else if name = [] then State_Monad.return (Inl (InvalidArgument, ''volueName is required in volume context''))
            else do {
              let dir = (if nc_access c = BlockAccess then path_dir target else target);
              err \<leftarrow> make_missing h dir;
              (case err of
                 Some m \<Rightarrow> State_Monad.return (Inl (InternalCode, ''failed to create target path '' @ dir @ '': '' @ m))
               | None \<Rightarrow> (case nc_access c of
                     BlockAccess \<Rightarrow> publish_block_device e ns req name options
                   | MountAccess fs flags \<Rightarrow> do {
                       r \<leftarrow> publish_mount h (np_staging req) target (nc_access c) options;
                       (case r of
                          Inl x \<Rightarrow> State_Monad.return (Inl x)
                        | Inr _ \<Rightarrow> do { update_published_target h volume target options; State_Monad.return (Inr ()) }) }
                   | NoAccess \<Rightarrow> State_Monad.return (Inl (InvalidArgument, ''unsupported access type for volume capability'')))) }))"

definition node_unpublish :: "'s node_env \<Rightarrow> string \<Rightarrow> string \<Rightarrow> ('s, csi_error + unit) node_op" where
  "node_unpublish e volume target =
     (if volume = [] then State_Monad.return (Inl (InvalidArgument, ''volume ID is required''))
      else if target = [] then State_Monad.return (Inl (InvalidArgument, ''target path is required''))
      else do {
        err \<leftarrow> on_host (ho_cleanup (ne_host e) target);
        (case err of
           Some m \<Rightarrow> do {
             gone \<leftarrow> (if is_shared_volume_id volume then sn_orphaned (ne_shared e) volume target m else State_Monad.return False);
             State_Monad.return (if gone then Inr () else Inl (InternalCode, ''failed to unmount volume at target path '' @ target @ '': '' @ m)) }
         | None \<Rightarrow> do {
             (if is_shared_volume_id volume then sn_forget (ne_shared e) volume target else remove_published_target (ne_host e) volume target);
             State_Monad.return (Inr ()) }) })"

section \<open>Statistics\<close>

record usage =
  us_total :: int
  us_available :: int
  us_used :: int

text \<open>The text of a failed conversion ends with the text of the library's error, which is left out.\<close>

definition block_volume_size :: "'s host \<Rightarrow> string \<Rightarrow> ('s, string + int) node_op" where
  "block_volume_size h path = do {
     st \<leftarrow> on_host (ho_stat h path);
     (case st of
        IsRegular n \<Rightarrow> State_Monad.return (Inr n)
      | NotExist m \<Rightarrow> State_Monad.return (Inl m)
      | StatError _ m \<Rightarrow> State_Monad.return (Inl m)
      | _ \<Rightarrow> do {
          out \<leftarrow> on_host (ho_blockdev h path);
          State_Monad.return (case out of
              Inl m \<Rightarrow> Inl (''blockdev failed: '' @ m)
            | Inr out \<Rightarrow> (case atoi (trim_space out) of
                  None \<Rightarrow> Inl (''invalid block size output '' @ [CHR 0x22] @ trim_space out @ [CHR 0x22])
                | Some n \<Rightarrow> Inr n)) }) }"

definition path_failed ::
  "'s node_env \<Rightarrow> node_settings \<Rightarrow> string \<Rightarrow> string \<Rightarrow> errno \<Rightarrow> string \<Rightarrow> string \<Rightarrow> ('s, csi_error + usage list) node_op" where
  "path_failed e ns volume path n m what =
     (if is_shared_volume_id volume \<and> sn_disconnected (ne_shared e) n m
      then do { x \<leftarrow> sn_reconnect (ne_shared e) volume path m; State_Monad.return (Inl x) }
      else if stale_errno n m
      then do { x \<leftarrow> handle_stale_path (ne_host e) (nn_resolver ns) (nn_session ns) volume path m; State_Monad.return (Inl x) }
      else State_Monad.return (Inl (InternalCode, what @ path @ '': '' @ m)))"

definition usage_of :: "fs_stats \<Rightarrow> usage list" where
  "usage_of f =
     (let total = int64 (fs_blocks f * fs_bsize f)
      in [\<lparr>us_total = total, us_available = int64 (fs_bavail f * fs_bsize f), us_used = int64 (total - int64 (fs_bfree f * fs_bsize f))\<rparr>,
          \<lparr>us_total = int64 (fs_files f), us_available = int64 (fs_ffree f), us_used = int64 (int64 (fs_files f) - int64 (fs_ffree f))\<rparr>])"

definition node_stats :: "'s node_env \<Rightarrow> node_settings \<Rightarrow> string \<Rightarrow> string \<Rightarrow> ('s, csi_error + usage list) node_op" where
  "node_stats e ns volume path = (let h = ne_host e in
     if volume = [] then State_Monad.return (Inl (InvalidArgument, ''volume ID is required''))
     else if path = [] then State_Monad.return (Inl (InvalidArgument, ''volume path is required''))
     else do {
       st \<leftarrow> on_host (ho_stat h path);
       (case st of
          NotExist _ \<Rightarrow> State_Monad.return (Inl (NotFoundCode, ''volume path '' @ path @ '' was not found''))
        | StatError n m \<Rightarrow> path_failed e ns volume path n m ''failed to stat volume path ''
        | IsDirectory \<Rightarrow> do {
            f \<leftarrow> on_host (ho_statfs h path);
            (case f of
               Inl (n, m) \<Rightarrow> path_failed e ns volume path n m ''failed to collect filesystem stats for ''
             | Inr f \<Rightarrow> State_Monad.return (Inr (usage_of f))) }
        | _ \<Rightarrow> do {
            n \<leftarrow> block_volume_size h path;
            State_Monad.return (case n of
                Inl m \<Rightarrow> Inl (InternalCode, ''failed to collect block volume stats for '' @ path @ '': '' @ m)
              | Inr n \<Rightarrow> Inr [\<lparr>us_total = n, us_available = 0, us_used = n\<rparr>]) }) })"

section \<open>Growing the filesystem\<close>

record expand_policy =
  ep_timeout :: duration
  ep_retry :: duration
  ep_tolerance :: int

definition node_expand_policy :: "node_settings \<Rightarrow> expand_policy" where
  "node_expand_policy ns =
     (let at_least = (\<lambda>x low d. case x of None \<Rightarrow> d | Some n \<Rightarrow> if low \<le> int64 (n * second) then int64 (n * second) else d)
      in \<lparr>ep_timeout = at_least (nn_expand_timeout ns) (10 * second) (120 * second),
          ep_retry = at_least (nn_expand_retry ns) second (2 * second),
          ep_tolerance = (case nn_expand_tolerance ns of None \<Rightarrow> 128 * 1024 * 1024 | Some n \<Rightarrow> if 0 \<le> n then n else 128 * 1024 * 1024)\<rparr>)"

definition node_expand_fs_tolerance :: "int \<Rightarrow> int \<Rightarrow> int" where
  "node_expand_fs_tolerance required configured = max (required div 20) (max configured (256 * 1024 * 1024))"

definition filesystem_size :: "'s host \<Rightarrow> string \<Rightarrow> ('s, string + int) node_op" where
  "filesystem_size h path = do {
     f \<leftarrow> on_host (ho_statfs h path);
     State_Monad.return (case f of Inl (_, m) \<Rightarrow> Inl m | Inr f \<Rightarrow> Inr (int64 (fs_blocks f * fs_bsize f))) }"

definition not_converged :: "string \<Rightarrow> int \<Rightarrow> int \<Rightarrow> int \<Rightarrow> int \<Rightarrow> int \<Rightarrow> csi_error" where
  "not_converged volume required target device fs attempts =
     (DeadlineExceeded, ''filesystem resize did not converge for volume '' @ volume @ '': requested_bytes='' @ itoa required @
      '' target_min_bytes='' @ itoa target @ '' device_bytes='' @ itoa device @ '' filesystem_bytes='' @ itoa fs @ '' attempts='' @ itoa attempts)"

text \<open>What one round of the loop does: it is done, or the loop waits and goes round again.\<close>

datatype 'a round = Done 'a | Again int

definition expand_round ::
  "'s host \<Rightarrow> string \<Rightarrow> string \<Rightarrow> string \<Rightarrow> int \<Rightarrow> int \<Rightarrow> int \<Rightarrow> go_time \<Rightarrow> int \<Rightarrow> int \<Rightarrow> ('s, (csi_error + int) round) node_op" where
  "expand_round h volume path device required device_min fs_min deadline attempts last_fs = do {
     sz \<leftarrow> block_volume_size h device;
     (case sz of
        Inl m \<Rightarrow> State_Monad.return (Done (Inl (InternalCode, ''failed to collect device size for volume '' @ volume @ '' at '' @ device @ '': '' @ m)))
      | Inr sz \<Rightarrow>
          if sz < device_min then do {
            now \<leftarrow> host_time h;
            State_Monad.return (if \<not> now < deadline then Done (Inl (not_converged volume required device_min sz last_fs attempts)) else Again last_fs) }
          else do {
            resized \<leftarrow> on_host (ho_resize h device path);
            (case resized of
               Inl m \<Rightarrow> State_Monad.return (Done (Inl (InternalCode, ''failed to resize filesystem for volume '' @ volume @ '': '' @ m)))
             | Inr _ \<Rightarrow> do {
                 fs \<leftarrow> filesystem_size h path;
                 (case fs of
                    Inl m \<Rightarrow> State_Monad.return (Done (Inl (InternalCode, ''failed to collect filesystem size for volume '' @ volume @ '' at '' @ path @ '': '' @ m)))
                  | Inr fs \<Rightarrow>
                      if fs_min \<le> fs then State_Monad.return (Done (Inr required))
                      else do {
                        now \<leftarrow> host_time h;
                        State_Monad.return (if \<not> now < deadline then Done (Inl (not_converged volume required fs_min sz fs attempts)) else Again fs) }) }) }) }"

fun expand_loop ::
  "nat \<Rightarrow> 's host \<Rightarrow> string \<Rightarrow> string \<Rightarrow> string \<Rightarrow> int \<Rightarrow> int \<Rightarrow> int \<Rightarrow> duration \<Rightarrow> go_time \<Rightarrow> int \<Rightarrow> int \<Rightarrow> ('s, (csi_error + int) option) node_op" where
  "expand_loop 0 h volume path device required device_min fs_min retry deadline attempts last_fs = State_Monad.return None"
| "expand_loop (Suc n) h volume path device required device_min fs_min retry deadline attempts last_fs = do {
     r \<leftarrow> expand_round h volume path device required device_min fs_min deadline (attempts + 1) last_fs;
     (case r of
        Done x \<Rightarrow> State_Monad.return (Some x)
      | Again fs \<Rightarrow> do {
          host_do (ho_sleep h retry);
          expand_loop n h volume path device required device_min fs_min retry deadline (attempts + 1) fs }) }"

definition expand_device :: "'s host \<Rightarrow> expand_request \<Rightarrow> ('s, string + string) node_op" where
  "expand_device h req = do {
     d \<leftarrow> mounted_device_path h (xp_staging req);
     (case d of
        Inr d \<Rightarrow> State_Monad.return (Inr d)
      | Inl m \<Rightarrow> if xp_staging req \<noteq> xp_path req then mounted_device_path h (xp_path req) else State_Monad.return (Inl m)) }"

text \<open>The number of rounds the loop is given.\<close>

definition node_expand :: "nat \<Rightarrow> 's node_env \<Rightarrow> node_settings \<Rightarrow> expand_request \<Rightarrow> ('s, (csi_error + int) option) node_op" where
  "node_expand rounds e ns req =
     (let h = ne_host e; volume = xp_volume req; path = xp_path req;
          required = (case xp_required req of None \<Rightarrow> 0 | Some n \<Rightarrow> n); policy = node_expand_policy ns;
          device_min = max 0 (required - ep_tolerance policy);
          fs_min = max 0 (required - node_expand_fs_tolerance required (ep_tolerance policy)) in
      if volume = [] then State_Monad.return (Some (Inl (InvalidArgument, ''volume ID is required'')))
      else if path = [] then State_Monad.return (Some (Inl (InvalidArgument, ''volume path is required'')))
      else if required \<le> 0 then State_Monad.return (Some (Inl (InvalidArgument, ''required capacity is missing'')))
      else if xp_access req = Some BlockAccess then State_Monad.return (Some (Inr required))
      else if is_shared_volume_id volume
      then State_Monad.return (Some (Inl (Unimplemented, ''CephFS shared filesystem expansion is not supported in v0.4.1'')))
      else if \<not> nn_linux ns then State_Monad.return (Some (Inr required))
      else do {
        d \<leftarrow> expand_device h req;
        (case d of
           Inl m \<Rightarrow> State_Monad.return (Some (Inl (FailedPrecondition, ''failed to resolve device path for volume expansion: '' @ m)))
         | Inr device \<Rightarrow> do {
             now \<leftarrow> host_time h;
             expand_loop rounds h volume path device required device_min fs_min (ep_retry policy) (now + ep_timeout policy) 0 0 }) })"

end
