(* ===== verification/Node_Safety.thy ===== *)
theory Node_Safety
  imports Node_Server
begin

text \<open>
  What the calls of the node plugin do to the mount table, and that growing a filesystem ends.
  The mount table is a view of the host (\<open>host_mounts\<close>); calls to the cluster do not change it
  (\<open>cluster_apart\<close>).
\<close>

section \<open>Calls to the cluster\<close>

definition cluster_apart :: "'s report_store \<Rightarrow> 's kube_api \<Rightarrow> ('s \<Rightarrow> 'm) \<Rightarrow> bool" where
  "cluster_apart st k view \<longleftrightarrow>
     (\<forall>d s. view (fst (api_create (rp_api st) d s)) = view s) \<and> (\<forall>cm s. view (fst (api_update (rp_api st) cm s)) = view s) \<and>
     (\<forall>n s. view (rp_others st n s) = view s) \<and> (\<forall>s. view (snd (k_pvs k s)) = view s) \<and> (\<forall>a b s. view (snd (k_pvc k a b s)) = view s)"

lemma retry_view:
  assumes "\<And>i s. view (at_state (f (others i) s)) = view s"
  shows "view (at_state (retry_on_conflict f others i n s)) = view s"
  using assms by (induction n arbitrary: i s) (simp_all add: Let_def)

lemma own_write_state: "at_state (own_write s r) = fst r"
  by (simp add: own_write_def split: prod.split option.split)

lemma report_view:
  assumes "cluster_apart st k view"
  shows "view (snd (update_report st enabled key mutate s)) = view s" "view (snd (clear_report st enabled key s)) = view s"
proof -
  have "view (at_state (report_attempt (rp_decode st) (rp_encode st) key mutate (rp_api st) (rp_others st i) s)) = view s" for i s
    using assms by (auto simp: report_attempt_def cluster_apart_def own_write_state Let_def split: kube_reply.split option.split write_error.split)
  from retry_view [where f = "report_attempt _ _ _ _ _" and others = "rp_others st", OF this]
  show "view (snd (update_report st enabled key mutate s)) = view s" by (simp add: update_report_def Let_def)
  have "view (at_state (delete_attempt (rp_api st) key (rp_others st i) s)) = view s" for i s
    using assms by (auto simp: delete_attempt_def cluster_apart_def own_write_state Let_def split: kube_reply.split)
  from retry_view [where f = "delete_attempt _ _" and others = "rp_others st", OF this]
  show "view (snd (clear_report st enabled key s)) = view s" by (simp add: clear_report_def delete_config_map_key_def Let_def)
qed

lemma identity_view: "cluster_apart st k view \<Longrightarrow> view (snd (report_identity enabled k volume ctx s)) = view s"
proof -
  assume "cluster_apart st k view"
  then have "view (snd (resolve_runtime_context enabled k volume s)) = view s"
    by (auto simp: resolve_runtime_context_def cluster_apart_def split: prod.split sum.split option.split) (metis snd_conv)+
  then show ?thesis by (auto simp: report_identity_def Let_def split: prod.splits sum.splits)
qed

lemma failure_view:
  assumes "cluster_apart st k view"
  shows "view (report_failure st enabled k clock rs f s) = view s" "view (clear_device_missing st enabled node volume s) = view s"
  using identity_view [OF assms] report_view [OF assms]
  by (auto simp: report_failure_def clear_device_missing_def Let_def case_prod_beta)

section \<open>Parts that leave the mount table alone\<close>

lemma along_evaluate:
  assumes "host_mounts h mounts" shows "along (same_mounts mounts) (evaluate_path h volume path)"
proof -
  note still_matches [OF quiet_same [OF assms], THEN along_still]
  then show ?thesis unfolding evaluate_path_def mount_for_path_def serial_fits_def
    by (intro along_if along_return along_bind along_host along_sum along_option along_sessions [OF assms] same_mounts_order same_calls [OF assms])
qed

lemma along_reports:
  assumes "cluster_apart (ne_reports e) (ne_kube e) mounts"
  shows "along (same_mounts mounts) (missing_device e ns volume staging ctx name cause)" "along (same_mounts mounts) (found_device e ns volume)"
    "along (same_mounts mounts) (host_do (record_mount_failure (ne_reports e) (nn_kube ns) (ne_kube e) (ho_now h) rs node volume name d p fs how ctx m))"
  unfolding missing_device_def found_device_def record_device_missing_def record_mount_failure_def
  by (intro along_do; simp add: same_mounts_def failure_view [OF assms])+

lemma along_bookkeeping:
  "along (same_mounts mounts) (observe_latency h ctx r)" "along (same_mounts mounts) (invalidate volume)"
  unfolding observe_latency_def invalidate_def
  by (intro along_bind along_time along_if along_return along_state same_mounts_order; simp)+

lemma along_make_missing:
  assumes "host_mounts h mounts" shows "along (same_mounts mounts) (make_missing h path)"
  unfolding make_missing_def by (intro along_bind along_if along_return along_host same_mounts_order same_calls [OF assms])

lemma along_staged:
  assumes "host_mounts (ne_host e) mounts" "cluster_apart (ne_reports e) (ne_kube e) mounts"
  shows "along (same_mounts mounts) (staged e ns req c device)"
  unfolding staged_def
  by (intro along_bind along_return along_updates [OF assms(1)] along_reports [OF assms(2)] same_mounts_order)

lemmas same_wp = along_wp [where R = "same_mounts _"]

lemma wp_check_mount_point:
  assumes "host_mounts h mounts"
    and "\<And>m w'. mounts (nw_out w') = mounts (nw_out w) \<Longrightarrow> Q (Inl m) w'"
    and "\<And>w'. mounts (nw_out w') = mounts (nw_out w) \<Longrightarrow> Q (Inr (check_result src (mounted_at (mounts (nw_out w)) target) access)) w'"
  shows "wp (check_mount_point h src target access) Q w"
proof -
  have "mounts (snd (ho_list h s)) = mounts s" "\<And>ms. fst (ho_list h s) = Inr ms \<Longrightarrow> ms = mounts s" for s
    using assms(1) by (simp_all add: host_mounts_def)
  then show ?thesis using assms(2,3) by (auto simp: check_mount_point_def wp_simps wp_on_host split: sum.split)
qed

section \<open>Staging\<close>

text \<open>A device that may be taken for a volume: it was seen on the host, and it is the one the plugin
  remembers, or it was found to carry the serial number, or it has one of the names.\<close>

definition right_device :: "'s host \<Rightarrow> string option \<Rightarrow> string \<Rightarrow> string \<Rightarrow> string \<Rightarrow> bool" where
  "right_device h cached name serial d \<longleftrightarrow> seen_device h d \<and>
     (cached = Some d \<and> (serial \<noteq> [] \<longrightarrow> serial_seen h d serial) \<or> serial_seen h d serial \<or> d \<in> set (device_candidates name))"

lemma resolve_path_wp:
  "wp (resolve_path h cfg volume name ctx timeout)
     (\<lambda>x w'. \<forall>r. x = Inr r \<longrightarrow> right_device h (map_option ce_device (nw_cache w volume)) name (annotation ctx ''deviceSerial'') (re_device r)) w"
  unfolding resolve_path_def
  by (intro wp_bindI wp_mono [OF resolve_device_wp] wp_returnI)
    (auto simp: right_device_def resolution_ok_def split: option.splits if_splits)

lemma wp_resolve:
  assumes "host_mounts h mounts"
    and "\<And>m w'. mounts (nw_out w') = mounts (nw_out w) \<Longrightarrow> Q (Inl m) w'"
    and "\<And>r w'. mounts (nw_out w') = mounts (nw_out w) \<Longrightarrow>
      right_device h (map_option ce_device (nw_cache w volume)) name (annotation ctx ''deviceSerial'') (re_device r) \<Longrightarrow> Q (Inr r) w'"
  shows "wp (resolve_path h cfg volume name ctx timeout) Q w"
proof (rule wp_mono [OF wp_conj [OF resolve_path_wp caches_resolve_path [OF quiet_same [OF assms(1)], unfolded caches_def, rule_format]]], goal_cases)
  case (1 x w')
  then show ?case using assms(2,3) by (cases x) (auto simp: cache_only_def same_mounts_def)
qed

text \<open>The postcondition of staging, for the mount table \<open>ms\<close> it starts from and the right devices \<open>D\<close>.\<close>

definition stage_post ::
  "('s \<Rightarrow> mount_point list) \<Rightarrow> node_settings \<Rightarrow> string \<Rightarrow> string set \<Rightarrow> mount_point list \<Rightarrow> csi_error + unit \<Rightarrow> 's node_world \<Rightarrow> bool" where
  "stage_post mounts ns path D ms r w' \<longleftrightarrow>
     elsewhere {path} (mounts (nw_out w')) = elsewhere {path} ms \<and>
     (r = Inr () \<longrightarrow> (\<exists>m. mounted_at (mounts (nw_out w')) path = Some m \<and> mp_device m \<in> D)) \<and>
     (mounted_at ms path \<noteq> None \<and> \<not> ss_gate (nn_session ns) \<longrightarrow> mounts (nw_out w') = ms)"

lemma stage_post_error: "mounts (nw_out w') = ms \<Longrightarrow> stage_post mounts ns path D ms (Inl x) w'"
  by (simp add: stage_post_def)

lemma format_and_mount_wp:
  assumes hm: "host_mounts (ne_host e) mounts" and apart: "cluster_apart (ne_reports e) (ne_kube e) mounts"
    and "re_device r \<in> D" "elsewhere {sg_staging req} (mounts (nw_out w)) = elsewhere {sg_staging req} ms" "mounted_at ms (sg_staging req) = None \<or> ss_gate (nn_session ns)"
  shows "wp (format_and_mount e ns req c r) (stage_post mounts ns (sg_staging req) D ms) w"
proof -
  have "mounts (nw_out w) = ms" if "mounted_at ms (sg_staging req) \<noteq> None" "\<not> ss_gate (nn_session ns)" using that assms(5) by simp
  then show ?thesis
  unfolding format_and_mount_def Let_def using assms(3-5)
  by (intro wp_bindI same_wp [OF along_make_missing [OF hm]] wp_optionI wp_returnI wp_format_mount [OF hm] same_wp [OF along_staged [OF hm apart]]
      same_wp [OF along_bookkeeping(2) [where mounts = mounts]] same_wp [OF along_reports(3) [OF apart]])
    (auto simp: stage_post_def same_mounts_def elsewhere_def mounted_at_def staged_def wp_simps)
qed

lemma check_staged_wp:
  assumes hm: "host_mounts (ne_host e) mounts"
    and mc: "mc = check_result d (mounted_at ms (sg_staging req)) access" "mounts (nw_out w) = ms"
  shows "wp (check_staged e ns req mc) (\<lambda>x w'. elsewhere {sg_staging req} (mounts (nw_out w')) = elsewhere {sg_staging req} ms \<and>
    (case x of
       Inl y \<Rightarrow> \<not> ss_gate (nn_session ns) \<longrightarrow> mounts (nw_out w') = ms
     | Inr True \<Rightarrow> mounts (nw_out w') = ms \<and> (\<exists>m. mounted_at ms (sg_staging req) = Some m \<and> mp_device m = d)
     | Inr False \<Rightarrow> mounted_at ms (sg_staging req) = None \<or> ss_gate (nn_session ns))) w"
proof -
  have clean: "elsewhere {p} (mounts (snd (ho_cleanup (ne_host e) p s))) = elsewhere {p} (mounts s)" for p s
    using elsewhere_calls(3) [OF hm, of p "{p}"] by (simp add: same_elsewhere_def)
  show ?thesis unfolding check_staged_def Let_def using mc
    by (intro wp_case_if wp_bindI same_wp [OF along_evaluate [OF hm]] wp_case_sum wp_returnI)
      (auto simp: wp_simps wp_on_host same_mounts_def check_result_def clean split: option.splits)
qed

lemma stage_device_wp:
  assumes hm: "host_mounts (ne_host e) mounts" and apart: "cluster_apart (ne_reports e) (ne_kube e) mounts"
    and "re_device r \<in> D" "mounts (nw_out w) = ms"
  shows "wp (stage_device e ns req c r) (stage_post mounts ns (sg_staging req) D ms) w"
proof -
  have kept: "wp (staged e ns req c d) (stage_post mounts ns (sg_staging req) D ms) w1"
    if "mounts (nw_out w1) = ms" "mounted_at ms (sg_staging req) = Some m" "mp_device m \<in> D" for w1 m d
    using that by (intro same_wp [OF along_staged [OF hm apart]]) (simp add: stage_post_def same_mounts_def)
  show ?thesis unfolding stage_device_def
  proof (intro wp_case_if wp_returnI wp_bindI wp_check_mount_point [OF hm] wp_case_sum, goal_cases)
    case (5 w1 mc)
    then have mc: "mc = check_result (re_device r) (mounted_at ms (sg_staging req)) (nc_access c)" "mounts (nw_out w1) = ms" using assms(4) by simp_all
    show ?case
    proof (rule wp_mono [OF check_staged_wp [OF hm mc]], goal_cases)
      case (1 x w2)
      then show ?case using assms(3) kept [of w2]
        by (cases x) (auto simp: wp_simps stage_post_def split: bool.splits intro!: format_and_mount_wp [OF hm apart])
    qed
  qed (use assms(4) in \<open>auto simp: stage_post_error\<close>)
qed


section \<open>Publishing and taking down\<close>

lemma wp_accessI:
  "(x = BlockAccess \<Longrightarrow> wp m Q w) \<Longrightarrow> (\<And>fs fl. x = MountAccess fs fl \<Longrightarrow> wp (f fs fl) Q w) \<Longrightarrow> (x = NoAccess \<Longrightarrow> wp n Q w) \<Longrightarrow>
   wp (case x of BlockAccess \<Rightarrow> m | MountAccess fs fl \<Rightarrow> f fs fl | NoAccess \<Rightarrow> n) Q w"
  by (simp split: access_type.split)

lemma wp_cleanup:
  assumes "host_mounts h mounts"
    and "\<And>w'. elsewhere {p} (mounts (nw_out w')) = elsewhere {p} (mounts (nw_out w)) \<Longrightarrow> mounted_at (mounts (nw_out w')) p = None \<Longrightarrow>
      nw_cache w' = nw_cache w \<Longrightarrow> nw_sessions w' = nw_sessions w \<Longrightarrow> Q None w'"
    and "\<And>x w'. elsewhere {p} (mounts (nw_out w')) = elsewhere {p} (mounts (nw_out w)) \<Longrightarrow> nw_cache w' = nw_cache w \<Longrightarrow> nw_sessions w' = nw_sessions w \<Longrightarrow> Q (Some x) w'"
  shows "wp (on_host (ho_cleanup h p)) Q w"
proof -
  have "elsewhere {p} (mounts (snd (ho_cleanup h p (nw_out w)))) = elsewhere {p} (mounts (nw_out w))"
    using elsewhere_calls(3) [OF assms(1), of p "{p}"] by (simp add: same_elsewhere_def)
  moreover have "mounted_at (mounts (snd (ho_cleanup h p (nw_out w)))) p = None" if "fst (ho_cleanup h p (nw_out w)) = None"
    using assms(1) that by (auto simp: host_mounts_def mounted_at_None)
  ultimately show ?thesis using assms(2,3) by (cases "fst (ho_cleanup h p (nw_out w))") (simp_all add: wp_on_host)
qed

lemma delete_session_wp:
  "wp (delete_session h v) (\<lambda>_ w'. nw_cache w' = nw_cache w \<and> (\<forall>u. u \<noteq> trim_space v \<longrightarrow> nw_sessions w' u = nw_sessions w u) \<and>
     ((\<forall>x. \<not> fst (ho_session_write h x)) \<longrightarrow> nw_sessions w' (trim_space v) = None)) w"
  by (auto simp: delete_session_def wp_simps on_host_def case_prod_beta)



section \<open>Growing the filesystem\<close>

lemma still_sizes:
  assumes "quiet h R"
  shows "still R (block_volume_size h p)" "still R (filesystem_size h p)"
  unfolding block_volume_size_def filesystem_size_def
  by (intro still_bind still_return still_host quiet_calls [OF assms],
      auto split: stat_reply.split intro!: still_bind still_return still_host quiet_calls [OF assms])+

lemma expand_round_time:
  assumes "host_clock h"
  shows "wp (expand_round h volume path device required device_min fs_min deadline attempts last_fs)
    (\<lambda>r w'. ho_now h (nw_out w) \<le> ho_now h (nw_out w') \<and> (\<forall>fs. r = Again fs \<longrightarrow> ho_now h (nw_out w') < deadline)) w"
proof -
  note q = quiet_clock [OF assms]
  show ?thesis unfolding expand_round_def
    by (intro wp_bindI still_wp [OF still_sizes(1) [OF q]] still_wp [OF still_sizes(2) [OF q]] still_wp [OF still_host [where R = "\<lambda>s s'. ho_now h s \<le> ho_now h s'"]] quiet_calls [OF q]
        wp_case_sum wp_case_if wp_returnI wp_host_time [THEN iffD2]) (auto simp: unmoved_def)
qed

text \<open>That sizes were measured.\<close>

definition device_measured :: "'s host \<Rightarrow> string \<Rightarrow> int \<Rightarrow> bool" where
  "device_measured h d n \<longleftrightarrow> (\<exists>w. fst (run_state (block_volume_size h d) w) = Inr n)"

definition filesystem_measured :: "'s host \<Rightarrow> string \<Rightarrow> int \<Rightarrow> bool" where
  "filesystem_measured h p n \<longleftrightarrow> (\<exists>s f. fst (ho_statfs h p s) = Inr f \<and> n = int64 (fs_blocks f * fs_bsize f))"

lemma expand_round_sound:
  "wp (expand_round h volume path device required device_min fs_min deadline attempts last_fs)
    (\<lambda>r w'. \<forall>x. r = Done (Inr x) \<longrightarrow> x = required \<and> (\<exists>n \<ge> device_min. device_measured h device n) \<and> (\<exists>n \<ge> fs_min. filesystem_measured h path n)) w"
proof -
  have d: "wp (block_volume_size h device) (\<lambda>x _. \<forall>n. x = Inr n \<longrightarrow> device_measured h device n) w" for w
    by (auto simp: wp_def device_measured_def split: prod.splits) (metis fst_conv)
  have f: "wp (filesystem_size h path) (\<lambda>x _. \<forall>n. x = Inr n \<longrightarrow> filesystem_measured h path n) w" for w
    by (auto simp: filesystem_size_def wp_simps wp_on_host filesystem_measured_def split: sum.splits)
  show ?thesis unfolding expand_round_def
    by (intro wp_bindI wp_mono [OF d] wp_mono [OF f] wp_case_sum wp_case_if wp_returnI wp_host_time [THEN iffD2] wp_on_host [THEN iffD2])
      (auto simp: not_less)
qed

lemma wp_roundI:
  "(\<And>a. x = Done a \<Longrightarrow> wp (f a) Q w) \<Longrightarrow> (\<And>n. x = Again n \<Longrightarrow> wp (g n) Q w) \<Longrightarrow> wp (case x of Done a \<Rightarrow> f a | Again n \<Rightarrow> g n) Q w"
  by (simp split: round.split)

lemma expand_loop_sound:
  "wp (expand_loop n h volume path device required device_min fs_min retry deadline attempts last_fs)
    (\<lambda>r _. \<forall>x. r = Some (Inr x) \<longrightarrow> x = required \<and> (\<exists>n \<ge> device_min. device_measured h device n) \<and> (\<exists>n \<ge> fs_min. filesystem_measured h path n)) w"
proof (induction n arbitrary: w attempts last_fs)
  case (Suc n)
  show ?case unfolding expand_loop.simps
    by (intro wp_bindI wp_mono [OF expand_round_sound] wp_roundI wp_returnI wp_host_do [THEN iffD2] Suc.IH) auto
qed (simp add: wp_simps)

lemma expand_loop_some:
  assumes clock: "host_clock h" and "second \<le> retry" "loop_fuel (deadline - ho_now h (nw_out w)) \<le> n"
  shows "wp (expand_loop n h volume path device required device_min fs_min retry deadline attempts last_fs) (\<lambda>r _. r \<noteq> None) w"
  using assms(3)
proof (induction n arbitrary: w attempts last_fs)
  case 0
  then show ?case by (simp add: loop_fuel_def split: if_splits)
next
  case (Suc n)
  show ?case unfolding expand_loop.simps
  proof (intro wp_bindI wp_mono [OF expand_round_time [OF clock]] wp_roundI wp_returnI wp_host_do [THEN iffD2] Suc.IH, goal_cases)
    case (2 r w1 fs)
    have "ho_now h (nw_out w1) + retry \<le> ho_now h (ho_sleep h retry (nw_out w1))" using clock by (simp add: host_clock_def)
    then show ?case
      using loop_fuel_step [of "deadline - ho_now h (nw_out w)" "deadline - ho_now h (ho_sleep h retry (nw_out w1))"] 2 assms(2) Suc.prems by auto
  qed simp
qed

lemma expand_policy_bounds: "10 * second \<le> ep_timeout (node_expand_policy ns)" "second \<le> ep_retry (node_expand_policy ns)"
  by (auto simp: node_expand_policy_def Let_def split: option.split)

text \<open>C34. \<open>NodeExpandVolume\<close> always returns: when the clock moves on with every sleep, a round for each second of the
  configured timeout and two more are enough, whatever the configuration and the answers of
  the host.\<close>

theorem node_expand_returns:
  assumes "host_clock (ne_host e)" "nat (ep_timeout (node_expand_policy ns) div second) + 2 \<le> rounds"
  shows "fst (run_state (node_expand rounds e ns req) w) \<noteq> None"
proof -
  have still: "along (\<lambda>_ _. True) (expand_device (ne_host e) req)"
    unfolding along_def wp_def by (simp split: prod.split)
  have "wp (node_expand rounds e ns req) (\<lambda>r _. r \<noteq> None) w"
    unfolding node_expand_def Let_def
    by (intro wp_case_if wp_returnI wp_bindI along_wp [OF still] wp_case_sum wp_host_time [THEN iffD2] expand_loop_some [OF assms(1) expand_policy_bounds(2)])
      (use assms(2) expand_policy_bounds(1) [of ns] in \<open>auto simp: loop_fuel_def\<close>)
  then show ?thesis by (simp add: wp_def case_prod_beta)
qed

text \<open>C32. What a success of \<open>NodeExpandVolume\<close> means for a local filesystem volume on Linux: the answer is the capacity that was
  asked for, the device at the staging path or the volume path was measured at that capacity
  less the configured tolerance, and the filesystem at that capacity less the larger of 256 MiB, the
  configured tolerance and a twentieth of it.\<close>

theorem node_expand_sound:
  assumes run: "run_state (node_expand rounds e ns req) w = (Some (Inr n), w')"
    and "\<not> is_shared_volume_id (xp_volume req)" "xp_access req \<noteq> Some BlockAccess" "nn_linux ns"
  shows "xp_required req = Some n \<and> 0 < n \<and>
    (\<exists>device. (\<exists>s p ms m. p \<in> {xp_staging req, xp_path req} \<and> fst (ho_list (ne_host e) s) = Inr ms \<and> mounted_at ms p = Some m \<and> mp_device m = device) \<and>
       (\<exists>sz. device_measured (ne_host e) device sz \<and> n - ep_tolerance (node_expand_policy ns) \<le> sz)) \<and>
    (\<exists>sz. filesystem_measured (ne_host e) (xp_path req) sz \<and> n - max (n div 20) (max (ep_tolerance (node_expand_policy ns)) (256 * 1024 * 1024)) \<le> sz)"
proof -
  let ?mounted = "\<lambda>device. \<exists>s p ms m. p \<in> {xp_staging req, xp_path req} \<and> fst (ho_list (ne_host e) s) = Inr ms \<and> mounted_at ms p = Some m \<and> mp_device m = device"
  have path: "wp (mounted_device_path (ne_host e) p) (\<lambda>d _. \<forall>x. d = Inr x \<longrightarrow> ?mounted x) w" if "p \<in> {xp_staging req, xp_path req}" for p w
    using that by (auto simp: mounted_device_path_def wp_simps wp_on_host split: sum.splits option.splits if_splits)
  have device: "wp (expand_device (ne_host e) req) (\<lambda>d _. \<forall>x. d = Inr x \<longrightarrow> ?mounted x) w"
    unfolding expand_device_def by (intro wp_bindI wp_mono [OF path] wp_case_sum wp_case_if wp_returnI) auto
  let ?n = "case xp_required req of None \<Rightarrow> 0 | Some n \<Rightarrow> n"
  have "wp (node_expand rounds e ns req) (\<lambda>r _. \<forall>x. r = Some (Inr x) \<longrightarrow> x = ?n \<and> 0 < ?n \<and>
      (\<exists>d. ?mounted d \<and> (\<exists>sz \<ge> ?n - ep_tolerance (node_expand_policy ns). device_measured (ne_host e) d sz)) \<and>
      (\<exists>sz \<ge> ?n - node_expand_fs_tolerance ?n (ep_tolerance (node_expand_policy ns)). filesystem_measured (ne_host e) (xp_path req) sz)) w"
    unfolding node_expand_def Let_def using assms(2-4)
    by (intro wp_case_if wp_returnI wp_bindI wp_mono [OF device] wp_case_sum wp_host_time [THEN iffD2] wp_mono [OF expand_loop_sound]) fastforce+
  from wp_run [OF this run] show ?thesis
    by (fastforce simp: node_expand_fs_tolerance_def split: option.splits)
qed

section \<open>An example node\<close>

definition table_env :: "(int \<times> mount_point list) node_env" where
  "table_env = \<lparr>ne_host = table_host,
     ne_reports = \<lparr>rp_api = \<lparr>api_get = (\<lambda>s. KubeError), api_create = (\<lambda>d s. (s, Some WOther)), api_update = (\<lambda>c s. (s, Some WOther)), api_stored = (\<lambda>s. None)\<rparr>,
       rp_others = (\<lambda>n s. s), rp_steps = 5, rp_keys = (\<lambda>c. []), rp_decode = (\<lambda>x. None), rp_encode = (\<lambda>r. [])\<rparr>,
     ne_kube = \<lparr>k_pvs = (\<lambda>s. (Inr [], s)), k_pv = (\<lambda>n s. (KubeNotFound, s)), k_pvc = (\<lambda>a b s. (Inl ''not found'', s)), k_vas = (\<lambda>s. (Inr [], s)),
       k_pods = (\<lambda>n s. (Inr [], s)), k_node = (\<lambda>n s. (Inl ''not found'', s)), k_delete_va = (\<lambda>n s. (KubeNotFound, s)), k_patch_pv = (\<lambda>a b c s. (Inr (), s))\<rparr>,
     ne_shared = \<lparr>sn_stage = (\<lambda>r. State_Monad.return (Inr ())), sn_unstage = (\<lambda>v p. State_Monad.return (Inr ())), sn_publish = (\<lambda>r. State_Monad.return (Inr ())),
       sn_orphaned = (\<lambda>v p m. State_Monad.return False), sn_forget = (\<lambda>v p. State_Monad.return ()), sn_disconnected = (\<lambda>n m. False),
       sn_reconnect = (\<lambda>v p m. State_Monad.return (InternalCode, m))\<rparr>\<rparr>"

definition table_settings :: node_settings where
  "table_settings = \<lparr>nn_node = ''node-1'', nn_kube = True,
     nn_recovery = \<lparr>rs_enabled = None, rs_min_attempts = None, rs_min_age = None, rs_cooldown = None, rs_max_attempts = None\<rparr>,
     nn_session = sample_session_settings, nn_resolver = sample_resolver, nn_expand_timeout = None, nn_expand_retry = None, nn_expand_tolerance = None, nn_linux = True\<rparr>"

definition table_stage :: stage_request where
  "table_stage = \<lparr>sg_volume = ''pvc'', sg_staging = ''/s'', sg_capability = Some \<lparr>nc_access = MountAccess [] [], nc_mode = Some SingleNodeWriter\<rparr>, sg_context = [''volumeName'' \<mapsto> ''sdb'']\<rparr>"

definition table_publish :: node_publish_request where
  "table_publish = \<lparr>np_volume = ''pvc'', np_staging = ''/s'', np_target = ''/t'', np_capability = sg_capability table_stage, np_context = sg_context table_stage, np_readonly = False\<rparr>"

definition table_mount :: mount_point where
  "table_mount = \<lparr>mp_device = ''/dev/vdb'', mp_path = ''/s'', mp_type = ''ext4'', mp_opts = []\<rparr>"

definition table_expand :: expand_request where
  "table_expand = \<lparr>xp_volume = ''pvc'', xp_path = ''/s'', xp_staging = ''/s'', xp_required = Some 1073741824, xp_access = None\<rparr>"

lemma table_apart: "host_mounts (ne_host table_env) snd" "cluster_apart (ne_reports table_env) (ne_kube table_env) snd" "host_clock (ne_host table_env)"
  using table_mounts table_clock by (simp_all add: table_env_def cluster_apart_def)




theorem node_expand_returns_witness:
  "fst (run_state (node_expand 122 table_env table_settings table_expand) table_node) \<noteq> None"
proof -
  have "nat (ep_timeout (node_expand_policy table_settings) div second) + 2 \<le> 122" by code_simp
  from node_expand_returns [OF table_apart(3) this] show ?thesis .
qed

theorem node_expand_sound_witness:
  "\<exists>w' sz. run_state (node_expand 122 table_env table_settings table_expand) (table_node\<lparr>nw_out := (0, [table_mount])\<rparr>) = (Some (Inr 1073741824), w') \<and>
     filesystem_measured table_host ''/s'' sz \<and> 805306368 \<le> sz"
proof -
  let ?run = "run_state (node_expand 122 table_env table_settings table_expand) (table_node\<lparr>nw_out := (0, [table_mount])\<rparr>)"
  have "fst ?run = Some (Inr 1073741824)" by code_simp
  then have run: "?run = (Some (Inr 1073741824), snd ?run)" by (simp add: prod_eq_iff)
  have other: "\<not> is_shared_volume_id (xp_volume table_expand)" "xp_access table_expand \<noteq> Some BlockAccess" "nn_linux table_settings" by code_simp+
  have "ep_tolerance (node_expand_policy table_settings) = 128 * 1024 * 1024" by code_simp
  with node_expand_sound [OF run other] run show ?thesis by (auto simp: table_env_def table_expand_def)
qed

end
