(* ===== verification/Controller_Volumes.thy ===== *)
theory Controller_Volumes
  imports Node_Server
begin

text \<open>
  The controller's calls that make, delete, grow, list and snapshot volumes
  (\<open>driver/controllerserver.go\<close>, \<open>driver/volume_access.go\<close>, \<open>driver/datastore_config.go\<close>).  They check the request, choose between
  disks and the shared filesystem, and hand over to the provider of \<open>Disk_Provider\<close> and
  \<open>Disk_Operations\<close>; the provider of shared filesystems and the filter by the inventory
  are parameters.  The state is that of the provider.  Events, metrics and the asynchronous
  annotation of the persistent volume are left out; the text of a status is that of the
  source where the error is not one of the datastores.
\<close>

section \<open>Configuration\<close>

record volume_config =
  vc_policy :: "string option"
  vc_datastores :: "string list option"
  vc_types :: "string list option"
  vc_cephfs_clones :: bool
  vc_cephfs_snapshots :: bool
  vc_cephfs_expansion :: bool
  vc_topology :: bool
  vc_detached_expansion :: bool

definition split_csv :: "string \<Rightarrow> string list" where
  "split_csv s = filter (\<lambda>x. x \<noteq> []) (map trim_space (split_on (CHR '','') s))"

definition allowed_datastore_types :: "volume_config \<Rightarrow> string list" where
  "allowed_datastore_types cfg = (case vc_types cfg of None \<Rightarrow> [''local'', ''ceph'', ''cephfs''] | Some ts \<Rightarrow> ts)"

text \<open>The filter by the inventory is there only when it is enabled.\<close>

definition datastore_selection ::
  "volume_config \<Rightarrow> (string list \<Rightarrow> string + string list) option \<Rightarrow> str_map \<Rightarrow> string + selection_config" where
  "datastore_selection cfg inventory params =
     (let policy = normalize_policy (if annotation params ''datastoreSelectionPolicy'' \<noteq> [] then annotation params ''datastoreSelectionPolicy''
            else (case vc_policy cfg of None \<Rightarrow> ''least-used'' | Some p \<Rightarrow> p));
          ids = (if annotation params ''datastoreIDs'' \<noteq> [] then split_csv (annotation params ''datastoreIDs'')
            else (case vc_datastores cfg of None \<Rightarrow> [] | Some ds \<Rightarrow> ds))
      in if ids = [] then Inl ''no datastores configured; set ONE_CSI_DEFAULT_DATASTORES or storage class parameter datastoreIDs''
         else (case (case inventory of None \<Rightarrow> Inr ids | Some f \<Rightarrow> f ids) of
                 Inl e \<Rightarrow> Inl e
               | Inr ids \<Rightarrow>
                   if ids = [] then Inl ''no eligible datastores remain after inventory authority filtering''
                   else Inr \<lparr>sel_identifiers = ids, sel_policy = policy, sel_types = allowed_datastore_types cfg\<rparr>))"

definition filter_provisioning_params :: "str_map \<Rightarrow> str_map" where
  "filter_provisioning_params params =
     (\<lambda>k. if k \<in> set [''datastoreIDs'', ''datastoreSelectionPolicy'', ''fsType'', ''sharedFilesystemPath'', ''sharedFilesystemSubvolumeGroup'', ''cephfsMounter'']
          \<or> has_prefix k ''csi.storage.k8s.io/'' then None else params k)"

definition requested_fs_type :: "str_map \<Rightarrow> access_type \<Rightarrow> string" where
  "requested_fs_type params access =
     (let fs = (case access of MountAccess fs _ \<Rightarrow> fs | _ \<Rightarrow> []) in if trim_space fs \<noteq> [] then fs else annotation params ''fsType'')"

section \<open>Access modes\<close>

fun mode_name :: "csi_access \<Rightarrow> string" where
  "mode_name UnknownMode = ''UNKNOWN''"
| "mode_name SingleNodeWriter = ''SINGLE_NODE_WRITER''"
| "mode_name SingleNodeReaderOnly = ''SINGLE_NODE_READER_ONLY''"
| "mode_name MultiNodeReaderOnly = ''MULTI_NODE_READER_ONLY''"
| "mode_name MultiNodeSingleWriter = ''MULTI_NODE_SINGLE_WRITER''"
| "mode_name MultiNodeMultiWriter = ''MULTI_NODE_MULTI_WRITER''"
| "mode_name SingleNodeSingleWriter = ''SINGLE_NODE_SINGLE_WRITER''"
| "mode_name SingleNodeMultiWriter = ''SINGLE_NODE_MULTI_WRITER''"

definition supported_access_modes :: "csi_access list" where
  "supported_access_modes = [MultiNodeReaderOnly, SingleNodeWriter, SingleNodeReaderOnly]"

definition is_shared_access_mode :: "csi_access \<Rightarrow> bool" where
  "is_shared_access_mode m \<longleftrightarrow> m = MultiNodeMultiWriter \<or> m = MultiNodeSingleWriter"

definition backend_profiles :: "string list \<Rightarrow> capability_profile list" where
  "backend_profiles backends =
     foldl (\<lambda>ps b. let p = get_capability_profile b in if cp_backend p \<in> cp_backend ` set ps then ps else ps @ [p]) []
       (if backends = [] then [''local'', ''ceph'', ''cephfs''] else backends)"

definition unsupported_rwx :: "csi_access \<Rightarrow> capability_profile list \<Rightarrow> string" where
  "unsupported_rwx mode profiles =
     (let without = map cp_backend (filter (\<lambda>p. \<not> cp_fs_rwx p) profiles)
      in ''access mode '' @ [CHR 0x22] @ mode_name mode @ [CHR 0x22] @ '' is not supported: this driver provisions VM-attached block disks and does not provide a shared-filesystem publish path; true ReadWriteMany requires a shared-filesystem backend such as NFS or CephFS. Current backends without filesystem RWX support: ''
         @ join_with '', '' (if without = [] then [''configured backends''] else without))"

definition on_backend :: "string \<Rightarrow> datastore \<Rightarrow> bool" where
  "on_backend b d \<longleftrightarrow> equal_fold (ds_backend d) b \<or> equal_fold (ds_type d) b"

definition candidate_backends :: "datastore list \<Rightarrow> string list" where
  "candidate_backends ds =
     filter (\<lambda>b. b \<noteq> []) (map (\<lambda>d. if trim_space (ds_backend d) = [] then trim_space (ds_type d) else trim_space (ds_backend d)) ds)"

definition storage_class_shared :: "str_map \<Rightarrow> bool" where
  "storage_class_shared params \<longleftrightarrow> annotation params ''sharedFilesystemPath'' \<noteq> [] \<or> annotation params ''sharedFilesystemSubvolumeGroup'' \<noteq> [] \<or>
     equal_fold (annotation params ''driver'') ''cephfs''"

datatype access_model = DiskModel | SharedModel

definition resolve_access_model :: "node_capability \<Rightarrow> string list \<Rightarrow> str_map \<Rightarrow> datastore list \<Rightarrow> string + access_model" where
  "resolve_access_model c allowed params ds =
     (case nc_mode c of
        None \<Rightarrow> Inl ''missing access mode''
      | Some mode \<Rightarrow>
          if (\<exists>d \<in> set ds. on_backend ''cephfs'' d) \<and> (\<exists>d \<in> set ds. \<not> on_backend ''cephfs'' d)
          then Inl ''storage class mixes CephFS and disk datastores; use separate StorageClasses for cephfs and image-backed datastores''
          else if nc_access c = BlockAccess then
            (if is_shared_access_mode mode
             then Inl (''access mode '' @ [CHR 0x22] @ mode_name mode @ [CHR 0x22] @ '' is not supported for block volumes; CephFS shared filesystem support requires a filesystem volume capability'')
             else Inr DiskModel)
          else if is_shared_access_mode mode then
            (if (\<exists>d \<in> set ds. on_backend ''cephfs'' d) \<or> ds = []
             then (if list_ex cp_fs_rwx (backend_profiles allowed) then Inr SharedModel else Inl (unsupported_rwx mode (backend_profiles allowed)))
             else Inl (unsupported_rwx mode (backend_profiles (candidate_backends ds))))
          else if storage_class_shared params \<or> ds \<noteq> [] \<and> (\<forall>d \<in> set ds. on_backend ''cephfs'' d) then
            (if \<not> (\<exists>d \<in> set ds. on_backend ''cephfs'' d) \<and> ds \<noteq> []
             then Inl ''storage class requests CephFS shared filesystem provisioning but selected datastores do not resolve as cephfs''
             else Inr SharedModel)
          else Inr DiskModel)"

fun validate_access_mode :: "node_capability list \<Rightarrow> string list \<Rightarrow> string option" where
  "validate_access_mode [] allowed = None"
| "validate_access_mode (c # cs) allowed =
     (case nc_mode c of
        None \<Rightarrow> Some ''missing access mode''
      | Some mode \<Rightarrow>
          if mode \<in> set supported_access_modes then validate_access_mode cs allowed
          else if is_shared_access_mode mode then
            (case resolve_access_model c allowed Map.empty [] of Inl m \<Rightarrow> Some m | Inr _ \<Rightarrow> validate_access_mode cs allowed)
          else Some (''unsupported access mode '' @ [CHR 0x22] @ mode_name mode @ [CHR 0x22] @ ''; supported modes are '' @
            join_with '', '' (map mode_name supported_access_modes)))"

section \<open>Making a volume\<close>

record volume_response =
  vr_id :: string
  vr_capacity :: int
  vr_context :: str_map
  vr_topology :: "string list"

definition build_volume_context :: "str_map \<Rightarrow> str_map" where
  "build_volume_context params =
     (\<lambda>k. if k \<in> set [''csi.storage.k8s.io/pvc/uid'', param_pvc_name, param_pvc_namespace, param_pv_name, ''cephfsMounter''] \<and> annotation params k \<noteq> []
          then Some (annotation params k) else filter_provisioning_params params k)"

definition put_nonempty :: "string \<Rightarrow> string \<Rightarrow> str_map \<Rightarrow> str_map" where
  "put_nonempty k v m = (if trim_space v = [] then m else m(k \<mapsto> trim_space v))"

definition set_placement :: "datastore \<Rightarrow> string \<Rightarrow> string \<Rightarrow> volume_response \<Rightarrow> volume_response" where
  "set_placement d backend policy v =
     v\<lparr>vr_context := put_nonempty ''storage-provider.opennebula.io/selection-policy'' policy
         (put_nonempty ''storage-provider.opennebula.io/datastore-name'' (ds_name d)
         ((\<lambda>m. if 0 < ds_id d then m(annotation_datastore_id \<mapsto> itoa (ds_id d)) else m)
         (put_nonempty annotation_backend backend (vr_context v))))\<rparr>"

definition ensure_uuid :: "string \<Rightarrow> volume_response \<Rightarrow> volume_response" where
  "ensure_uuid requested v =
     (if annotation (vr_context v) ''uuid'' \<noteq> [] then v
      else if trim_space requested \<noteq> [] then v\<lparr>vr_context := (vr_context v)(''uuid'' \<mapsto> trim_space requested)\<rparr>
      else if trim_space (vr_id v) \<noteq> [] then v\<lparr>vr_context := (vr_context v)(''uuid'' \<mapsto> trim_space (vr_id v))\<rparr>
      else v)"

definition accessible_topology :: "volume_config \<Rightarrow> datastore \<Rightarrow> string list" where
  "accessible_topology cfg d = (if vc_topology cfg then filter (\<lambda>t. t \<noteq> []) (map (\<lambda>i. trim_space (itoa i)) (ds_compatible d)) else [])"

text \<open>The provider of shared filesystems.  What it returns for a new volume: its name, its capacity,
  its datastore and its backend.\<close>

record 's shared_provider =
  sv_create :: "string \<Rightarrow> int \<Rightarrow> selection_config \<Rightarrow> str_map \<Rightarrow> ('s, string \<times> int \<times> datastore \<times> string) op"
  sv_clone :: "string \<Rightarrow> int \<Rightarrow> selection_config \<Rightarrow> str_map \<Rightarrow> string + string \<Rightarrow> ('s, string \<times> int \<times> datastore \<times> string) op"
  sv_delete :: "string \<Rightarrow> ('s, unit) op"
  sv_expand :: "string \<Rightarrow> int \<Rightarrow> ('s, int) op"
  sv_snapshot :: "string \<Rightarrow> string \<Rightarrow> ('s, volume_snapshot) op"
  sv_delete_snapshot :: "string \<Rightarrow> ('s, unit) op"
  sv_list :: "string \<Rightarrow> string \<Rightarrow> int \<Rightarrow> string \<Rightarrow> ('s, volume_snapshot list \<times> string) op"
  sv_validate :: "string \<Rightarrow> ('s, unit) op"

datatype content_source = FromVolume string | FromSnapshot string | OtherSource

record create_request =
  cq_name :: string
  cq_capabilities :: "node_capability list"
  cq_required :: int
  cq_params :: str_map
  cq_source :: "content_source option"

record ('f, 's) volume_env =
  ve_fuel :: nat
  ve_float :: "'f float_ops"
  ve_api :: "'s one_api"
  ve_shared :: "'s shared_provider option"
  ve_inventory :: "(string list \<Rightarrow> string + string list) option"

type_synonym ('s, 'a) volume_call = "selection_runtime \<times> 's \<Rightarrow> (csi_error + 'a) \<times> selection_runtime \<times> 's"

text \<open>A call of the provider that does not change the counters of the datastores.\<close>

definition on_api :: "('s, 'a) op \<Rightarrow> selection_runtime \<times> 's \<Rightarrow> (prov_error + 'a) \<times> selection_runtime \<times> 's" where
  "on_api f rs = (case f (snd rs) of (x, s) \<Rightarrow> (x, fst rs, s))"

text \<open>The status of an error of a provider: errors of the datastores have codes of their own.\<close>

definition datastore_status :: "grpc_code \<Rightarrow> grpc_code \<Rightarrow> string \<Rightarrow> prov_error \<Rightarrow> csi_error" where
  "datastore_status config other message x =
     (if is_config_error x then (config, error_text x) else if is_capacity_error x then (ResourceExhausted, error_text x) else (other, message))"

definition finish_volume :: "volume_config \<Rightarrow> selection_config \<Rightarrow> str_map \<Rightarrow> datastore \<Rightarrow> string \<Rightarrow> volume_response \<Rightarrow> volume_response" where
  "finish_volume cfg sel params d backend v =
     ensure_uuid (annotation params ''csi.storage.k8s.io/pvc/uid'') (set_placement d backend (sel_policy sel) (v\<lparr>vr_topology := accessible_topology cfg d\<rparr>))"

definition create_shared ::
  "('f, 's) volume_env \<Rightarrow> volume_config \<Rightarrow> selection_config \<Rightarrow> create_request \<Rightarrow> int \<Rightarrow> volume_response \<Rightarrow> ('s, volume_response) volume_call" where
  "create_shared e cfg sel req bytes v rs =
     (let name = cq_name req; params = cq_params req;
          answer = (\<lambda>message r. case r of
             (Inl x, rs) \<Rightarrow> (Inl (datastore_status InvalidArgument InternalCode message x), rs)
           | (Inr (i, capacity, d, backend), rs) \<Rightarrow> (Inr (finish_volume cfg sel params d backend (v\<lparr>vr_id := i, vr_capacity := capacity\<rparr>)), rs))
      in case ve_shared e of
           None \<Rightarrow> (Inl (FailedPrecondition, ''shared filesystem provider is not configured''), rs)
         | Some sv \<Rightarrow>
             (case cq_source req of
                None \<Rightarrow> answer ''failed to create volume'' (on_api (sv_create sv name bytes sel params) rs)
              | Some (FromVolume src) \<Rightarrow>
                  if \<not> vc_cephfs_clones cfg then (Inl (Unimplemented, ''CephFS volume cloning is disabled by feature gate''), rs)
                  else answer ''failed to clone shared filesystem volume'' (on_api (sv_clone sv name bytes sel params (Inl src)) rs)
              | Some (FromSnapshot src) \<Rightarrow>
                  if \<not> is_shared_snapshot_id src then (Inl (InvalidArgument, ''shared filesystem restore requires a CephFS snapshot source''), rs)
                  else if \<not> vc_cephfs_snapshots cfg \<or> \<not> vc_cephfs_clones cfg then (Inl (Unimplemented, ''CephFS snapshot restore is disabled by feature gate''), rs)
                  else answer ''failed to clone shared filesystem volume'' (on_api (sv_clone sv name bytes sel params (Inr src)) rs)
              | Some OtherSource \<Rightarrow> (Inl (InvalidArgument, ''unsupported shared filesystem content source''), rs)))"

definition create_disk ::
  "('f, 's) volume_env \<Rightarrow> volume_config \<Rightarrow> selection_config \<Rightarrow> create_request \<Rightarrow> node_capability \<Rightarrow> int \<Rightarrow> volume_response \<Rightarrow> ('s, volume_response) volume_call" where
  "create_disk e cfg sel req c bytes v rs =
     (let name = cq_name req; params = cq_params req; api = ve_api e;
          answer = (\<lambda>message r. case r of
             (Inl x, rs) \<Rightarrow> (Inl (datastore_status InvalidArgument InternalCode message x), rs)
           | (Inr res, rs) \<Rightarrow> (Inr (finish_volume cfg sel params (cr_datastore res) (ds_backend (cr_datastore res))
               (if 0 < cr_capacity res then v\<lparr>vr_capacity := cr_capacity res\<rparr> else v)), rs))
      in case cq_source req of
           Some (FromVolume src) \<Rightarrow> answer ''failed to clone volume'' (clone_volume (ve_fuel e) (ve_float e) api name src sel rs)
         | Some (FromSnapshot src) \<Rightarrow> (Inl (Unimplemented, ''restoring a volume from an OpenNebula image snapshot is not supported by the current backend''), rs)
         | Some OtherSource \<Rightarrow> (Inl (InvalidArgument, ''unsupported volume content source''), rs)
         | None \<Rightarrow>
             (case on_api (volume_exists api name) rs of
                (x, rs) \<Rightarrow>
                  (let (i, sz) = (case x of Inl _ \<Rightarrow> (-1, -1) | Inr p \<Rightarrow> p)
                   in if i \<noteq> -1
                      then (if sz = bytes then (Inr (ensure_uuid (annotation params ''csi.storage.k8s.io/pvc/uid'') v), rs)
                            else (Inl (AlreadyExists, ''volume with the same name already exists with different size''), rs))
                      else answer ''failed to create volume''
                             (create_volume (ve_fuel e) (ve_float e) api name bytes ''csi.opennebula.io'' (nc_mode c = Some MultiNodeReaderOnly)
                                (requested_fs_type params (nc_access c)) (filter_provisioning_params params) sel rs))))"

definition controller_create_volume :: "('f, 's) volume_env \<Rightarrow> volume_config \<Rightarrow> create_request \<Rightarrow> ('s, volume_response) volume_call" where
  "controller_create_volume e cfg req rs =
     (let params = cq_params req; bytes = (if cq_required req = 0 then 1024 * 1024 * 1024 else cq_required req) in
      if cq_name req = [] then (Inl (InvalidArgument, ''missing volume name''), rs)
      else (case cq_capabilities req of
         [] \<Rightarrow> (Inl (InvalidArgument, ''missing volume capabilities''), rs)
       | c # cs \<Rightarrow>
           (case datastore_selection cfg (ve_inventory e) params of
              Inl m \<Rightarrow> (Inl (InvalidArgument, m), rs)
            | Inr sel \<Rightarrow>
                (case validate_access_mode (c # cs) (sel_types sel) of
                   Some m \<Rightarrow> (Inl (InvalidArgument, m), rs)
                 | None \<Rightarrow>
                     (case resolve_provisioning_datastores (ve_float e) (ve_api e) sel rs of
                        (Inl x, rs) \<Rightarrow> (Inl (InvalidArgument, error_text x), rs)
                      | (Inr ds, rs) \<Rightarrow>
                          (case resolve_access_model c (sel_types sel) params ds of
                             Inl m \<Rightarrow> (Inl (InvalidArgument, m), rs)
                           | Inr model \<Rightarrow>
                               (let v = \<lparr>vr_id = cq_name req, vr_capacity = bytes, vr_context = build_volume_context params, vr_topology = []\<rparr>
                                in if model = SharedModel then create_shared e cfg sel req bytes v rs
                                   else create_disk e cfg sel req c bytes v rs))))))) "

section \<open>The other calls\<close>

definition with_shared :: "('f, 's) volume_env \<Rightarrow> ('s shared_provider \<Rightarrow> ('s, 'a) volume_call) \<Rightarrow> ('s, 'a) volume_call" where
  "with_shared e f rs =
     (case ve_shared e of None \<Rightarrow> (Inl (FailedPrecondition, ''shared filesystem provider is not configured''), rs) | Some sv \<Rightarrow> f sv rs)"

text \<open>An answer of the provider with the status of its error.\<close>

definition answered :: "(prov_error \<Rightarrow> csi_error) \<Rightarrow> (prov_error + 'a) \<times> selection_runtime \<times> 's \<Rightarrow> (csi_error + 'a) \<times> selection_runtime \<times> 's" where
  "answered status r = (case r of (Inl x, rs) \<Rightarrow> (Inl (status x), rs) | (Inr a, rs) \<Rightarrow> (Inr a, rs))"

definition controller_delete_volume :: "('f, 's) volume_env \<Rightarrow> string \<Rightarrow> ('s, unit) volume_call" where
  "controller_delete_volume e volume rs =
     (if volume = [] then (Inl (InvalidArgument, ''missing volume ID''), rs)
      else if is_shared_volume_id volume
      then with_shared e (\<lambda>sv rs. answered (datastore_status FailedPrecondition FailedPrecondition ''failed to delete volume'') (on_api (sv_delete sv volume) rs)) rs
      else answered (\<lambda>_. (FailedPrecondition, ''failed to delete volume'')) (on_api (delete_volume (ve_fuel e) (ve_api e) volume) rs))"

definition internal_error :: "prov_error \<Rightarrow> csi_error" where
  "internal_error x = (InternalCode, error_text x)"

definition controller_create_snapshot :: "('f, 's) volume_env \<Rightarrow> volume_config \<Rightarrow> string \<Rightarrow> string \<Rightarrow> ('s, volume_snapshot) volume_call" where
  "controller_create_snapshot e cfg name source rs =
     (if trim_space name = [] then (Inl (InvalidArgument, ''snapshot name is required''), rs)
      else if trim_space source = [] then (Inl (InvalidArgument, ''source volume ID is required''), rs)
      else if is_shared_volume_id source then with_shared e (\<lambda>sv rs.
        if \<not> vc_cephfs_snapshots cfg then (Inl (Unimplemented, ''CephFS snapshots are disabled by feature gate''), rs)
        else answered internal_error (on_api (sv_snapshot sv source name) rs)) rs
      else answered internal_error (on_api (create_snapshot (ve_api e) source name) rs))"

definition controller_delete_snapshot :: "('f, 's) volume_env \<Rightarrow> volume_config \<Rightarrow> string \<Rightarrow> ('s, unit) volume_call" where
  "controller_delete_snapshot e cfg snapshot rs =
     (if trim_space snapshot = [] then (Inl (InvalidArgument, ''snapshot ID is required''), rs)
      else if is_shared_snapshot_id snapshot then with_shared e (\<lambda>sv rs.
        if \<not> vc_cephfs_snapshots cfg then (Inl (Unimplemented, ''CephFS snapshots are disabled by feature gate''), rs)
        else answered internal_error (on_api (sv_delete_snapshot sv snapshot) rs)) rs
      else answered internal_error (on_api (delete_snapshot (ve_api e) snapshot) rs))"

definition controller_list_snapshots ::
  "('f, 's) volume_env \<Rightarrow> volume_config \<Rightarrow> string \<Rightarrow> string \<Rightarrow> int \<Rightarrow> string \<Rightarrow> ('s, volume_snapshot list \<times> string) volume_call" where
  "controller_list_snapshots e cfg snapshot source max_entries token rs =
     (if is_shared_snapshot_id snapshot \<or> is_shared_volume_id source then with_shared e (\<lambda>sv rs.
        if \<not> vc_cephfs_snapshots cfg then (Inl (Unimplemented, ''CephFS snapshots are disabled by feature gate''), rs)
        else answered internal_error (on_api (sv_list sv snapshot source max_entries token) rs)) rs
      else answered internal_error (on_api (list_snapshots (ve_api e) snapshot source max_entries token) rs))"

definition validate_volume_capabilities :: "('f, 's) volume_env \<Rightarrow> volume_config \<Rightarrow> string \<Rightarrow> node_capability list \<Rightarrow> ('s, node_capability list) volume_call" where
  "validate_volume_capabilities e cfg volume cs rs =
     (if volume = [] then (Inl (InvalidArgument, ''missing volume ID''), rs)
      else if cs = [] then (Inl (InvalidArgument, ''missing volume capabilities''), rs)
      else (case (if is_shared_volume_id volume
                  then with_shared e (\<lambda>sv rs. answered (\<lambda>_. (NotFoundCode, ''volume not found'')) (on_api (sv_validate sv volume) rs)) rs
                  else (case on_api (volume_exists (ve_api e) volume) rs of
                          (Inl _, rs) \<Rightarrow> (Inl (NotFoundCode, ''volume not found''), rs)
                        | (Inr (i, _), rs) \<Rightarrow> (if i = -1 then Inl (NotFoundCode, ''volume not found'') else Inr (), rs))) of
              (Inl x, rs) \<Rightarrow> (Inl x, rs)
            | (Inr _, rs) \<Rightarrow> (case validate_access_mode cs (allowed_datastore_types cfg) of Some m \<Rightarrow> Inl (InvalidArgument, m) | None \<Rightarrow> Inr cs, rs)))"

definition controller_list_volumes :: "('f, 's) volume_env \<Rightarrow> int \<Rightarrow> string \<Rightarrow> ('s, string list) volume_call" where
  "controller_list_volumes e max_entries token rs =
     (if max_entries < 0 then (Inl (Aborted, ''invalid max_entries''), rs)
      else if token \<noteq> [] \<and> (case atoi token of None \<Rightarrow> True | Some n \<Rightarrow> n < 0) then (Inl (Aborted, ''invalid starting_token''), rs)
      else answered (\<lambda>_. (InternalCode, ''failed to list volumes'')) (on_api (list_volumes (ve_api e) ''csi.opennebula.io'' max_entries token) rs))"

definition controller_get_capacity :: "('f, 's) volume_env \<Rightarrow> volume_config \<Rightarrow> str_map \<Rightarrow> ('s, int) volume_call" where
  "controller_get_capacity e cfg params rs =
     (case datastore_selection cfg (ve_inventory e) params of
        Inl m \<Rightarrow> (Inl (InvalidArgument, m), rs)
      | Inr sel \<Rightarrow> answered (datastore_status InvalidArgument InternalCode ''failed to get capacity'') (get_capacity (ve_float e) (ve_api e) sel rs))"

text \<open>Growing: the new size, and whether the node has to grow the filesystem too.  The lock of the
  volume is held around the call of the provider.\<close>

definition controller_expand_volume :: "('f, 's) volume_env \<Rightarrow> volume_config \<Rightarrow> string \<Rightarrow> int option \<Rightarrow> access_type option \<Rightarrow> ('s, int \<times> bool) volume_call" where
  "controller_expand_volume e cfg volume required access rs =
     (let bytes = (case required of None \<Rightarrow> 0 | Some n \<Rightarrow> n);
          sized = (\<lambda>again r. case r of (Inl x, rs) \<Rightarrow> (Inl x, rs) | (Inr n, rs) \<Rightarrow> (Inr (n, again), rs)) in
      if volume = [] then (Inl (InvalidArgument, ''missing volume ID''), rs)
      else if bytes \<le> 0 then (Inl (InvalidArgument, ''missing required capacity range''), rs)
      else if is_shared_volume_id volume then with_shared e (\<lambda>sv rs.
        if \<not> vc_cephfs_expansion cfg then (Inl (Unimplemented, ''CephFS shared filesystem expansion is disabled by feature gate''), rs)
        else sized False (answered (datastore_status FailedPrecondition InternalCode ''failed to expand CephFS volume'') (on_api (sv_expand sv volume bytes) rs))) rs
      else sized (access \<noteq> Some BlockAccess) (answered (datastore_status FailedPrecondition InternalCode ''failed to expand volume'')
             (on_api (expand_volume (ve_fuel e) (ve_api e) volume bytes (vc_detached_expansion cfg)) rs)))"

section \<open>Which volumes may be shared\<close>



section \<open>A volume is made once\<close>

text \<open>The parts that do not make images.\<close>

definition making :: "(image_request \<Rightarrow> int \<Rightarrow> ('s, int) call) \<Rightarrow> (int \<Rightarrow> string \<Rightarrow> int \<Rightarrow> ('s, int) call) \<Rightarrow> 's one_api \<Rightarrow> 's one_api" where
  "making create clone api = api\<lparr>api_image_create := create, api_image_clone := clone\<rparr>"

lemma reads_alone [simp]:
  "volume_exists (making create clone api) name = volume_exists api name"
  "resolve_provisioning_datastores fl (making create clone api) sel = resolve_provisioning_datastores fl api sel"
  by (simp_all add: making_def volume_exists_def resolve_provisioning_datastores_def fun_eq_iff split: prod.split sum.split)

lemma disk_made_once:
  assumes "cq_source req = None" "fst (volume_exists (ve_api e) (cq_name req) (snd rs)) = Inr (i, sz)" "i \<noteq> -1"
  shows "create_disk (e\<lparr>ve_api := making create clone (ve_api e)\<rparr>) cfg sel req c bytes v rs = create_disk e cfg sel req c bytes v rs"
    "fst (create_disk e cfg sel req c bytes v rs) =
       (if sz = bytes then Inr (ensure_uuid (annotation (cq_params req) ''csi.storage.k8s.io/pvc/uid'') v)
        else Inl (AlreadyExists, ''volume with the same name already exists with different size''))"
  using assms by (simp_all add: create_disk_def on_api_def Let_def case_prod_beta)


definition sample_volume_env :: "(rat, nat) volume_env" where
  "sample_volume_env = \<lparr>ve_fuel = 9, ve_float = sample_float_ops, ve_api = sample_api, ve_shared = None, ve_inventory = None\<rparr>"

definition sample_volume_config :: volume_config where
  "sample_volume_config = \<lparr>vc_policy = None, vc_datastores = Some [''1'', ''100''], vc_types = None, vc_cephfs_clones = False, vc_cephfs_snapshots = False,
     vc_cephfs_expansion = False, vc_topology = False, vc_detached_expansion = False\<rparr>"

definition sample_create :: create_request where
  "sample_create = \<lparr>cq_name = ''pvc'', cq_capabilities = [\<lparr>nc_access = MountAccess [] [], nc_mode = Some SingleNodeWriter\<rparr>], cq_required = 2 * mib,
     cq_params = Map.empty, cq_source = None\<rparr>"


end
