(* ===== verification/Spec2Isabelle.thy ===== *)
theory Spec2Isabelle
  imports Operation_Locks Node_Safety Controller_Volumes
begin

text \<open>
  Verification of the OpenNebula CSI driver (\<open>src/pkg/csi\<close>).

  The program is a Kubernetes storage driver.  Its controller creates, grows, snapshots and
  deletes OpenNebula images, and attaches them to the virtual machines behind the nodes of
  the cluster; attaching and detaching (hotplug) is slow, may hang and may be left half done,
  and most of the controller's code guards it.  Its node plugin, on each machine, finds the
  device of an attached image, formats and mounts it, binds it into containers and repairs what
  goes stale.  The development models the controller and the node plugin for disks.  Volumes on
  a shared filesystem appear as far as both choose between the two kinds and hand calls over.

  \<^bold>\<open>Theories and the code they model.\<close>  Paths are relative to \<open>src/pkg/csi\<close>.

  Foundations.

  \<^item> \<open>Go_Prelude\<close>: what the code uses of Go: time and durations as integers (nanoseconds since
    the zero time), 64 bit wrap-around, truncating division, the functions of \<open>strings\<close> and
    \<open>strconv\<close> on byte strings, status codes, and the shared lemmas on lists and options.
  \<^item> \<open>Handler_Calculus\<close>: no code; a weakest precondition calculus for handlers in the state
    monad, with which the theorems on whole handlers are proved.

  State of the controller.

  \<^item> \<open>Operation_Locks\<close>: \<open>driver/operation_locks.go\<close>, the reference counted table of mutexes, as an
    interleaving of threads, and the lock programs of the controller's operations.  Shown: mutual
    exclusion, exact reference counts, refinement of one mutex per key, completion of
    the operations that take locks in order, and a deadlock of the one that does not.
  \<^item> \<open>Hotplug_Queue\<close>: \<open>driver/hotplug_queue.go\<close>, the queue of each node, with callers, workers,
    coalescing, cancellation, priorities that age, and the stored snapshots.  Shown: one active
    request for each node, truthful answers, every call can be answered, bounded overtaking.
  \<^item> \<open>Hotplug_Guard\<close>: \<open>driver/hotplug_guard.go\<close> and the guard functions of
    \<open>driver/controllerserver.go\<close> and \<open>driver/driver.go\<close>, which pause a node after repeated timeouts.
    Shown: the exact count, and that a pause survives a restart.
  \<^item> \<open>Config_Store\<close>: the writes to ConfigMaps of \<open>driver/runtime_k8s.go\<close>, with conflicts and
    retries against other clients.  Shown: no lost update (locale \<open>config_write\<close>, also used
    by \<open>Device_Recovery\<close>).
  \<^item> \<open>Quarantine\<close>: \<open>driver/volume_quarantine.go\<close> and \<open>driver/host_artifact_quarantine.go\<close>, both
    as instances of the locale \<open>quarantine_store\<close>.
  \<^item> \<open>Sticky_Attachment\<close>: \<open>driver/sticky_attachment.go\<close>, the holds that delay a detach, and that
    they survive a reload under any outcomes of writes.
  \<^item> \<open>Maintenance_Mode\<close>: \<open>driver/maintenance_mode.go\<close>, and how holds are released after it.
  \<^item> \<open>Kube_Runtime\<close>: what \<open>driver/runtime_k8s.go\<close> reads of the cluster.

  Operations on OpenNebula.

  \<^item> \<open>Identifiers\<close>: the identifiers of snapshots and shared volumes and the shared paths of
    \<open>opennebula/snapshot.go\<close> and \<open>opennebula/sharedfs.go\<close>.
  \<^item> \<open>Datastores\<close>, \<open>Datastore_Selection\<close>: \<open>opennebula/datastore.go\<close>, \<open>opennebula/backend.go\<close> and
    \<open>opennebula/selection_runtime.go\<close>: which datastores a volume may be placed on, and in what order.
  \<^item> \<open>Adaptive_Timeout\<close>: \<open>opennebula/adaptive_timeout.go\<close>.
  \<^item> \<open>Cloud_Api\<close>, \<open>Disk_Provider\<close>, \<open>Disk_Operations\<close>: \<open>opennebula/persistentdisk.go\<close>,
    \<open>opennebula/host_artifact.go\<close>, \<open>opennebula/opennebula.go\<close> and \<open>opennebula/vm_lookup.go\<close>: the
    operations on disks.  Shown: they return, creation is first fit, expansion lasts.

  Handlers of the controller.

  \<^item> \<open>Controller_Attach\<close>: the parts of publish and unpublish in \<open>driver/controllerserver.go\<close>,
    \<open>driver/metadata_drift.go\<close> and \<open>driver/host_artifact_controller.go\<close>.
  \<^item> \<open>Controller_Publish\<close>: \<open>ControllerPublishVolume\<close>, \<open>ControllerUnpublishVolume\<close> and the reaper of
    expired holds.
  \<^item> \<open>Publish_Safety\<close>, \<open>Detach_Safety\<close>: the theorems on them: when they attach, what their
    answers mean and what happens to the holds.
  \<^item> \<open>Device_Recovery\<close>: \<open>driver/local_device_recovery.go\<close>: reports of nodes that miss a device,
    and the reattachment by the controller.
  \<^item> \<open>Controller_Volumes\<close>: \<open>CreateVolume\<close>, \<open>DeleteVolume\<close>, \<open>ControllerExpandVolume\<close>, the snapshot,
    list, validation and capacity calls, \<open>driver/volume_access.go\<close> and \<open>driver/datastore_config.go\<close>.
    Shown: repeating a creation makes nothing, and the access model fits the request.

  The node plugin.

  \<^item> \<open>Node_Host\<close>: the machine as a record of calls, and the state of the plugin.
  \<^item> \<open>Node_Devices\<close>: \<open>driver/node_device_resolver.go\<close>: the search for a device returns, and what it
    returns is a device of the volume.
  \<^item> \<open>Node_Sessions\<close>: \<open>driver/nodeserver_localdisk_recovery.go\<close>: sessions and stale mounts.
  \<^item> \<open>Node_Server\<close>, \<open>Node_Safety\<close>: the calls of \<open>driver/nodeserver.go\<close>, and what each does to the
    mount table and to the size of a filesystem.

  \<^bold>\<open>Parameters.\<close>  OpenNebula (\<open>one_api\<close>), Kubernetes (\<open>kube_api\<close>, \<open>config_api\<close>) and the machine
  (\<open>host\<close>) are records of functions on a world of any type, so every theorem holds
  for whatever they answer.  Where a theorem relies on them, a named hypothesis says on what:
  \<open>api_clock\<close> and \<open>host_clock\<close> that time passes, \<open>host_mounts\<close> what mounting does to the mount
  table, \<open>cluster_apart\<close> that calls to the cluster leave the mounts of the machine alone.  JSON, base64,
  floating-point numbers, settings, the inventory's filter of datastores, leadership and the code
  for shared filesystems (\<open>shared_node\<close>, \<open>shared_provider\<close>) are arguments.  A handler
  gets the answer of the queue as an argument and runs alone; the interleaving of handlers is
  treated in \<open>Operation_Locks\<close> and \<open>Hotplug_Queue\<close>.

  \<^bold>\<open>Fuel.\<close>  The loops that wait for OpenNebula take fuel and give \<open>None\<close> (\<open>stuck\<close>) when it runs
  out; more than the time left by \<open>api_clock\<close> is enough
  (\<open>hotplug_wait_returns\<close>, \<open>provider_operations_return\<close>).  The loops of the node sleep a second or
  more in each round, so a round for each second of the timeout and two more are enough
  (\<open>resolve_device_returns\<close>, \<open>node_expand_returns\<close>).

  \<^bold>\<open>Not modelled.\<close>  The CephFS provider and the node's shared filesystem code
  (\<open>opennebula/cephfs.go\<close>, \<open>driver/nodeserver_sharedfs.go\<close>,
  \<open>driver/nodeserver_sharedfs_recovery.go\<close>) run the programs of Ceph and are arguments.  The
  attachment reconciler (\<open>driver/attachment_reconciler.go\<close>) is present by its lock program only.  The
  admission webhook, operator commands, preflight checks, hotplug diagnosis, metrics, events,
  leader election, configuration, the gRPC server and the start of the process read, report or
  connect, and change no state modelled here.  The inventory controller
  (\<open>src/pkg/inventory\<close>) is a program of its own.
\<close>

end
